(* ===== verification/Prelude.thy ===== *)
theory Prelude
  imports Main "HOL-Library.Word" "HOL-Library.Multiset"
begin

text \<open>
  Shared vocabulary of the development: machine integers and byte strings, Rust's
  \<^verbatim>\<open>Result\<close> as a sum, the \<^verbatim>\<open>Poll\<close> and \<^verbatim>\<open>Async\<close> types of the futures crate, external
  futures and streams as tapes of poll answers, the clock seen by timers, the driver of a
  \<^verbatim>\<open>StateMachineFuture\<close>, and the generic lemmas the components rely on.

  A third-party future or stream is represented by the list of the answers it will give to
  the polls to come. The list is an argument of every definition that polls it, so a theorem
  holds for any behaviour of that code over any finite number of polls.
\<close>

section \<open>Rules shared by the component proofs\<close>

named_theorems poll_simps \<open>evaluation of polls, tapes and machine steps\<close>

named_theorems hp_defs \<open>definitions unfolded by the branch analyses of the handlers\<close>

section \<open>Machine integers, bytes, results\<close>

type_synonym u8 = "8 word"
type_synonym u16 = "16 word"
type_synonym u32 = "32 word"
type_synonym u64 = "64 word"
type_synonym u128 = "128 word"
type_synonym bytes = "u8 list"

text \<open>
  A peer identifier, up to Rust's \<^verbatim>\<open>==\<close>: the slice \<^verbatim>\<open>&buf[..len]\<close> of a \<^verbatim>\<open>PubKeyHash\<close>.
  Theory \<open>PubKey\<close> models the structure itself and shows that its \<^verbatim>\<open>Eq\<close> and \<^verbatim>\<open>Hash\<close> agree
  with equality of these byte strings, which is what hash maps keyed by it rely on.
\<close>

type_synonym peer_id = bytes

abbreviation Ok :: "'a \<Rightarrow> 'e + 'a" where
  "Ok \<equiv> Inr"

abbreviation Err :: "'e \<Rightarrow> 'e + 'a" where
  "Err \<equiv> Inl"

definition is_ok :: "'e + 'a \<Rightarrow> bool" where
  "is_ok r = (case r of Ok _ \<Rightarrow> True | Err _ \<Rightarrow> False)"

definition map_err :: "('e \<Rightarrow> 'f) \<Rightarrow> 'e + 'a \<Rightarrow> 'f + 'a" where
  "map_err f r = (case r of Ok a \<Rightarrow> Ok a | Err e \<Rightarrow> Err (f e))"

definition map_ok :: "('a \<Rightarrow> 'b) \<Rightarrow> 'e + 'a \<Rightarrow> 'e + 'b" where
  "map_ok f r = (case r of Ok a \<Rightarrow> Ok (f a) | Err e \<Rightarrow> Err e)"

lemma is_ok_simps [simp]: "is_ok (Ok a)" "\<not> is_ok (Err e)"
  by (simp_all add: is_ok_def)

lemma map_err_simps [simp]: "map_err f (Ok a) = Ok a" "map_err f (Err e) = Err (f e)"
  by (simp_all add: map_err_def)

lemma map_err_eq_iff [simp]:
  "map_err f r = Ok a \<longleftrightarrow> r = Ok a" "map_err f r = Err e \<longleftrightarrow> (\<exists>e'. r = Err e' \<and> e = f e')"
  by (cases r; auto)+

lemma map_ok_simps [simp]: "map_ok f (Ok a) = Ok (f a)" "map_ok f (Err e) = Err e"
  by (simp_all add: map_ok_def)

section \<open>Polling\<close>

datatype 'a async = NotReady | Ready 'a

type_synonym ('a, 'e) poll = "'e + 'a async"

definition is_ready :: "'a async \<Rightarrow> bool" where
  "is_ready a = (case a of Ready _ \<Rightarrow> True | NotReady \<Rightarrow> False)"

definition map_async :: "('a \<Rightarrow> 'b) \<Rightarrow> 'a async \<Rightarrow> 'b async" where
  "map_async f a = (case a of Ready x \<Rightarrow> Ready (f x) | NotReady \<Rightarrow> NotReady)"

lemma is_ready_simps [simp]: "is_ready (Ready a)" "\<not> is_ready NotReady"
  by (simp_all add: is_ready_def)

lemma map_async_simps [simp]:
  "map_async f (Ready a) = Ready (f a)" "map_async f NotReady = NotReady"
  by (simp_all add: map_async_def)

text \<open>
  \<^verbatim>\<open>p.map(|v| v.is_ready()).unwrap_or(true)\<close>, the test the code applies to one-shot channels
  and timers: ready, or failed.
\<close>

definition ready_or_err :: "('a, 'e) poll \<Rightarrow> bool" where
  "ready_or_err p = (case p of Ok a \<Rightarrow> is_ready a | Err _ \<Rightarrow> True)"

lemma ready_or_err_simps [simp]:
  "ready_or_err (Ok (Ready a))" "\<not> ready_or_err (Ok NotReady)" "ready_or_err (Err e)"
  by (simp_all add: ready_or_err_def)

text \<open>The four answers of a polled stream.\<close>

lemma stream_poll_cases:
  fixes p :: "('a option, 'e) poll"
  obtains (not_ready) "p = Ok NotReady" | (closed) "p = Ok (Ready None)"
    | (item) a where "p = Ok (Ready (Some a))" | (error) e where "p = Err e"
proof (cases p)
  case (Inr a)
  show ?thesis
  proof (cases a)
    case (Ready x)
    with Inr closed item show ?thesis by (cases x) auto
  qed (use Inr not_ready in simp)
qed (rule error)

type_synonym ('a, 'e) tape = "('a, 'e) poll list"

fun poll_tape :: "('a, 'e) tape \<Rightarrow> ('a, 'e) poll \<times> ('a, 'e) tape" where
  "poll_tape [] = (Ok NotReady, [])"
| "poll_tape (p # ps) = (p, ps)"

lemma poll_tape_length [poll_simps]: "length (snd (poll_tape t)) \<le> length t"
  by (cases t) simp_all

lemma poll_tape_progress: "fst (poll_tape t) \<noteq> Ok NotReady \<Longrightarrow> length (snd (poll_tape t)) < length t"
  by (cases t) simp_all

lemma poll_tapeD: "poll_tape t = (p, t') \<Longrightarrow> p \<noteq> Ok NotReady \<Longrightarrow> t = p # t'"
  by (cases t) simp_all

text \<open>The items a stream has ready before it answers anything else, and all the items on a tape.\<close>

fun ready_items :: "('a option, 'e) tape \<Rightarrow> 'a list" where
  "ready_items (Ok (Ready (Some v)) # t) = v # ready_items t"
| "ready_items _ = []"

lemma ready_items_other: "\<nexists>v t. xs = Ok (Ready (Some v)) # t \<Longrightarrow> ready_items xs = []"
  by (cases xs rule: ready_items.cases) auto

definition poll_items :: "('a option, 'e) poll \<Rightarrow> 'a list" where
  "poll_items p = (case p of Ok (Ready (Some x)) \<Rightarrow> [x] | _ \<Rightarrow> [])"

definition tape_items :: "('a option, 'e) tape \<Rightarrow> 'a list" where
  "tape_items t = concat (map poll_items t)"

lemma poll_items_simps [simp]:
  "poll_items (Ok (Ready (Some x))) = [x]" "poll_items (Ok (Ready None)) = []"
  "poll_items (Ok NotReady) = []" "poll_items (Err e) = []"
  by (simp_all add: poll_items_def)

lemma tape_items_simps [simp]:
  "tape_items [] = []" "tape_items (p # t) = poll_items p @ tape_items t"
  by (simp_all add: tape_items_def)

lemma tape_items_poll: "poll_tape t = (p, t') \<Longrightarrow> tape_items t = poll_items p @ tape_items t'"
  by (cases t) auto

text \<open>A tape on which the given items arrive, one after the other.\<close>

definition items_tape :: "'a list \<Rightarrow> ('a option, 'e) tape" where
  "items_tape xs = map (\<lambda>x. Ok (Ready (Some x))) xs"

lemma items_tape_simps [simp]:
  "items_tape [] = []" "items_tape (x # xs) = Ok (Ready (Some x)) # items_tape xs"
  by (simp_all add: items_tape_def)

text \<open>
  A \<^verbatim>\<open>FuturesUnordered\<close> yields the results of its futures in the order in which they complete,
  \<^verbatim>\<open>None\<close> once every future has completed and \<^verbatim>\<open>NotReady\<close> while some are pending. At a given
  moment it is the list of the results not yet taken and the number of pending futures.
\<close>

record ('a, 'e) futures_unordered =
  fu_done :: "('e + 'a) list"
  fu_pending :: nat

definition fu_poll ::
  "('a, 'e) futures_unordered \<Rightarrow> ('a option, 'e) poll \<times> ('a, 'e) futures_unordered" where
  "fu_poll fu = (case fu_done fu of
     [] \<Rightarrow> (Ok (if fu_pending fu = 0 then Ready None else NotReady), fu)
   | Ok a # rs \<Rightarrow> (Ok (Ready (Some a)), fu\<lparr>fu_done := rs\<rparr>)
   | Err e # rs \<Rightarrow> (Err e, fu\<lparr>fu_done := rs\<rparr>))"

definition fu_len :: "('a, 'e) futures_unordered \<Rightarrow> nat" where
  "fu_len fu = length (fu_done fu) + fu_pending fu"

text \<open>
  Collecting \<open>n\<close> futures gives a collection of \<open>n\<close> pending ones; a future that completes,
  in whatever order, adds its result.
\<close>

definition futures_unordered_new :: "nat \<Rightarrow> ('a, 'e) futures_unordered" where
  "futures_unordered_new n = \<lparr>fu_done = [], fu_pending = n\<rparr>"

definition fu_complete ::
  "'e + 'a \<Rightarrow> ('a, 'e) futures_unordered \<Rightarrow> ('a, 'e) futures_unordered" where
  "fu_complete r fu = (if fu_pending fu = 0 then fu
     else fu\<lparr>fu_done := fu_done fu @ [r], fu_pending := fu_pending fu - 1\<rparr>)"

lemma fu_poll_simps [simp, poll_simps]:
  "fu_done fu = Ok a # rs \<Longrightarrow> fu_poll fu = (Ok (Ready (Some a)), fu\<lparr>fu_done := rs\<rparr>)"
  "fu_done fu = Err e # rs \<Longrightarrow> fu_poll fu = (Err e, fu\<lparr>fu_done := rs\<rparr>)"
  "fu_done fu = [] \<Longrightarrow> fu_poll fu = (Ok (if fu_pending fu = 0 then Ready None else NotReady), fu)"
  by (simp_all add: fu_poll_def)

lemma fu_complete_len [simp]: "fu_len (fu_complete r fu) = fu_len fu"
  by (simp add: fu_len_def fu_complete_def)

lemma fu_new_len [simp]: "fu_len (futures_unordered_new n) = n"
  by (simp add: fu_len_def futures_unordered_new_def)

lemma fold_fu_complete:
  "length rs \<le> fu_pending fu \<Longrightarrow> fold fu_complete rs fu =
     fu\<lparr>fu_done := fu_done fu @ rs, fu_pending := fu_pending fu - length rs\<rparr>"
proof (induction rs arbitrary: fu)
  case Nil
  then show ?case by simp
next
  case (Cons r rs)
  then show ?case by (simp add: fu_complete_def)
qed

text \<open>
  A \<^verbatim>\<open>FuturesUnordered\<close> whose futures act on a shared state when they are polled: the futures are
  kept in the order in which they were woken, one poll goes through them until one completes
  (which takes it out), and an empty collection answers \<^verbatim>\<open>None\<close>.
\<close>

fun futures_scan ::
  "('f \<Rightarrow> 's \<Rightarrow> ('a, 'e) poll \<times> 'f \<times> 's) \<Rightarrow> 'f list \<Rightarrow> 's \<Rightarrow> ('a, 'e) poll \<times> 'f list \<times> 's" where
  "futures_scan poll [] s = (Ok NotReady, [], s)"
| "futures_scan poll (f # fs) s = (case poll f s of
     (Ok NotReady, f', s') \<Rightarrow> (case futures_scan poll fs s' of (p, fs', s'') \<Rightarrow> (p, f' # fs', s''))
   | (p, _, s') \<Rightarrow> (p, fs, s'))"

definition futures_poll ::
  "('f \<Rightarrow> 's \<Rightarrow> ('a, 'e) poll \<times> 'f \<times> 's) \<Rightarrow> 'f list \<Rightarrow> 's \<Rightarrow> ('a option, 'e) poll \<times> 'f list \<times> 's" where
  "futures_poll poll fs s = (if fs = [] then (Ok (Ready None), [], s)
     else case futures_scan poll fs s of (p, fs', s') \<Rightarrow> (map_ok (map_async Some) p, fs', s'))"

text \<open>A property of the shared state that every single poll keeps.\<close>

lemma futures_scan_invariant:
  assumes keep: "\<And>f s p f' s'. I s \<Longrightarrow> poll f s = (p, f', s') \<Longrightarrow> I s'"
  shows "I s \<Longrightarrow> futures_scan poll fs s = (p, fs', s') \<Longrightarrow> I s'"
proof (induction fs arbitrary: s fs')
  case Nil
  then show ?case by simp
next
  case (Cons f fs)
  obtain q f1 s1 where f: "poll f s = (q, f1, s1)" by (metis prod_cases3)
  with Cons.prems keep have "I s1" by blast
  with Cons f show ?case by (auto split: sum.splits async.splits prod.splits)
qed

section \<open>Time\<close>

text \<open>
  Instants and durations are natural numbers of nanoseconds. The timer wheel of tokio is
  third-party code: \<open>timer_answer\<close> is what a \<^verbatim>\<open>Delay\<close> with a given deadline answers when
  it is polled. \<open>timer_documented\<close> is the documented behaviour, used as a hypothesis.

  \<open>last_instant\<close> is the latest instant the platform can represent. \<^verbatim>\<open>Instant + Duration\<close> panics
  beyond it, and a \<^verbatim>\<open>Duration\<close> holds at most \<open>2 ^ 64\<close> seconds; \<open>instant_add\<close> is the addition with the
  panic as \<open>None\<close>, for the durations a user configures.
\<close>

type_synonym instant = nat
type_synonym duration = nat

record clock =
  now :: instant
  timer_answer :: "instant \<Rightarrow> (unit, string) poll"
  last_instant :: instant

definition max_duration :: duration where
  "max_duration = 2 ^ 64 * 10 ^ 9 - 1"

definition instant_add :: "clock \<Rightarrow> duration \<Rightarrow> instant option" where
  "instant_add clk d = (if now clk + d \<le> last_instant clk then Some (now clk + d) else None)"

definition from_secs :: "nat \<Rightarrow> duration" where
  "from_secs s = s * 10 ^ 9"

definition timer_documented :: "clock \<Rightarrow> bool" where
  "timer_documented clk \<longleftrightarrow>
     (\<forall>d. timer_answer clk d = Ok (if d \<le> now clk then Ready () else NotReady))"

definition documented_clock :: "instant \<Rightarrow> clock" where
  "documented_clock t =
     \<lparr>now = t, timer_answer = (\<lambda>d. Ok (if d \<le> t then Ready () else NotReady)), last_instant = 2 ^ 63 * 10 ^ 9 - 1\<rparr>"

lemma documented_clock_documented [simp]: "timer_documented (documented_clock t)"
  by (simp add: timer_documented_def documented_clock_def)

lemma now_documented_clock [simp]: "now (documented_clock t) = t" "last_instant (documented_clock t) = 2 ^ 63 * 10 ^ 9 - 1"
  by (simp_all add: documented_clock_def)

lemma timer_documentedD:
  "timer_documented clk \<Longrightarrow> timer_answer clk d = Ok (if d \<le> now clk then Ready () else NotReady)"
  by (simp add: timer_documented_def)

section \<open>The driver of a state machine future\<close>

text \<open>
  \<^verbatim>\<open>derive(StateMachineFuture)\<close> generates a \<^verbatim>\<open>poll\<close> that polls the current state and, on a
  transition, goes on with the new state until a state is not ready, the machine finishes or
  fails. A handler's outcome is one of four; the driver needs fuel, and the locale below
  says how much is enough.
\<close>

datatype ('c, 'r, 'e) after =
    Stay 'c
  | Goto 'c
  | Finish 'r 'c
  | Fail 'e 'c

fun drive :: "('c \<Rightarrow> ('c, 'r, 'e) after) \<Rightarrow> nat \<Rightarrow> 'c \<Rightarrow> (('r, 'e) poll \<times> 'c) option" where
  "drive step 0 c = None"
| "drive step (Suc n) c = (case step c of
     Stay c' \<Rightarrow> Some (Ok NotReady, c')
   | Goto c' \<Rightarrow> drive step n c'
   | Finish r c' \<Rightarrow> Some (Ok (Ready r), c')
   | Fail e c' \<Rightarrow> Some (Err e, c'))"

definition run_machine ::
  "('c \<Rightarrow> ('c, 'r, 'e) after) \<Rightarrow> ('c \<Rightarrow> nat) \<Rightarrow> 'c \<Rightarrow> ('r, 'e) poll \<times> 'c" where
  "run_machine step rank c = (case drive step (Suc (rank c)) c of
     Some r \<Rightarrow> r
   | None \<Rightarrow> (Ok NotReady, c))"

lemma drive_more_fuel: "drive step n c = Some r \<Longrightarrow> n \<le> m \<Longrightarrow> drive step m c = Some r"
proof (induction n arbitrary: m c)
  case 0
  then show ?case by simp
next
  case (Suc n)
  from Suc.prems obtain k where m: "m = Suc k" and "n \<le> k"
    by (cases m) simp_all
  with Suc show ?case by (auto split: after.splits)
qed

text \<open>
  A machine whose transitions lower a rank as long as a condition holds, which they keep: enough
  fuel is the rank.
\<close>

locale guarded_machine =
  fixes step :: "'c \<Rightarrow> ('c, 'r, 'e) after"
    and rank :: "'c \<Rightarrow> nat"
    and ok :: "'c \<Rightarrow> bool"
  assumes goto_ok: "ok c \<Longrightarrow> step c = Goto c' \<Longrightarrow> ok c' \<and> rank c' < rank c"
begin

lemma guarded_fuel: "ok c \<Longrightarrow> rank c < n \<Longrightarrow> \<exists>r. drive step n c = Some r"
proof (induction n arbitrary: c)
  case 0
  then show ?case by simp
next
  case (Suc n)
  show ?case
  proof (cases "step c")
    case (Goto c')
    with goto_ok [OF Suc.prems(1) Goto] Suc.prems have "ok c'" "rank c' < n" by auto
    with Suc.IH Goto show ?thesis by simp
  qed simp_all
qed

end

text \<open>A machine whose transitions lower the rank without any condition.\<close>

locale ranked_machine =
  fixes step :: "'c \<Rightarrow> ('c, 'r, 'e) after"
    and rank :: "'c \<Rightarrow> nat"
  assumes goto_rank: "step c = Goto c' \<Longrightarrow> rank c' < rank c"

sublocale ranked_machine \<subseteq> gm: guarded_machine step rank "\<lambda>_. True"
  by unfold_locales (simp add: goto_rank)

context ranked_machine
begin

lemma enough_fuel: "rank c < n \<Longrightarrow> \<exists>r. drive step n c = Some r"
  by (rule gm.guarded_fuel [OF TrueI])

lemma run_drive: "rank c < n \<Longrightarrow> drive step n c = Some (run_machine step rank c)"
proof -
  assume n: "rank c < n"
  obtain r where r: "drive step (Suc (rank c)) c = Some r"
    using enough_fuel [of c "Suc (rank c)"] by auto
  then have "drive step n c = Some r"
    using n by (intro drive_more_fuel [OF r]) simp
  with r show ?thesis by (simp add: run_machine_def)
qed

lemma run_unfold:
  "run_machine step rank c = (case step c of
     Stay c' \<Rightarrow> (Ok NotReady, c')
   | Goto c' \<Rightarrow> run_machine step rank c'
   | Finish r c' \<Rightarrow> (Ok (Ready r), c')
   | Fail e c' \<Rightarrow> (Err e, c'))"
proof (cases "step c")
  case (Goto c')
  then have "rank c' < rank c" by (rule goto_rank)
  from run_drive [OF this] Goto have "drive step (Suc (rank c)) c = Some (run_machine step rank c')"
    by simp
  with Goto show ?thesis by (simp add: run_machine_def)
qed (simp_all add: run_machine_def)

lemma run_induct [case_names stop goto]:
  assumes stop: "\<And>c. (\<nexists>c'. step c = Goto c') \<Longrightarrow> P c"
    and goto: "\<And>c c'. step c = Goto c' \<Longrightarrow> P c' \<Longrightarrow> P c"
  shows "P c"
proof (induction c rule: measure_induct_rule [of rank])
  case (less c)
  show ?case
  proof (cases "\<exists>c'. step c = Goto c'")
    case True
    then obtain c' where c': "step c = Goto c'" by blast
    with less goto_rank show ?thesis by (blast intro: goto)
  next
    case False
    then show ?thesis by (rule stop)
  qed
qed

text \<open>
  A property of the configuration that every handler keeps holds of the configuration a poll
  leaves, whatever it answers.
\<close>

lemma run_invariant:
  assumes keep: "\<And>c. I c \<Longrightarrow> (case step c of
      Stay c' \<Rightarrow> I c' | Goto c' \<Rightarrow> I c' | Finish r c' \<Rightarrow> I c' | Fail e c' \<Rightarrow> I c')"
    and "I c"
  shows "I (snd (run_machine step rank c))"
  using \<open>I c\<close>
proof (induction c rule: run_induct)
  case (stop c)
  then show ?case using keep [of c]
    by (cases "step c") (auto simp: run_unfold [of c])
next
  case (goto c c')
  then show ?case using keep [of c] by (simp add: run_unfold [of c])
qed

end

section \<open>Lists\<close>

lemma take_min_length: "take (min (length xs) n) xs = take n xs"
  by (simp add: min_def)

lemma drop_min_length: "drop (min (length xs) n) xs = drop n xs"
  by (simp add: min_def)

lemma concat_map_filter: "concat (map f (filter P xs)) = concat (map (\<lambda>x. if P x then f x else []) xs)"
  by (induction xs) simp_all

text \<open>Rust's \<^verbatim>\<open>Vec::pop\<close>: the last element and the rest, or nothing.\<close>

definition vec_pop :: "'a list \<Rightarrow> 'a option \<times> 'a list" where
  "vec_pop xs = (case rev xs of [] \<Rightarrow> (None, []) | y # ys \<Rightarrow> (Some y, rev ys))"

lemma vec_pop_Nil [simp]: "vec_pop [] = (None, [])"
  by (simp add: vec_pop_def)

lemma vec_pop_snoc [simp]: "vec_pop (xs @ [x]) = (Some x, xs)"
  by (simp add: vec_pop_def)

lemma vec_pop_eq: "vec_pop xs = (if xs = [] then (None, []) else (Some (last xs), butlast xs))"
  by (cases xs rule: rev_cases) simp_all

end
