(* ===== verification/Protocol.thy ===== *)
theory Protocol
  imports Prelude
begin

text \<open>
  Socket addresses of the standard library and the messages of \<^verbatim>\<open>protocol.rs\<close>: the first
  message of a stream, the registry protocol and the messages of the hole punching exchange.
\<close>

section \<open>Addresses\<close>

datatype ip_addr = IpV4 u32 | IpV6 u128

text \<open>An IPv6 socket address also carries the flow information and the scope identifier.\<close>

datatype socket_addr =
    SocketAddrV4 u32 u16
  | SocketAddrV6 u128 u16 u32 u32

fun sock_ip :: "socket_addr \<Rightarrow> ip_addr" where
  "sock_ip (SocketAddrV4 a p) = IpV4 a"
| "sock_ip (SocketAddrV6 a p f s) = IpV6 a"

fun sock_port :: "socket_addr \<Rightarrow> u16" where
  "sock_port (SocketAddrV4 a p) = p"
| "sock_port (SocketAddrV6 a p f s) = p"

fun socket_addr_new :: "ip_addr \<Rightarrow> u16 \<Rightarrow> socket_addr" where
  "socket_addr_new (IpV4 a) p = SocketAddrV4 a p"
| "socket_addr_new (IpV6 a) p = SocketAddrV6 a p 0 0"

fun sock_set_port :: "socket_addr \<Rightarrow> u16 \<Rightarrow> socket_addr" where
  "sock_set_port (SocketAddrV4 a _) p = SocketAddrV4 a p"
| "sock_set_port (SocketAddrV6 a _ f s) p = SocketAddrV6 a p f s"

text \<open>\<^verbatim>\<open>127.0.0.0/8\<close> and \<^verbatim>\<open>::1\<close>.\<close>

fun is_loopback :: "ip_addr \<Rightarrow> bool" where
  "is_loopback (IpV4 a) = (drop_bit 24 a = 127)"
| "is_loopback (IpV6 a) = (a = 1)"

lemma socket_addr_new_ip [simp]: "sock_ip (socket_addr_new ip p) = ip"
  by (cases ip) simp_all

lemma socket_addr_new_port [simp]: "sock_port (socket_addr_new ip p) = p"
  by (cases ip) simp_all

lemma sock_set_port_port [simp]: "sock_port (sock_set_port a p) = p"
  by (cases a) simp_all

lemma sock_set_port_ip [simp]: "sock_ip (sock_set_port a p) = sock_ip a"
  by (cases a) simp_all

section \<open>Messages\<close>

datatype stream_hello =
    User peer_id
  | UserProxy peer_id
  | RegistryHello
  | BuildConnectionToPeerHello peer_id
  | ProxyBuildConnectionToPeer peer_id

datatype registry_protocol =
    Find peer_id
  | NotFound peer_id
  | Found peer_id
  | Ping
  | Pong

datatype build_protocol =
    InternetAddressInformation socket_addr
  | ExchangeAddressInformation "socket_addr list"
  | ProxyConnection

text \<open>
  What is written to a stream, as the framing layer sees it: user data, or one serialised
  message of one of the three protocols. The bytes of a frame are the business of the codec
  and of the JSON serialiser, both third-party.
\<close>

datatype frame =
    RawFrame bytes
  | HelloFrame stream_hello
  | RegistryFrame registry_protocol
  | BuildFrame build_protocol

end
