(* ===== verification/Errors.thy ===== *)
theory Errors
  imports Protocol
begin

text \<open>
  \<^verbatim>\<open>error.rs\<close> (the crate's error type, its conversions and its coarse equality) and
  \<^verbatim>\<open>timeout.rs\<close> (a timer that fails when it elapses).
\<close>

section \<open>The error type\<close>

text \<open>The payload of a third-party error is kept as its text.\<close>

datatype io_error = IoWouldBlock | IoOther string

datatype error =
    PicoquicError string
  | IoError io_error
  | JsonError string
  | ChannelCanceled
  | CustomError string
  | OpensslError string
  | HexError string
  | PeerNotFound peer_id
  | TimeoutError string
  | MdnsError string

text \<open>\<^verbatim>\<open>impl From<...> for Error\<close>, one per source type.\<close>

definition error_from_io :: "io_error \<Rightarrow> error" where
  "error_from_io e = IoError e"

definition error_from_picoquic :: "string \<Rightarrow> error" where
  "error_from_picoquic e = PicoquicError e"

definition error_from_json :: "string \<Rightarrow> error" where
  "error_from_json e = JsonError e"

definition error_from_canceled :: "unit \<Rightarrow> error" where
  "error_from_canceled e = ChannelCanceled"

definition error_from_failure :: "string \<Rightarrow> error" where
  "error_from_failure e = CustomError e"

definition error_from_openssl :: "string \<Rightarrow> error" where
  "error_from_openssl e = OpensslError e"

definition error_from_hex :: "string \<Rightarrow> error" where
  "error_from_hex e = HexError e"

definition error_from_str :: "string \<Rightarrow> error" where
  "error_from_str e = CustomError e"

definition error_from_timer :: "string \<Rightarrow> error" where
  "error_from_timer e = TimeoutError e"

definition error_from_mdns :: "string \<Rightarrow> error" where
  "error_from_mdns e = MdnsError e"

text \<open>
  \<^verbatim>\<open>impl From<Error> for io::Error\<close>; \<open>dbg\<close> is the derived \<^verbatim>\<open>Debug\<close> rendering.
\<close>

definition io_error_from_error :: "(error \<Rightarrow> string) \<Rightarrow> error \<Rightarrow> io_error" where
  "io_error_from_error dbg e = IoOther (dbg e)"

text \<open>\<^verbatim>\<open>bail!\<close>: return an error made from a text.\<close>

definition bail :: "string \<Rightarrow> error + 'a" where
  "bail msg = Err (error_from_failure msg)"

lemma bail_is_err [simp]: "\<not> is_ok (bail msg)"
  by (simp add: bail_def)

text \<open>\<^verbatim>\<open>mem::discriminant\<close>, and the \<^verbatim>\<open>PartialEq\<close> built on it.\<close>

fun discriminant :: "error \<Rightarrow> nat" where
  "discriminant (PicoquicError _) = 0"
| "discriminant (IoError _) = 1"
| "discriminant (JsonError _) = 2"
| "discriminant ChannelCanceled = 3"
| "discriminant (CustomError _) = 4"
| "discriminant (OpensslError _) = 5"
| "discriminant (HexError _) = 6"
| "discriminant (PeerNotFound _) = 7"
| "discriminant (TimeoutError _) = 8"
| "discriminant (MdnsError _) = 9"

definition error_eq :: "error \<Rightarrow> error \<Rightarrow> bool" where
  "error_eq a b = (discriminant a = discriminant b)"

lemma error_eq_equivp: "equivp error_eq"
  by (rule equivpI) (auto simp: error_eq_def reflp_def symp_def transp_def)

lemma error_eq_PeerNotFound: "error_eq e (PeerNotFound p) \<longleftrightarrow> (\<exists>q. e = PeerNotFound q)"
  by (cases e) (simp_all add: error_eq_def)

text \<open>How a task can end badly: an error value, or a panic with its message.\<close>

datatype fault = Raised error | Panicked string

section \<open>Timeout\<close>

record timeout =
  to_delay :: instant
  to_duration :: duration

definition timeout_new :: "clock \<Rightarrow> duration \<Rightarrow> timeout" where
  "timeout_new clk dur = \<lparr>to_delay = now clk + dur, to_duration = dur\<rparr>"

definition timeout_reset :: "clock \<Rightarrow> timeout \<Rightarrow> timeout" where
  "timeout_reset clk t = t\<lparr>to_delay := now clk + to_duration t\<rparr>"

definition timeout_new_reset :: "clock \<Rightarrow> timeout \<Rightarrow> timeout" where
  "timeout_new_reset clk t = timeout_reset clk t"

text \<open>
  \<^verbatim>\<open>try_ready!(self.0.poll())\<close> passes a timer error and \<^verbatim>\<open>NotReady\<close> on; an elapsed timer is
  an error.
\<close>

definition timeout_poll :: "clock \<Rightarrow> timeout \<Rightarrow> (unit, error) poll" where
  "timeout_poll clk t = (case timer_answer clk (to_delay t) of
     Err e \<Rightarrow> Err (error_from_timer e)
   | Ok NotReady \<Rightarrow> Ok NotReady
   | Ok (Ready _) \<Rightarrow> bail ''Timeout'')"

lemma timeout_never_ready: "timeout_poll clk t \<noteq> Ok (Ready ())"
  by (auto simp: timeout_poll_def bail_def split: sum.splits async.splits)

lemma timeout_poll_cases:
  obtains (running) "timeout_poll clk t = Ok NotReady" | (elapsed) e where "timeout_poll clk t = Err e"
proof (cases "timeout_poll clk t")
  case (Inr a)
  with timeout_never_ready [of clk t] have "a = NotReady" by (cases a) simp_all
  with Inr running show ?thesis by simp
qed (rule elapsed)

lemma timeout_poll_documented:
  assumes "timer_documented clk"
  shows "timeout_poll clk t = (if to_delay t \<le> now clk then bail ''Timeout'' else Ok NotReady)"
  by (simp add: timeout_poll_def timer_documentedD [OF assms])

lemma timeout_new_running:
  assumes "timer_documented clk" and "now clk < now clk0 + dur"
  shows "timeout_poll clk (timeout_new clk0 dur) = Ok NotReady"
  using assms by (simp add: timeout_poll_documented timeout_new_def)

lemma timeout_reset_running:
  assumes "timer_documented clk" and "now clk < now clk0 + to_duration t"
  shows "timeout_poll clk (timeout_reset clk0 t) = Ok NotReady"
  using assms by (simp add: timeout_poll_documented timeout_reset_def)

end
