(* ===== verification/Byte_Source.thy ===== *)
theory Byte_Source
  imports Prelude
begin

text \<open>
  The reading side of a stream as an interface: the bytes still to be delivered, the blocking
  style \<^verbatim>\<open>read\<close> into a caller's buffer, the \<^verbatim>\<open>poll\<close> that hands out whole chunks, and the
  reinsertion of bytes a protocol layer had read too far. The clients' lemmas hold for every
  mixture of the three.
\<close>

text \<open>The bytes of the data chunks on a tape.\<close>

definition chunk_bytes :: "(bytes option, 'e) poll \<Rightarrow> bytes" where
  "chunk_bytes p = (case p of Ok (Ready (Some b)) \<Rightarrow> b | _ \<Rightarrow> [])"

definition tape_bytes :: "(bytes option, 'e) tape \<Rightarrow> bytes" where
  "tape_bytes t = concat (map chunk_bytes t)"

lemma chunk_bytes_simps [simp]:
  "chunk_bytes (Ok (Ready (Some b))) = b" "chunk_bytes (Ok (Ready None)) = []"
  "chunk_bytes (Ok NotReady) = []" "chunk_bytes (Err e) = []"
  by (simp_all add: chunk_bytes_def)

lemma chunk_bytes_map_err [simp]: "chunk_bytes (map_err f p) = chunk_bytes p"
  by (cases p) (auto simp: chunk_bytes_def split: async.splits)

lemma tape_bytes_simps [simp]:
  "tape_bytes [] = []" "tape_bytes (p # t) = chunk_bytes p @ tape_bytes t"
  by (simp_all add: tape_bytes_def)

lemma tape_bytes_poll: "poll_tape t = (p, t') \<Longrightarrow> tape_bytes t = chunk_bytes p @ tape_bytes t'"
  by (cases t) auto

definition read_count :: "'e + nat \<Rightarrow> nat" where
  "read_count r = (case r of Ok n \<Rightarrow> n | Err _ \<Rightarrow> 0)"

lemma read_count_simps [simp]: "read_count (Ok n) = n" "read_count (Err e) = 0"
  by (simp_all add: read_count_def)

text \<open>A client: any sequence of reads (with any buffers) and polls, and the bytes it was given.\<close>

datatype source_op = ReadInto bytes | PollChunk

fun consume ::
  "(bytes \<Rightarrow> 's \<Rightarrow> ('e + nat) \<times> bytes \<times> 's) \<Rightarrow> ('s \<Rightarrow> (bytes option, 'f) poll \<times> 's) \<Rightarrow>
     source_op list \<Rightarrow> 's \<Rightarrow> bytes \<times> 's" where
  "consume rd pl [] s = ([], s)"
| "consume rd pl (ReadInto buf # ops) s = (case rd buf s of (r, buf', s') \<Rightarrow>
     case consume rd pl ops s' of (out, s'') \<Rightarrow> (take (read_count r) buf' @ out, s''))"
| "consume rd pl (PollChunk # ops) s = (case pl s of (p, s') \<Rightarrow>
     case consume rd pl ops s' of (out, s'') \<Rightarrow> (chunk_bytes p @ out, s''))"

locale byte_source =
  fixes pending :: "'s \<Rightarrow> bytes"
    and live :: "'s \<Rightarrow> bool"
    and read :: "bytes \<Rightarrow> 's \<Rightarrow> ('e + nat) \<times> bytes \<times> 's"
    and poll :: "'s \<Rightarrow> (bytes option, 'f) poll \<times> 's"
    and reinsert :: "bytes \<Rightarrow> 's \<Rightarrow> 's"
  assumes read_conserves:
      "read buf s = (r, buf', s') \<Longrightarrow> pending s = take (read_count r) buf' @ pending s'"
    and read_frame:
      "read buf s = (r, buf', s') \<Longrightarrow>
         read_count r \<le> length buf \<and> length buf' = length buf \<and>
         drop (read_count r) buf' = drop (read_count r) buf"
    and poll_conserves: "poll s = (p, s') \<Longrightarrow> pending s = chunk_bytes p @ pending s'"
    and reinsert_pending: "pending (reinsert b s) = b @ pending s"
    and read_progress:
      "live s \<Longrightarrow> pending s \<noteq> [] \<Longrightarrow> buf \<noteq> [] \<Longrightarrow> read buf s = (r, buf', s') \<Longrightarrow>
         live s' \<and> 0 < read_count r"
begin

lemma consume_conserves: "consume read poll ops s = (out, s') \<Longrightarrow> pending s = out @ pending s'"
proof (induction ops arbitrary: s out)
  case Nil
  then show ?case by simp
next
  case (Cons op ops)
  show ?case
  proof (cases op)
    case (ReadInto buf)
    obtain r buf' t where rd: "read buf s = (r, buf', t)" by (cases "read buf s") auto
    with Cons ReadInto show ?thesis
      by (auto simp: read_conserves [OF rd] split: prod.splits)
  next
    case PollChunk
    obtain p t where pl: "poll s = (p, t)" by (cases "poll s") auto
    with Cons PollChunk show ?thesis
      by (auto simp: poll_conserves [OF pl] split: prod.splits)
  qed
qed

text \<open>What was read and put back is still there.\<close>

lemma read_reinsert:
  "read buf s = (r, buf', s') \<Longrightarrow> pending (reinsert (take (read_count r) buf') s') = pending s"
  by (simp add: reinsert_pending read_conserves)

text \<open>A reader with a non-empty buffer gets everything in at most as many reads as there are bytes.\<close>

lemma reads_drain:
  assumes "buf \<noteq> []"
  shows "live s \<Longrightarrow> length (pending s) \<le> n \<Longrightarrow>
    fst (consume read poll (replicate n (ReadInto buf)) s) = pending s"
proof (induction n arbitrary: s)
  case 0
  then show ?case by simp
next
  case (Suc n)
  obtain r buf' t where rd: "read buf s = (r, buf', t)" by (cases "read buf s") auto
  note cons = read_conserves [OF rd] and frame = read_frame [OF rd]
  obtain out u where rest: "consume read poll (replicate n (ReadInto buf)) t = (out, u)"
    by (cases "consume read poll (replicate n (ReadInto buf)) t") auto
  show ?case
  proof (cases "pending s = []")
    case True
    with consume_conserves [of "replicate (Suc n) (ReadInto buf)" s] show ?thesis
      by (cases "consume read poll (replicate (Suc n) (ReadInto buf)) s") auto
  next
    case False
    from read_progress [OF Suc.prems(1) False assms rd] have "live t" "0 < read_count r" by auto
    moreover have "length (pending t) \<le> n"
      using \<open>0 < read_count r\<close> frame Suc.prems(2) by (simp add: cons)
    ultimately have "out = pending t" using Suc.IH rest by fastforce
    with rd rest cons show ?thesis by simp
  qed
qed

end

end
