(* ===== verification/Boxed.thy ===== *)
theory Boxed
  imports Errors Byte_Source
begin

text \<open>
  The boxes of \<^verbatim>\<open>strategies/mod.rs\<close>. \<^verbatim>\<open>Box<dyn Trait>\<close> is a value together with the table of the
  methods its type has for the trait; a call on the box is the method of the table on the value.
  The types are generic in the boxed value, as the code is: nothing here knows about QUIC. The
  stream adds a buffer for bytes that were read too far, and the theory shows what it delivers,
  whatever value it boxes.
\<close>

datatype 'i async_sink = SinkReady | SinkNotReady 'i

type_synonym connection_id = u64

section \<open>Streams\<close>

text \<open>
  \<^verbatim>\<open>StreamTrait\<close>: the methods of \<^verbatim>\<open>Stream\<close>, \<^verbatim>\<open>Sink\<close>, the addresses, \<^verbatim>\<open>NewStream\<close>, \<^verbatim>\<open>GetConnectionId\<close> and
  \<^verbatim>\<open>SetSendChannelSize\<close>. \<open>'f\<close> is the type of the futures of new streams, \<open>'h\<close> that of the handles.
\<close>

record ('s, 'f, 'h) stream_trait =
  vt_poll :: "'s \<Rightarrow> (bytes option, error) poll \<times> 's"
  vt_start_send :: "frame \<Rightarrow> 's \<Rightarrow> (error + frame async_sink) \<times> 's"
  vt_poll_complete :: "'s \<Rightarrow> (unit, error) poll \<times> 's"
  vt_close :: "'s \<Rightarrow> (unit, error) poll \<times> 's"
  vt_local_addr :: "'s \<Rightarrow> socket_addr"
  vt_peer_addr :: "'s \<Rightarrow> socket_addr"
  vt_new_stream :: "'s \<Rightarrow> 'f \<times> 's"
  vt_get_new_stream_handle :: "'s \<Rightarrow> 'h"
  vt_connection_id :: "'s \<Rightarrow> connection_id"
  vt_set_send_channel_size :: "nat \<Rightarrow> 's \<Rightarrow> 's"

record ('s, 'f, 'h) boxed_stream =
  bs_vtable :: "('s, 'f, 'h) stream_trait"
  bs_inner :: 's
  bs_read_overflow :: "bytes option"

definition boxed_stream_new :: "('s, 'f, 'h) stream_trait \<Rightarrow> 's \<Rightarrow> ('s, 'f, 'h) boxed_stream" where
  "boxed_stream_new V inner = \<lparr>bs_vtable = V, bs_inner = inner, bs_read_overflow = None\<rparr>"

definition boxed_reinsert_data :: "bytes \<Rightarrow> ('s, 'f, 'h) boxed_stream \<Rightarrow> ('s, 'f, 'h) boxed_stream" where
  "boxed_reinsert_data data s =
     (if data = [] then s
      else case bs_read_overflow s of
        Some overflow \<Rightarrow> s\<lparr>bs_read_overflow := Some (data @ overflow)\<rparr>
      | None \<Rightarrow> s\<lparr>bs_read_overflow := Some data\<rparr>)"

text \<open>\<^verbatim>\<open>DerefMut\<close>: a call on the boxed value through the stream; \<^verbatim>\<open>Deref\<close>: a call that only reads.\<close>

definition boxed_deref_mut ::
  "(('s, 'f, 'h) stream_trait \<Rightarrow> 's \<Rightarrow> 'r \<times> 's) \<Rightarrow> ('s, 'f, 'h) boxed_stream \<Rightarrow> 'r \<times> ('s, 'f, 'h) boxed_stream" where
  "boxed_deref_mut f s = (case f (bs_vtable s) (bs_inner s) of (r, i) \<Rightarrow> (r, s\<lparr>bs_inner := i\<rparr>))"

definition boxed_deref :: "(('s, 'f, 'h) stream_trait \<Rightarrow> 's \<Rightarrow> 'r) \<Rightarrow> ('s, 'f, 'h) boxed_stream \<Rightarrow> 'r" where
  "boxed_deref f s = f (bs_vtable s) (bs_inner s)"

definition boxed_poll :: "('s, 'f, 'h) boxed_stream \<Rightarrow> (bytes option, error) poll \<times> ('s, 'f, 'h) boxed_stream" where
  "boxed_poll s = (case bs_read_overflow s of
     Some buf \<Rightarrow> (Ok (Ready (Some buf)), s\<lparr>bs_read_overflow := None\<rparr>)
   | None \<Rightarrow> boxed_deref_mut vt_poll s)"

definition boxed_start_send ::
  "frame \<Rightarrow> ('s, 'f, 'h) boxed_stream \<Rightarrow> (error + frame async_sink) \<times> ('s, 'f, 'h) boxed_stream" where
  "boxed_start_send item = boxed_deref_mut (\<lambda>V. vt_start_send V item)"

definition boxed_poll_complete :: "('s, 'f, 'h) boxed_stream \<Rightarrow> (unit, error) poll \<times> ('s, 'f, 'h) boxed_stream" where
  "boxed_poll_complete = boxed_deref_mut vt_poll_complete"

text \<open>
  \<^verbatim>\<open>copy_data\<close> copies as much as fits into the caller's buffer: the number of bytes copied, the
  rest if there is one, and the buffer afterwards.
\<close>

definition copy_data :: "bytes \<Rightarrow> bytes \<Rightarrow> nat \<times> bytes option \<times> bytes" where
  "copy_data src dst = (let len = min (length src) (length dst);
       dst' = take len src @ drop len dst in
     if length src > len then (len, Some (drop len src), dst') else (len, None, dst'))"

text \<open>
  \<^verbatim>\<open>Read::read\<close>: the answer, the caller's buffer afterwards, the stream afterwards. \<open>dbg\<close> is the
  \<^verbatim>\<open>Debug\<close> rendering used by the conversion of errors.
\<close>

definition boxed_read ::
  "(error \<Rightarrow> string) \<Rightarrow> bytes \<Rightarrow> ('s, 'f, 'h) boxed_stream \<Rightarrow> (io_error + nat) \<times> bytes \<times> ('s, 'f, 'h) boxed_stream" where
  "boxed_read dbg buf s = (case bs_read_overflow s of
     Some data \<Rightarrow> (case copy_data data buf of (len, overflow, buf') \<Rightarrow>
       (Ok len, buf', s\<lparr>bs_read_overflow := overflow\<rparr>))
   | None \<Rightarrow> (case boxed_deref_mut vt_poll s of (res, s') \<Rightarrow>
       (case res of
          Err e \<Rightarrow> (Err (io_error_from_error dbg e), buf, s')
        | Ok NotReady \<Rightarrow> (Err IoWouldBlock, buf, s')
        | Ok (Ready (Some data)) \<Rightarrow> (case copy_data data buf of (len, overflow, buf') \<Rightarrow>
            (Ok len, buf', s'\<lparr>bs_read_overflow := overflow\<rparr>))
        | Ok (Ready None) \<Rightarrow> (Ok 0, buf, s'))))"

definition boxed_write ::
  "(error \<Rightarrow> string) \<Rightarrow> bytes \<Rightarrow> ('s, 'f, 'h) boxed_stream \<Rightarrow> (io_error + nat) \<times> ('s, 'f, 'h) boxed_stream" where
  "boxed_write dbg buf s = (case boxed_deref_mut (\<lambda>V. vt_start_send V (RawFrame buf)) s of (res, s') \<Rightarrow>
     (case res of
        Err e \<Rightarrow> (Err (io_error_from_error dbg e), s')
      | Ok SinkReady \<Rightarrow> (Ok (length buf), s')
      | Ok (SinkNotReady _) \<Rightarrow> (Err IoWouldBlock, s')))"

definition boxed_flush :: "(error \<Rightarrow> string) \<Rightarrow> ('s, 'f, 'h) boxed_stream \<Rightarrow> (io_error + unit) \<times> ('s, 'f, 'h) boxed_stream" where
  "boxed_flush dbg s = (case boxed_deref_mut vt_poll_complete s of (res, s') \<Rightarrow>
     (case res of Err e \<Rightarrow> Err (io_error_from_error dbg e) | Ok _ \<Rightarrow> Ok (), s'))"

definition boxed_shutdown ::
  "(error \<Rightarrow> string) \<Rightarrow> ('s, 'f, 'h) boxed_stream \<Rightarrow> (unit, io_error) poll \<times> ('s, 'f, 'h) boxed_stream" where
  "boxed_shutdown dbg s = (case boxed_deref_mut vt_close s of (res, s') \<Rightarrow>
     (case res of Err e \<Rightarrow> Err (io_error_from_error dbg e) | Ok _ \<Rightarrow> Ok (Ready ()), s'))"

section \<open>Strategies, connections, futures and handles\<close>

record ('s, 'con, 'f, 'h) strategy_trait =
  vs_poll :: "'s \<Rightarrow> ('con option, error) poll \<times> 's"
  vs_new_connection :: "socket_addr \<Rightarrow> 's \<Rightarrow> 'f \<times> 's"
  vs_get_new_connection_handle :: "'s \<Rightarrow> 'h"
  vs_local_addr :: "'s \<Rightarrow> socket_addr"

record ('s, 'con, 'f, 'h) boxed_strategy =
  bst_vtable :: "('s, 'con, 'f, 'h) strategy_trait"
  bst_inner :: 's

definition boxed_strategy_new :: "('s, 'con, 'f, 'h) strategy_trait \<Rightarrow> 's \<Rightarrow> ('s, 'con, 'f, 'h) boxed_strategy" where
  "boxed_strategy_new V inner = \<lparr>bst_vtable = V, bst_inner = inner\<rparr>"

definition boxed_strategy_poll ::
  "('s, 'con, 'f, 'h) boxed_strategy \<Rightarrow> ('con option, error) poll \<times> ('s, 'con, 'f, 'h) boxed_strategy" where
  "boxed_strategy_poll b = (case vs_poll (bst_vtable b) (bst_inner b) of (p, i) \<Rightarrow> (p, b\<lparr>bst_inner := i\<rparr>))"

definition boxed_strategy_new_connection ::
  "socket_addr \<Rightarrow> ('s, 'con, 'f, 'h) boxed_strategy \<Rightarrow> 'f \<times> ('s, 'con, 'f, 'h) boxed_strategy" where
  "boxed_strategy_new_connection addr b =
     (case vs_new_connection (bst_vtable b) addr (bst_inner b) of (f, i) \<Rightarrow> (f, b\<lparr>bst_inner := i\<rparr>))"

definition boxed_strategy_get_new_connection_handle :: "('s, 'con, 'f, 'h) boxed_strategy \<Rightarrow> 'h" where
  "boxed_strategy_get_new_connection_handle b = vs_get_new_connection_handle (bst_vtable b) (bst_inner b)"

definition boxed_strategy_local_addr :: "('s, 'con, 'f, 'h) boxed_strategy \<Rightarrow> socket_addr" where
  "boxed_strategy_local_addr b = vs_local_addr (bst_vtable b) (bst_inner b)"

record ('s, 'st, 'f, 'h) connection_trait =
  vc_poll :: "'s \<Rightarrow> ('st option, error) poll \<times> 's"
  vc_local_addr :: "'s \<Rightarrow> socket_addr"
  vc_peer_addr :: "'s \<Rightarrow> socket_addr"
  vc_new_stream :: "'s \<Rightarrow> 'f \<times> 's"
  vc_get_new_stream_handle :: "'s \<Rightarrow> 'h"
  vc_connection_id :: "'s \<Rightarrow> connection_id"

record ('s, 'st, 'f, 'h) boxed_connection =
  bc_vtable :: "('s, 'st, 'f, 'h) connection_trait"
  bc_inner :: 's

definition boxed_connection_new ::
  "('s, 'st, 'f, 'h) connection_trait \<Rightarrow> 's \<Rightarrow> ('s, 'st, 'f, 'h) boxed_connection" where
  "boxed_connection_new V inner = \<lparr>bc_vtable = V, bc_inner = inner\<rparr>"

definition boxed_connection_poll ::
  "('s, 'st, 'f, 'h) boxed_connection \<Rightarrow> ('st option, error) poll \<times> ('s, 'st, 'f, 'h) boxed_connection" where
  "boxed_connection_poll b = (case vc_poll (bc_vtable b) (bc_inner b) of (p, i) \<Rightarrow> (p, b\<lparr>bc_inner := i\<rparr>))"

definition boxed_connection_local_addr :: "('s, 'st, 'f, 'h) boxed_connection \<Rightarrow> socket_addr" where
  "boxed_connection_local_addr b = vc_local_addr (bc_vtable b) (bc_inner b)"

definition boxed_connection_peer_addr :: "('s, 'st, 'f, 'h) boxed_connection \<Rightarrow> socket_addr" where
  "boxed_connection_peer_addr b = vc_peer_addr (bc_vtable b) (bc_inner b)"

definition boxed_connection_new_stream ::
  "('s, 'st, 'f, 'h) boxed_connection \<Rightarrow> 'f \<times> ('s, 'st, 'f, 'h) boxed_connection" where
  "boxed_connection_new_stream b = (case vc_new_stream (bc_vtable b) (bc_inner b) of (f, i) \<Rightarrow> (f, b\<lparr>bc_inner := i\<rparr>))"

definition boxed_connection_get_new_stream_handle :: "('s, 'st, 'f, 'h) boxed_connection \<Rightarrow> 'h" where
  "boxed_connection_get_new_stream_handle b = vc_get_new_stream_handle (bc_vtable b) (bc_inner b)"

definition boxed_connection_id :: "('s, 'st, 'f, 'h) boxed_connection \<Rightarrow> connection_id" where
  "boxed_connection_id b = vc_connection_id (bc_vtable b) (bc_inner b)"

text \<open>\<^verbatim>\<open>NewTypeFuture\<close>: the table has one method, \<^verbatim>\<open>poll\<close>.\<close>

record ('s, 't) new_type_future =
  ntf_poll :: "'s \<Rightarrow> ('t, error) poll \<times> 's"
  ntf_inner :: 's

definition new_type_future_new :: "('s \<Rightarrow> ('t, error) poll \<times> 's) \<Rightarrow> 's \<Rightarrow> ('s, 't) new_type_future" where
  "new_type_future_new poll inner = \<lparr>ntf_poll = poll, ntf_inner = inner\<rparr>"

definition new_type_future_poll :: "('s, 't) new_type_future \<Rightarrow> ('t, error) poll \<times> ('s, 't) new_type_future" where
  "new_type_future_poll f = (case ntf_poll f (ntf_inner f) of (p, i) \<Rightarrow> (p, f\<lparr>ntf_inner := i\<rparr>))"

text \<open>
  \<^verbatim>\<open>NewConnectionHandle\<close> and \<^verbatim>\<open>NewStreamHandle\<close>: the table has \<^verbatim>\<open>objekt\<close>'s \<^verbatim>\<open>clone\<close> and the method that
  opens a connection or a stream; the handle of a handle is its clone.
\<close>

record ('s, 'f) boxed_connection_handle =
  bch_clone :: "'s \<Rightarrow> 's"
  bch_new_connection :: "socket_addr \<Rightarrow> 's \<Rightarrow> 'f \<times> 's"
  bch_inner :: 's

definition boxed_connection_handle_new ::
  "('s \<Rightarrow> 's) \<Rightarrow> (socket_addr \<Rightarrow> 's \<Rightarrow> 'f \<times> 's) \<Rightarrow> 's \<Rightarrow> ('s, 'f) boxed_connection_handle" where
  "boxed_connection_handle_new clone new_connection inner =
     \<lparr>bch_clone = clone, bch_new_connection = new_connection, bch_inner = inner\<rparr>"

definition boxed_connection_handle_clone :: "('s, 'f) boxed_connection_handle \<Rightarrow> ('s, 'f) boxed_connection_handle" where
  "boxed_connection_handle_clone b = b\<lparr>bch_inner := bch_clone b (bch_inner b)\<rparr>"

definition boxed_connection_handle_new_connection ::
  "socket_addr \<Rightarrow> ('s, 'f) boxed_connection_handle \<Rightarrow> 'f \<times> ('s, 'f) boxed_connection_handle" where
  "boxed_connection_handle_new_connection addr b =
     (case bch_new_connection b addr (bch_inner b) of (f, i) \<Rightarrow> (f, b\<lparr>bch_inner := i\<rparr>))"

definition boxed_connection_handle_get :: "('s, 'f) boxed_connection_handle \<Rightarrow> ('s, 'f) boxed_connection_handle" where
  "boxed_connection_handle_get b = boxed_connection_handle_clone b"

record ('s, 'f) boxed_stream_handle =
  bsh_clone :: "'s \<Rightarrow> 's"
  bsh_new_stream :: "'s \<Rightarrow> 'f \<times> 's"
  bsh_inner :: 's

definition boxed_stream_handle_new ::
  "('s \<Rightarrow> 's) \<Rightarrow> ('s \<Rightarrow> 'f \<times> 's) \<Rightarrow> 's \<Rightarrow> ('s, 'f) boxed_stream_handle" where
  "boxed_stream_handle_new clone new_stream inner = \<lparr>bsh_clone = clone, bsh_new_stream = new_stream, bsh_inner = inner\<rparr>"

definition boxed_stream_handle_clone :: "('s, 'f) boxed_stream_handle \<Rightarrow> ('s, 'f) boxed_stream_handle" where
  "boxed_stream_handle_clone b = b\<lparr>bsh_inner := bsh_clone b (bsh_inner b)\<rparr>"

definition boxed_stream_handle_new_stream :: "('s, 'f) boxed_stream_handle \<Rightarrow> 'f \<times> ('s, 'f) boxed_stream_handle" where
  "boxed_stream_handle_new_stream b = (case bsh_new_stream b (bsh_inner b) of (f, i) \<Rightarrow> (f, b\<lparr>bsh_inner := i\<rparr>))"

definition boxed_stream_handle_get :: "('s, 'f) boxed_stream_handle \<Rightarrow> ('s, 'f) boxed_stream_handle" where
  "boxed_stream_handle_get b = boxed_stream_handle_clone b"

text \<open>A boxed future is the tape of its answers.\<close>

lemma new_type_future_tape:
  "new_type_future_poll (new_type_future_new poll_tape t) = apsnd (new_type_future_new poll_tape) (poll_tape t)"
  by (simp add: new_type_future_poll_def new_type_future_new_def split: prod.splits)

section \<open>What a stream promises, whatever it boxes\<close>

definition boxed_pending :: "('s \<Rightarrow> bytes) \<Rightarrow> 's \<times> bytes option \<Rightarrow> bytes" where
  "boxed_pending source p = (case snd p of None \<Rightarrow> [] | Some b \<Rightarrow> b) @ source (fst p)"

definition boxed_live :: "('s \<Rightarrow> bool) \<Rightarrow> 's \<times> bytes option \<Rightarrow> bool" where
  "boxed_live flowing p \<longleftrightarrow> snd p \<noteq> Some [] \<and> flowing (fst p)"

lemma copy_dataD:
  assumes "copy_data src dst = (len, overflow, dst')"
  shows "len = min (length src) (length dst)" "length dst' = length dst" "drop len dst' = drop len dst"
    "src = take len dst' @ (case overflow of None \<Rightarrow> [] | Some b \<Rightarrow> b)" "overflow \<noteq> Some []"
  using assms by (auto simp: copy_data_def Let_def min_def split: if_splits)

text \<open>A stream without its table, and the operations of the streams with one table.\<close>

definition unbox :: "('s, 'f, 'h) boxed_stream \<Rightarrow> 's \<times> bytes option" where
  "unbox s = (bs_inner s, bs_read_overflow s)"

definition box_of :: "('s, 'f, 'h) stream_trait \<Rightarrow> 's \<times> bytes option \<Rightarrow> ('s, 'f, 'h) boxed_stream" where
  "box_of V p = \<lparr>bs_vtable = V, bs_inner = fst p, bs_read_overflow = snd p\<rparr>"

definition table_poll ::
  "('s, 'f, 'h) stream_trait \<Rightarrow> 's \<times> bytes option \<Rightarrow> (bytes option, error) poll \<times> 's \<times> bytes option" where
  "table_poll V p = (case boxed_poll (box_of V p) of (r, s) \<Rightarrow> (r, unbox s))"

definition table_read ::
  "('s, 'f, 'h) stream_trait \<Rightarrow> (error \<Rightarrow> string) \<Rightarrow> bytes \<Rightarrow> 's \<times> bytes option \<Rightarrow>
     (io_error + nat) \<times> bytes \<times> 's \<times> bytes option" where
  "table_read V dbg buf p = (case boxed_read dbg buf (box_of V p) of (r, buf', s) \<Rightarrow> (r, buf', unbox s))"

definition table_reinsert :: "('s, 'f, 'h) stream_trait \<Rightarrow> bytes \<Rightarrow> 's \<times> bytes option \<Rightarrow> 's \<times> bytes option" where
  "table_reinsert V b p = unbox (boxed_reinsert_data b (box_of V p))"

lemmas boxed_table_defs = table_poll_def table_read_def table_reinsert_def box_of_def unbox_def
  boxed_pending_def boxed_live_def boxed_poll_def boxed_read_def boxed_reinsert_data_def boxed_deref_mut_def

lemma box_of_unbox [simp]: "unbox (box_of V p) = p" "bs_vtable (box_of V p) = V"
  "box_of (bs_vtable s) (unbox s) = s"
  by (simp_all add: box_of_def unbox_def)

lemma boxed_keeps_table:
  "boxed_poll s = (p, s') \<Longrightarrow> bs_vtable s' = bs_vtable s"
  "boxed_read dbg buf s = (r, buf', s') \<Longrightarrow> bs_vtable s' = bs_vtable s"
  by (auto simp: boxed_poll_def boxed_read_def boxed_deref_mut_def
      split: option.splits prod.splits sum.splits async.splits)

lemma consume_boxed:
  "consume (boxed_read dbg) boxed_poll ops s = (out, s') \<Longrightarrow>
     consume (table_read (bs_vtable s) dbg) (table_poll (bs_vtable s)) ops (unbox s) = (out, unbox s') \<and>
     bs_vtable s' = bs_vtable s"
proof (induction ops arbitrary: s out)
  case (Cons op ops)
  show ?case
  proof (cases op)
    case (ReadInto buf)
    obtain r buf' t where rd: "boxed_read dbg buf s = (r, buf', t)" by (metis prod_cases3)
    obtain out' where rest: "consume (boxed_read dbg) boxed_poll ops t = (out', s')" "out = take (read_count r) buf' @ out'"
      using Cons.prems ReadInto rd by (auto split: prod.splits)
    from Cons.IH [OF rest(1)] boxed_keeps_table(2) [OF rd] ReadInto rd rest(2) show ?thesis
      by (simp add: table_read_def)
  next
    case PollChunk
    obtain p t where pl: "boxed_poll s = (p, t)" by force
    obtain out' where rest: "consume (boxed_read dbg) boxed_poll ops t = (out', s')" "out = chunk_bytes p @ out'"
      using Cons.prems PollChunk pl by (auto split: prod.splits)
    from Cons.IH [OF rest(1)] boxed_keeps_table(1) [OF pl] PollChunk pl rest(2) show ?thesis
      by (simp add: table_poll_def)
  qed
qed simp

text \<open>
  What a stream relies on: polling the boxed value hands out what the value has to give, and a
  value that is \<open>flowing\<close> and has something gives a part of it.
\<close>

locale stream_source =
  fixes V :: "('s, 'f, 'h) stream_trait"
    and source :: "'s \<Rightarrow> bytes"
    and flowing :: "'s \<Rightarrow> bool"
  assumes source_poll: "vt_poll V i = (p, i') \<Longrightarrow> source i = chunk_bytes p @ source i'"
    and source_flows: "flowing i \<Longrightarrow> source i \<noteq> [] \<Longrightarrow> vt_poll V i = (p, i') \<Longrightarrow> flowing i' \<and> chunk_bytes p \<noteq> []"
begin

lemma table_readE:
  assumes "table_read V dbg buf (i, ov) = (r, buf', q)"
  obtains (overflow) data len ov' where "ov = Some data" "copy_data data buf = (len, ov', buf')" "r = Ok len" "q = (i, ov')"
    | (data) data i' len ov' where "ov = None" "vt_poll V i = (Ok (Ready (Some data)), i')"
      "copy_data data buf = (len, ov', buf')" "r = Ok len" "q = (i', ov')"
    | (none) p i' where "ov = None" "vt_poll V i = (p, i')" "chunk_bytes p = []" "read_count r = 0" "buf' = buf" "q = (i', None)"
  using assms
  by (cases ov) (auto simp: boxed_table_defs split: prod.splits sum.splits async.splits option.splits)

lemma table_read_conserves:
  "table_read V dbg buf p = (r, buf', p') \<Longrightarrow> boxed_pending source p = take (read_count r) buf' @ boxed_pending source p'"
  by (cases p, erule table_readE [of dbg buf "fst p" "snd p", simplified])
    (auto simp: boxed_pending_def dest!: source_poll dest: copy_dataD(4))

lemma table_read_frame:
  "table_read V dbg buf p = (r, buf', p') \<Longrightarrow>
     read_count r \<le> length buf \<and> length buf' = length buf \<and> drop (read_count r) buf' = drop (read_count r) buf"
  by (cases p, erule table_readE [of dbg buf "fst p" "snd p", simplified]) (auto dest: copy_dataD(1-3))

lemma table_poll_conserves:
  "table_poll V p = (r, p') \<Longrightarrow> boxed_pending source p = chunk_bytes r @ boxed_pending source p'"
  by (cases p) (auto simp: boxed_table_defs dest: source_poll split: option.splits prod.splits)

lemma table_reinsert_pending: "boxed_pending source (table_reinsert V b p) = b @ boxed_pending source p"
  by (cases p) (auto simp: boxed_table_defs split: option.splits)

lemma table_read_progress:
  assumes "boxed_live flowing p" "boxed_pending source p \<noteq> []" "buf \<noteq> []" "table_read V dbg buf p = (r, buf', p')"
  shows "boxed_live flowing p' \<and> 0 < read_count r"
proof -
  obtain i ov where p: "p = (i, ov)" by force
  from assms(4) [unfolded p] show ?thesis
  proof (cases rule: table_readE)
    case (overflow data len ov')
    with assms(1,3) p show ?thesis by (auto simp: boxed_live_def dest: copy_dataD(1,5))
  next
    case (data data i' len ov')
    with assms(1-3) p source_flows [of i] show ?thesis
      by (force simp: boxed_live_def boxed_pending_def dest: copy_dataD(1,5))
  next
    case (none q i')
    with assms(1,2) p source_flows [of i q i'] show ?thesis by (simp add: boxed_live_def boxed_pending_def)
  qed
qed

end

sublocale stream_source \<subseteq> table: byte_source "boxed_pending source" "boxed_live flowing" "table_read V dbg"
  "table_poll V" "table_reinsert V" for dbg
  by unfold_locales
    (erule table_read_conserves table_read_frame table_poll_conserves | rule table_reinsert_pending
      | erule (3) table_read_progress)+

context stream_source
begin

lemma boxed_consume:
  assumes "consume (boxed_read dbg) boxed_poll ops s = (out, s')" "bs_vtable s = V"
  shows "boxed_pending source (unbox s) = out @ boxed_pending source (unbox s')"
  using consume_boxed [OF assms(1)] table.consume_conserves assms(2) by blast

lemma boxed_drain:
  assumes "bs_vtable s = V" "boxed_live flowing (unbox s)" "buf \<noteq> []" "length (boxed_pending source (unbox s)) \<le> n"
  shows "fst (consume (boxed_read dbg) boxed_poll (replicate n (ReadInto buf)) s) = boxed_pending source (unbox s)"
proof -
  obtain out s' where c: "consume (boxed_read dbg) boxed_poll (replicate n (ReadInto buf)) s = (out, s')" by force
  from consume_boxed [OF c] table.reads_drain [OF assms(3,2,4), of dbg] assms(1) c show ?thesis by simp
qed

end

section \<open>The stream of the unit tests\<close>

text \<open>
  \<^verbatim>\<open>StreamMock\<close>, the stream of the unit tests: a queue of chunks. It implements nothing but
  \<^verbatim>\<open>poll\<close>, so the other methods are those of any table.
\<close>

definition stream_mock_poll :: "bytes list \<Rightarrow> (bytes option, error) poll \<times> bytes list" where
  "stream_mock_poll data = (case data of [] \<Rightarrow> (Ok (Ready None), []) | b # bs \<Rightarrow> (Ok (Ready (Some b)), bs))"

interpretation mock: stream_source "V\<lparr>vt_poll := stream_mock_poll\<rparr>" concat "list_all (\<lambda>b. b \<noteq> [])" for V
  by unfold_locales (auto simp: stream_mock_poll_def split: list.splits)

section \<open>Properties\<close>

text \<open>
  C27. The overflow buffer loses nothing, whatever is boxed: when polling the boxed value hands out
  what it has to give, a stream around it delivers the same bytes, unchanged, in order and
  without gaps, however reads with buffers of any size and polls are mixed.
\<close>

theorem boxed_stream_delivers:
  assumes "\<forall>i p i'. vt_poll (bs_vtable s) i = (p, i') \<longrightarrow> source i = chunk_bytes p @ source i'"
    and "consume (boxed_read dbg) boxed_poll ops s = (out, s')"
  shows "(case bs_read_overflow s of None \<Rightarrow> [] | Some b \<Rightarrow> b) @ source (bs_inner s) =
    out @ (case bs_read_overflow s' of None \<Rightarrow> [] | Some b \<Rightarrow> b) @ source (bs_inner s')"
proof -
  have "stream_source (bs_vtable s) source (\<lambda>_. False)" using assms(1) by unfold_locales auto
  from stream_source.boxed_consume [OF this assms(2)] show ?thesis by (simp add: boxed_pending_def unbox_def)
qed

text \<open>
  The two unit tests of \<^verbatim>\<open>strategies/mod.rs\<close>, for a chunk and a buffer of any size: after a read of
  a part of the chunk a poll gives the rest, and after the read bytes were reinserted it gives
  the whole chunk.
\<close>

theorem read_and_poll_stream_does_not_loose_data:
  fixes V :: "(bytes list, 'f, 'h) stream_trait"
  assumes "length buf < length data" "boxed_read dbg buf (boxed_stream_new (V\<lparr>vt_poll := stream_mock_poll\<rparr>) [data]) = (r, buf', s)"
  shows "r = Ok (length buf) \<and> buf' = take (length buf) data \<and>
    fst (boxed_poll s) = Ok (Ready (Some (drop (length buf) data))) \<and>
    (buf \<noteq> [] \<longrightarrow> fst (boxed_poll (boxed_reinsert_data buf' s)) = Ok (Ready (Some data)))"
  using assms
  by (auto simp: boxed_read_def boxed_stream_new_def boxed_deref_mut_def stream_mock_poll_def copy_data_def Let_def
      boxed_poll_def boxed_reinsert_data_def)

end
