(* ===== verification/Strategies.thy ===== *)
theory Strategies
  imports Boxed
begin

text \<open>
  \<^verbatim>\<open>strategies/mod.rs\<close> and \<^verbatim>\<open>strategies/quic.rs\<close>: the byte streams, connections and handles the
  rest of the crate works with: the boxes of \<^verbatim>\<open>mod.rs\<close> around their only implementation, thin
  wrappers around picoquic.

  Picoquic is third-party code. A picoquic object is a record of the answers it will give
  (tapes for polls, functions of the call number for sinks) and a log of what was written to
  it; the calls that make new objects are the fields of the environment \<open>picoquic\<close>.
\<close>

section \<open>Picoquic objects\<close>

datatype pq_stream_handle = PqStreamHandle connection_id

record pq_stream =
  pqs_in :: "(bytes option, string) tape"
  pqs_accepts :: "nat \<Rightarrow> string + bool"
  pqs_flushes :: "nat \<Rightarrow> (unit, string) poll"
  pqs_calls :: nat
  pqs_out :: "frame list"
  pqs_local :: socket_addr
  pqs_peer :: socket_addr
  pqs_channel_size :: "nat option"

record pq_connection =
  pqc_id :: connection_id
  pqc_in :: "(pq_stream option, string) tape"
  pqc_local :: socket_addr
  pqc_peer :: socket_addr

record pq_context =
  pqx_in :: "(pq_connection option, string) tape"
  pqx_local :: socket_addr

record picoquic =
  open_bidirectional :: "pq_stream_handle \<Rightarrow> (pq_stream, string) tape"
  dial :: "socket_addr \<Rightarrow> string \<Rightarrow> (pq_connection, string) tape"

definition pqs_poll :: "pq_stream \<Rightarrow> (bytes option, string) poll \<times> pq_stream" where
  "pqs_poll s = (case poll_tape (pqs_in s) of (p, t) \<Rightarrow> (p, s\<lparr>pqs_in := t\<rparr>))"

definition pqs_start_send :: "frame \<Rightarrow> pq_stream \<Rightarrow> (string + frame async_sink) \<times> pq_stream" where
  "pqs_start_send f s = (let s' = s\<lparr>pqs_calls := pqs_calls s + 1\<rparr> in
     case pqs_accepts s (pqs_calls s) of
       Err e \<Rightarrow> (Err e, s')
     | Ok False \<Rightarrow> (Ok (SinkNotReady f), s')
     | Ok True \<Rightarrow> (Ok SinkReady, s'\<lparr>pqs_out := pqs_out s @ [f]\<rparr>))"

definition pqs_poll_complete :: "pq_stream \<Rightarrow> (unit, string) poll \<times> pq_stream" where
  "pqs_poll_complete s = (pqs_flushes s (pqs_calls s), s\<lparr>pqs_calls := pqs_calls s + 1\<rparr>)"

definition pqc_stream_handle :: "pq_connection \<Rightarrow> pq_stream_handle" where
  "pqc_stream_handle c = PqStreamHandle (pqc_id c)"

section \<open>The wrappers\<close>

record stream_wrapper =
  sw_stream :: pq_stream
  sw_new_stream :: pq_stream_handle
  sw_con_id :: connection_id

record connection_wrapper =
  cw_con :: pq_connection

record strategy_wrapper =
  stw_context :: pq_context

text \<open>
  \<^verbatim>\<open>NewConnectionHandleWrapper\<close> holds picoquic's connection handle, which has no state of its
  own here; \<^verbatim>\<open>NewStreamHandleWrapper\<close> holds a stream handle and the connection's identifier.
\<close>

datatype strat_new_connection_handle = NewConnectionHandleWrapper

record strat_new_stream_handle =
  nsw_new_stream :: pq_stream_handle
  nsw_con_id :: connection_id

text \<open>The boxed stream of \<^verbatim>\<open>mod.rs\<close> with its overflow buffer.\<close>

record strat_stream =
  ss_inner :: stream_wrapper
  ss_read_overflow :: "bytes option"

definition ss_new :: "stream_wrapper \<Rightarrow> strat_stream" where
  "ss_new inner = \<lparr>ss_inner = inner, ss_read_overflow = None\<rparr>"

definition stream_wrapper_new ::
  "pq_stream \<Rightarrow> pq_stream_handle \<Rightarrow> connection_id \<Rightarrow> stream_wrapper" where
  "stream_wrapper_new stream new_stream con_id =
     \<lparr>sw_stream = stream, sw_new_stream = new_stream, sw_con_id = con_id\<rparr>"

definition connection_wrapper_new :: "pq_connection \<Rightarrow> connection_wrapper" where
  "connection_wrapper_new con = \<lparr>cw_con = con\<rparr>"

definition map_poll :: "('a \<Rightarrow> 'b) \<Rightarrow> ('e \<Rightarrow> 'f) \<Rightarrow> ('a, 'e) poll \<Rightarrow> ('b, 'f) poll" where
  "map_poll f g p = map_err g (map_ok (map_async f) p)"

lemma map_poll_simps [simp]:
  "map_poll f g (Ok NotReady) = Ok NotReady"
  "map_poll f g (Ok (Ready a)) = Ok (Ready (f a))"
  "map_poll f g (Err e) = Err (g e)"
  by (simp_all add: map_poll_def)

subsection \<open>Strategy\<close>

definition strategy_poll ::
  "strategy_wrapper \<Rightarrow> (connection_wrapper option, error) poll \<times> strategy_wrapper" where
  "strategy_poll s = (case poll_tape (pqx_in (stw_context s)) of (p, t) \<Rightarrow>
     (map_poll (map_option connection_wrapper_new) error_from_picoquic p,
      s\<lparr>stw_context := (stw_context s)\<lparr>pqx_in := t\<rparr>\<rparr>))"

definition strategy_new_connection ::
  "picoquic \<Rightarrow> strategy_wrapper \<Rightarrow> socket_addr \<Rightarrow> (connection_wrapper, error) tape" where
  "strategy_new_connection pq s addr =
     map (map_poll connection_wrapper_new error_from_picoquic) (dial pq addr ''hole_punch'')"

definition strategy_get_new_connection_handle :: "strategy_wrapper \<Rightarrow> strat_new_connection_handle" where
  "strategy_get_new_connection_handle s = NewConnectionHandleWrapper"

definition strategy_local_addr :: "strategy_wrapper \<Rightarrow> socket_addr" where
  "strategy_local_addr s = pqx_local (stw_context s)"

definition handle_new_connection ::
  "picoquic \<Rightarrow> strat_new_connection_handle \<Rightarrow> socket_addr \<Rightarrow> (connection_wrapper, error) tape" where
  "handle_new_connection pq h addr =
     map (map_poll connection_wrapper_new error_from_picoquic) (dial pq addr ''hole_punch'')"

subsection \<open>Connection\<close>

definition con_wrap_stream :: "pq_connection \<Rightarrow> pq_stream \<Rightarrow> strat_stream" where
  "con_wrap_stream con v = ss_new (stream_wrapper_new v (pqc_stream_handle con) (pqc_id con))"

definition con_poll ::
  "connection_wrapper \<Rightarrow> (strat_stream option, error) poll \<times> connection_wrapper" where
  "con_poll c = (case poll_tape (pqc_in (cw_con c)) of (p, t) \<Rightarrow>
     (map_poll (map_option (con_wrap_stream (cw_con c))) error_from_picoquic p,
      c\<lparr>cw_con := (cw_con c)\<lparr>pqc_in := t\<rparr>\<rparr>))"

definition con_new_stream :: "picoquic \<Rightarrow> connection_wrapper \<Rightarrow> (strat_stream, error) tape" where
  "con_new_stream pq c =
     map (map_poll (con_wrap_stream (cw_con c)) error_from_picoquic)
       (open_bidirectional pq (pqc_stream_handle (cw_con c)))"

definition con_get_new_stream_handle :: "connection_wrapper \<Rightarrow> strat_new_stream_handle" where
  "con_get_new_stream_handle c =
     \<lparr>nsw_new_stream = pqc_stream_handle (cw_con c), nsw_con_id = pqc_id (cw_con c)\<rparr>"

definition con_local_addr :: "connection_wrapper \<Rightarrow> socket_addr" where
  "con_local_addr c = pqc_local (cw_con c)"

definition con_peer_addr :: "connection_wrapper \<Rightarrow> socket_addr" where
  "con_peer_addr c = pqc_peer (cw_con c)"

definition con_connection_id :: "connection_wrapper \<Rightarrow> connection_id" where
  "con_connection_id c = pqc_id (cw_con c)"

subsection \<open>Opening streams from a stream or a handle\<close>

definition handle_new_stream ::
  "picoquic \<Rightarrow> strat_new_stream_handle \<Rightarrow> (strat_stream, error) tape" where
  "handle_new_stream pq h =
     map (map_poll (\<lambda>v. ss_new (stream_wrapper_new v (nsw_new_stream h) (nsw_con_id h))) error_from_picoquic)
       (open_bidirectional pq (nsw_new_stream h))"

definition sw_open_stream :: "picoquic \<Rightarrow> stream_wrapper \<Rightarrow> (strat_stream, error) tape" where
  "sw_open_stream pq w =
     map (map_poll (\<lambda>v. ss_new (stream_wrapper_new v (sw_new_stream w) (sw_con_id w))) error_from_picoquic)
       (open_bidirectional pq (sw_new_stream w))"

definition sw_get_new_stream_handle :: "stream_wrapper \<Rightarrow> strat_new_stream_handle" where
  "sw_get_new_stream_handle w = \<lparr>nsw_new_stream = sw_new_stream w, nsw_con_id = sw_con_id w\<rparr>"

subsection \<open>The wrapped stream\<close>

definition sw_poll :: "stream_wrapper \<Rightarrow> (bytes option, error) poll \<times> stream_wrapper" where
  "sw_poll w = (case pqs_poll (sw_stream w) of (p, s) \<Rightarrow>
     (map_err error_from_picoquic p, w\<lparr>sw_stream := s\<rparr>))"

definition sw_start_send :: "frame \<Rightarrow> stream_wrapper \<Rightarrow> (error + frame async_sink) \<times> stream_wrapper" where
  "sw_start_send item w = (case pqs_start_send item (sw_stream w) of (r, s) \<Rightarrow>
     (map_err error_from_picoquic r, w\<lparr>sw_stream := s\<rparr>))"

definition sw_poll_complete :: "stream_wrapper \<Rightarrow> (unit, error) poll \<times> stream_wrapper" where
  "sw_poll_complete w = (case pqs_poll_complete (sw_stream w) of (r, s) \<Rightarrow>
     (map_err error_from_picoquic r, w\<lparr>sw_stream := s\<rparr>))"

definition sw_local_addr :: "stream_wrapper \<Rightarrow> socket_addr" where
  "sw_local_addr w = pqs_local (sw_stream w)"

definition sw_peer_addr :: "stream_wrapper \<Rightarrow> socket_addr" where
  "sw_peer_addr w = pqs_peer (sw_stream w)"

definition sw_connection_id :: "stream_wrapper \<Rightarrow> connection_id" where
  "sw_connection_id w = sw_con_id w"

definition sw_set_send_channel_size :: "nat \<Rightarrow> stream_wrapper \<Rightarrow> stream_wrapper" where
  "sw_set_send_channel_size n w = w\<lparr>sw_stream := (sw_stream w)\<lparr>pqs_channel_size := Some n\<rparr>\<rparr>"

section \<open>The stream of the crate\<close>

text \<open>
  The streams of the crate are boxes around the QUIC wrapper. As there is one kind of them, the
  record \<open>strat_stream\<close> leaves the table out; the operations are those of the box. A new stream is
  the future picoquic makes, hence a function of \<open>picoquic\<close>; \<^verbatim>\<open>close\<close> is the default method of
  \<^verbatim>\<open>Sink\<close>.
\<close>

definition stream_wrapper_table ::
  "(stream_wrapper, picoquic \<Rightarrow> (strat_stream, error) tape, strat_new_stream_handle) stream_trait" where
  "stream_wrapper_table = \<lparr>vt_poll = sw_poll, vt_start_send = sw_start_send, vt_poll_complete = sw_poll_complete,
     vt_close = sw_poll_complete, vt_local_addr = sw_local_addr, vt_peer_addr = sw_peer_addr,
     vt_new_stream = (\<lambda>w. (\<lambda>pq. sw_open_stream pq w, w)), vt_get_new_stream_handle = sw_get_new_stream_handle,
     vt_connection_id = sw_connection_id, vt_set_send_channel_size = sw_set_send_channel_size\<rparr>"

type_synonym quic_box = "(stream_wrapper, picoquic \<Rightarrow> (strat_stream, error) tape, strat_new_stream_handle) boxed_stream"

definition ss_box :: "strat_stream \<Rightarrow> quic_box" where
  "ss_box s = \<lparr>bs_vtable = stream_wrapper_table, bs_inner = ss_inner s, bs_read_overflow = ss_read_overflow s\<rparr>"

definition ss_unbox :: "quic_box \<Rightarrow> strat_stream" where
  "ss_unbox b = \<lparr>ss_inner = bs_inner b, ss_read_overflow = bs_read_overflow b\<rparr>"

definition reinsert_data :: "bytes \<Rightarrow> strat_stream \<Rightarrow> strat_stream" where
  "reinsert_data data s = ss_unbox (boxed_reinsert_data data (ss_box s))"

definition ss_poll :: "strat_stream \<Rightarrow> (bytes option, error) poll \<times> strat_stream" where
  "ss_poll s = (case boxed_poll (ss_box s) of (p, b) \<Rightarrow> (p, ss_unbox b))"

definition ss_start_send :: "frame \<Rightarrow> strat_stream \<Rightarrow> (error + frame async_sink) \<times> strat_stream" where
  "ss_start_send item s = (case boxed_start_send item (ss_box s) of (r, b) \<Rightarrow> (r, ss_unbox b))"

definition ss_poll_complete :: "strat_stream \<Rightarrow> (unit, error) poll \<times> strat_stream" where
  "ss_poll_complete s = (case boxed_poll_complete (ss_box s) of (r, b) \<Rightarrow> (r, ss_unbox b))"

definition ss_read ::
  "(error \<Rightarrow> string) \<Rightarrow> bytes \<Rightarrow> strat_stream \<Rightarrow> (io_error + nat) \<times> bytes \<times> strat_stream" where
  "ss_read dbg buf s = (case boxed_read dbg buf (ss_box s) of (r, buf', b) \<Rightarrow> (r, buf', ss_unbox b))"

definition ss_write ::
  "(error \<Rightarrow> string) \<Rightarrow> bytes \<Rightarrow> strat_stream \<Rightarrow> (io_error + nat) \<times> strat_stream" where
  "ss_write dbg buf s = (case boxed_write dbg buf (ss_box s) of (r, b) \<Rightarrow> (r, ss_unbox b))"

definition ss_flush :: "(error \<Rightarrow> string) \<Rightarrow> strat_stream \<Rightarrow> (io_error + unit) \<times> strat_stream" where
  "ss_flush dbg s = (case boxed_flush dbg (ss_box s) of (r, b) \<Rightarrow> (r, ss_unbox b))"

definition ss_shutdown :: "(error \<Rightarrow> string) \<Rightarrow> strat_stream \<Rightarrow> (unit, io_error) poll \<times> strat_stream" where
  "ss_shutdown dbg s = (case boxed_shutdown dbg (ss_box s) of (r, b) \<Rightarrow> (r, ss_unbox b))"

lemma ss_box_simps [simp]:
  "ss_unbox (ss_box s) = s" "bs_vtable b = stream_wrapper_table \<Longrightarrow> ss_box (ss_unbox b) = b"
  "unbox (ss_box s) = (ss_inner s, ss_read_overflow s)" "ss_box s = box_of stream_wrapper_table (ss_inner s, ss_read_overflow s)"
  by (simp_all add: ss_box_def ss_unbox_def unbox_def box_of_def)

text \<open>The operations on the fields of the record.\<close>

lemmas boxed_op_defs = ss_box_def ss_unbox_def stream_wrapper_table_def boxed_deref_mut_def boxed_poll_def
  boxed_read_def boxed_start_send_def boxed_poll_complete_def boxed_reinsert_data_def

lemma ss_poll_eq:
  "ss_poll s = (case ss_read_overflow s of
     Some buf \<Rightarrow> (Ok (Ready (Some buf)), s\<lparr>ss_read_overflow := None\<rparr>)
   | None \<Rightarrow> (case sw_poll (ss_inner s) of (p, w) \<Rightarrow> (p, s\<lparr>ss_inner := w\<rparr>)))"
  by (cases s) (simp add: ss_poll_def boxed_op_defs del: ss_box_simps split: option.splits prod.splits)

lemma ss_start_send_eq:
  "ss_start_send item s = (case sw_start_send item (ss_inner s) of (r, w) \<Rightarrow> (r, s\<lparr>ss_inner := w\<rparr>))"
  by (cases s) (simp add: ss_start_send_def boxed_op_defs del: ss_box_simps split: prod.splits)

lemma ss_poll_complete_eq:
  "ss_poll_complete s = (case sw_poll_complete (ss_inner s) of (r, w) \<Rightarrow> (r, s\<lparr>ss_inner := w\<rparr>))"
  by (cases s) (simp add: ss_poll_complete_def boxed_op_defs del: ss_box_simps split: prod.splits)

lemma reinsert_data_eq:
  "reinsert_data data s =
     (if data = [] then s
      else s\<lparr>ss_read_overflow := Some (data @ (case ss_read_overflow s of Some overflow \<Rightarrow> overflow | None \<Rightarrow> []))\<rparr>)"
  by (cases s) (simp add: reinsert_data_def boxed_op_defs del: ss_box_simps split: option.splits)

section \<open>No byte is lost\<close>

text \<open>One poll of the wrapped stream is one poll of the tape.\<close>

lemma sw_poll_tape:
  "sw_poll w = (case poll_tape (pqs_in (sw_stream w)) of (p, t) \<Rightarrow>
     (map_err error_from_picoquic p, w\<lparr>sw_stream := (sw_stream w)\<lparr>pqs_in := t\<rparr>\<rparr>))"
  by (simp add: sw_poll_def pqs_poll_def split: prod.splits)

definition wrapper_source :: "stream_wrapper \<Rightarrow> bytes" where
  "wrapper_source w = tape_bytes (pqs_in (sw_stream w))"

text \<open>Only data is coming, in non-empty chunks.\<close>

definition wrapper_flowing :: "stream_wrapper \<Rightarrow> bool" where
  "wrapper_flowing w = list_all (\<lambda>p. chunk_bytes p \<noteq> []) (pqs_in (sw_stream w))"

interpretation ws: stream_source stream_wrapper_table wrapper_source wrapper_flowing
proof unfold_locales
  show "wrapper_source w = chunk_bytes p @ wrapper_source w'" if "vt_poll stream_wrapper_table w = (p, w')" for w p w'
    using that
    by (auto simp: stream_wrapper_table_def sw_poll_tape wrapper_source_def dest: tape_bytes_poll split: prod.splits)
  show "wrapper_flowing w' \<and> chunk_bytes p \<noteq> []"
    if "wrapper_flowing w" "wrapper_source w \<noteq> []" "vt_poll stream_wrapper_table w = (p, w')" for w p w'
    using that
    by (cases "pqs_in (sw_stream w)")
      (auto simp: stream_wrapper_table_def sw_poll_tape wrapper_source_def wrapper_flowing_def)
qed

text \<open>The bytes still to be delivered: the overflow, then the chunks picoquic will hand out.\<close>

definition ss_pending :: "strat_stream \<Rightarrow> bytes" where
  "ss_pending s = (case ss_read_overflow s of None \<Rightarrow> [] | Some b \<Rightarrow> b) @
     tape_bytes (pqs_in (sw_stream (ss_inner s)))"

text \<open>An overflow is never empty, and only data is coming.\<close>

definition ss_live :: "strat_stream \<Rightarrow> bool" where
  "ss_live s \<longleftrightarrow> ss_read_overflow s \<noteq> Some [] \<and> wrapper_flowing (ss_inner s)"

abbreviation ss_pair :: "strat_stream \<Rightarrow> stream_wrapper \<times> bytes option" where
  "ss_pair s \<equiv> (ss_inner s, ss_read_overflow s)"

lemma ss_pair_boxed:
  "ss_pending s = boxed_pending wrapper_source (ss_pair s)" "ss_live s = boxed_live wrapper_flowing (ss_pair s)"
  by (simp_all add: ss_pending_def ss_live_def boxed_pending_def boxed_live_def wrapper_source_def)

lemma ss_pair_unbox [simp]: "ss_pair (ss_unbox b) = unbox b"
  by (simp add: ss_unbox_def unbox_def)

lemma ss_table:
  "ss_read dbg buf s = (r, buf', s') \<Longrightarrow> table_read stream_wrapper_table dbg buf (ss_pair s) = (r, buf', ss_pair s')"
  "ss_poll s = (p, s') \<Longrightarrow> table_poll stream_wrapper_table (ss_pair s) = (p, ss_pair s')"
  "ss_pair (reinsert_data b s) = table_reinsert stream_wrapper_table b (ss_pair s)"
  by (auto simp: ss_read_def ss_poll_def reinsert_data_def table_read_def table_poll_def table_reinsert_def
      split: prod.splits)

lemma ss_conserves:
  "ss_read dbg buf s = (r, buf', s') \<Longrightarrow> ss_pending s = take (read_count r) buf' @ ss_pending s'"
  "ss_poll s = (p, s') \<Longrightarrow> ss_pending s = chunk_bytes p @ ss_pending s'"
  "ss_pending (reinsert_data b s) = b @ ss_pending s"
  unfolding ss_pair_boxed ss_table(3)
  by (erule ws.table.read_conserves [OF ss_table(1)] ws.table.poll_conserves [OF ss_table(2)]
      | rule ws.table.reinsert_pending)+

lemma ss_read_progress:
  "ss_live s \<Longrightarrow> ss_pending s \<noteq> [] \<Longrightarrow> buf \<noteq> [] \<Longrightarrow> ss_read dbg buf s = (r, buf', s') \<Longrightarrow>
     ss_live s' \<and> 0 < read_count r"
  unfolding ss_pair_boxed by (erule (2) ws.table.read_progress [OF _ _ _ ss_table(1)])

interpretation ss: byte_source ss_pending ss_live "ss_read dbg" ss_poll reinsert_data for dbg
  by unfold_locales
    (erule ss_conserves(1,2) ws.table.read_frame [OF ss_table(1)] | rule ss_conserves(3) | erule (3) ss_read_progress)+

lemmas reinsert_pending = ss_conserves(3)

lemmas ss_poll_conserves = ss.poll_conserves

section \<open>The other boxes\<close>

text \<open>
  Strategies, connections and handles of the crate are boxes around wrappers as well, and are
  represented by the wrapper.
\<close>

text \<open>The types of the boxes of the wrappers of connections, strategies and handles.\<close>

type_synonym boxed_quic_connection =
  "(connection_wrapper, strat_stream, (strat_stream, error) tape, strat_new_stream_handle) boxed_connection"

type_synonym boxed_quic_strategy =
  "(strategy_wrapper, connection_wrapper, (connection_wrapper, error) tape, strat_new_connection_handle) boxed_strategy"

definition box_connection :: "picoquic \<Rightarrow> connection_wrapper \<Rightarrow> boxed_quic_connection" where
  "box_connection pq = boxed_connection_new \<lparr>vc_poll = con_poll, vc_local_addr = con_local_addr, vc_peer_addr = con_peer_addr,
     vc_new_stream = (\<lambda>c. (con_new_stream pq c, c)), vc_get_new_stream_handle = con_get_new_stream_handle,
     vc_connection_id = con_connection_id\<rparr>"

definition box_strategy :: "picoquic \<Rightarrow> strategy_wrapper \<Rightarrow> boxed_quic_strategy" where
  "box_strategy pq = boxed_strategy_new \<lparr>vs_poll = strategy_poll,
     vs_new_connection = (\<lambda>addr s. (strategy_new_connection pq s addr, s)),
     vs_get_new_connection_handle = strategy_get_new_connection_handle, vs_local_addr = strategy_local_addr\<rparr>"

definition box_connection_handle ::
  "picoquic \<Rightarrow> strat_new_connection_handle \<Rightarrow>
     (strat_new_connection_handle, (connection_wrapper, error) tape) boxed_connection_handle" where
  "box_connection_handle pq =
     boxed_connection_handle_new (\<lambda>h. h) (\<lambda>addr h. (handle_new_connection pq h addr, h))"

definition box_stream_handle ::
  "picoquic \<Rightarrow> strat_new_stream_handle \<Rightarrow> (strat_new_stream_handle, (strat_stream, error) tape) boxed_stream_handle" where
  "box_stream_handle pq = boxed_stream_handle_new (\<lambda>h. h) (\<lambda>h. (handle_new_stream pq h, h))"

lemma box_connection_ops:
  "boxed_connection_poll (box_connection pq c) = apsnd (box_connection pq) (con_poll c)"
  "boxed_connection_local_addr (box_connection pq c) = con_local_addr c"
  "boxed_connection_peer_addr (box_connection pq c) = con_peer_addr c"
  "boxed_connection_new_stream (box_connection pq c) = (con_new_stream pq c, box_connection pq c)"
  "boxed_connection_get_new_stream_handle (box_connection pq c) = con_get_new_stream_handle c"
  "boxed_connection_id (box_connection pq c) = con_connection_id c"
  by (simp_all add: box_connection_def boxed_connection_new_def boxed_connection_poll_def boxed_connection_local_addr_def
      boxed_connection_peer_addr_def boxed_connection_new_stream_def boxed_connection_get_new_stream_handle_def
      boxed_connection_id_def split: prod.splits)

lemma box_strategy_ops:
  "boxed_strategy_poll (box_strategy pq s) = apsnd (box_strategy pq) (strategy_poll s)"
  "boxed_strategy_new_connection addr (box_strategy pq s) = (strategy_new_connection pq s addr, box_strategy pq s)"
  "boxed_strategy_get_new_connection_handle (box_strategy pq s) = strategy_get_new_connection_handle s"
  "boxed_strategy_local_addr (box_strategy pq s) = strategy_local_addr s"
  by (simp_all add: box_strategy_def boxed_strategy_new_def boxed_strategy_poll_def boxed_strategy_new_connection_def
      boxed_strategy_get_new_connection_handle_def boxed_strategy_local_addr_def split: prod.splits)

lemma box_handle_ops:
  "boxed_connection_handle_new_connection addr (box_connection_handle pq h) =
     (handle_new_connection pq h addr, box_connection_handle pq h)"
  "boxed_connection_handle_get (box_connection_handle pq h) = box_connection_handle pq h"
  "boxed_stream_handle_new_stream (box_stream_handle pq k) = (handle_new_stream pq k, box_stream_handle pq k)"
  "boxed_stream_handle_get (box_stream_handle pq k) = box_stream_handle pq k"
  by (simp_all add: box_connection_handle_def boxed_connection_handle_new_def boxed_connection_handle_new_connection_def
      boxed_connection_handle_get_def boxed_connection_handle_clone_def box_stream_handle_def boxed_stream_handle_new_def
      boxed_stream_handle_new_stream_def boxed_stream_handle_get_def boxed_stream_handle_clone_def)

section \<open>Concrete values\<close>

definition demo_boxed :: quic_box where
  "demo_boxed = boxed_stream_new stream_wrapper_table
     (stream_wrapper_new \<lparr>pqs_in = [Ok (Ready (Some [1, 2, 3, 4]))], pqs_accepts = (\<lambda>_. Ok True),
        pqs_flushes = (\<lambda>_. Ok (Ready ())), pqs_calls = 0, pqs_out = [], pqs_local = SocketAddrV4 1 1,
        pqs_peer = SocketAddrV4 2 2, pqs_channel_size = None\<rparr> (PqStreamHandle 7) 7)"

theorem boxed_stream_delivers_witness:
  "\<exists>out s'. consume (boxed_read (\<lambda>_. [])) boxed_poll [ReadInto [0, 0], PollChunk] demo_boxed = (out, s') \<and>
     out @ (case bs_read_overflow s' of None \<Rightarrow> [] | Some b \<Rightarrow> b) @ wrapper_source (bs_inner s') = [1, 2, 3, 4]"
proof -
  obtain out s' where run: "consume (boxed_read (\<lambda>_. [])) boxed_poll [ReadInto [0, 0], PollChunk] demo_boxed = (out, s')"
    by force
  have "\<forall>i p i'. vt_poll (bs_vtable demo_boxed) i = (p, i') \<longrightarrow> wrapper_source i = chunk_bytes p @ wrapper_source i'"
    using ws.source_poll by (simp add: demo_boxed_def boxed_stream_new_def)
  from boxed_stream_delivers [OF this run] run show ?thesis
    by (auto simp: demo_boxed_def boxed_stream_new_def wrapper_source_def stream_wrapper_new_def)
qed

end
