(* ===== verification/Streams.thy ===== *)
theory Streams
  imports Strategies
begin

text \<open>
  \<^verbatim>\<open>stream.rs\<close>: streams that know the peer they lead to, the handles that open more of them,
  and the switch between raw bytes and a framed protocol. The framing (tokio's \<^verbatim>\<open>Framed\<close> with
  its length codec, and the JSON layer) is third-party: a \<open>codec\<close> says which messages
  it will decode from a byte stream, how it reads the stream in each poll, how many of the
  bytes read so far it uses up, and how its sink answers.
\<close>

section \<open>Framed streams\<close>

record 'p codec =
  cd_msgs :: "strat_stream \<Rightarrow> ('p option, error) tape"
  cd_reads :: "nat \<Rightarrow> source_op list"
  cd_used :: "nat \<Rightarrow> nat"
  cd_accepts :: "nat \<Rightarrow> error + bool"
  cd_flushes :: "nat \<Rightarrow> (unit, error) poll"

text \<open>
  A framed stream: the byte stream below, the bytes read and not used, the frames accepted but
  not yet flushed, the messages to come, and the counters of polls and sink calls.
\<close>

record 'p pstream =
  ps_io :: strat_stream
  ps_codec :: "'p codec"
  ps_msgs :: "('p option, error) tape"
  ps_polls :: nat
  ps_read_buf :: bytes
  ps_write_buf :: "frame list"
  ps_calls :: nat

text \<open>\<^verbatim>\<open>impl Into<ProtocolStrategiesStream<P>>\<close> for a raw stream.\<close>

definition pstream_new :: "'p codec \<Rightarrow> strat_stream \<Rightarrow> 'p pstream" where
  "pstream_new cd s = \<lparr>ps_io = s, ps_codec = cd, ps_msgs = cd_msgs cd s, ps_polls = 0,
     ps_read_buf = [], ps_write_buf = [], ps_calls = 0\<rparr>"

text \<open>One poll reads from the stream below and uses up a part of what it has read.\<close>

definition ps_advance :: "'p pstream \<Rightarrow> 'p pstream" where
  "ps_advance p = (case consume (ss_read (\<lambda>_. [])) ss_poll (cd_reads (ps_codec p) (ps_polls p)) (ps_io p) of
     (got, io) \<Rightarrow> p\<lparr>ps_io := io, ps_read_buf := drop (cd_used (ps_codec p) (ps_polls p)) (ps_read_buf p @ got),
       ps_polls := ps_polls p + 1\<rparr>)"

definition ps_poll :: "'p pstream \<Rightarrow> ('p option, error) poll \<times> 'p pstream" where
  "ps_poll p = (case poll_tape (ps_msgs p) of (r, t) \<Rightarrow> (r, (ps_advance p)\<lparr>ps_msgs := t\<rparr>))"

text \<open>
  \<^verbatim>\<open>Sink::start_send\<close>: the message is accepted into the write buffer or handed back; \<open>to_frame\<close> makes
  the frame of a message.
\<close>

definition ps_start_send ::
  "('p \<Rightarrow> frame) \<Rightarrow> 'p \<Rightarrow> 'p pstream \<Rightarrow> (error + 'p async_sink) \<times> 'p pstream" where
  "ps_start_send to_frame m p = (let p' = p\<lparr>ps_calls := ps_calls p + 1\<rparr> in
     case cd_accepts (ps_codec p) (ps_calls p) of
       Err e \<Rightarrow> (Err e, p')
     | Ok False \<Rightarrow> (Ok (SinkNotReady m), p')
     | Ok True \<Rightarrow> (Ok SinkReady, p'\<lparr>ps_write_buf := ps_write_buf p @ [to_frame m]\<rparr>))"

definition io_append :: "frame list \<Rightarrow> strat_stream \<Rightarrow> strat_stream" where
  "io_append fs s = s\<lparr>ss_inner := (ss_inner s)\<lparr>sw_stream :=
     (sw_stream (ss_inner s))\<lparr>pqs_out := pqs_out (sw_stream (ss_inner s)) @ fs\<rparr>\<rparr>\<rparr>"

text \<open>\<^verbatim>\<open>Sink::poll_complete\<close>: once it answers ready, the write buffer is on the wire.\<close>

definition ps_poll_complete :: "'p pstream \<Rightarrow> (unit, error) poll \<times> 'p pstream" where
  "ps_poll_complete p = (let p' = p\<lparr>ps_calls := ps_calls p + 1\<rparr> in
     case cd_flushes (ps_codec p) (ps_calls p) of
       Ok (Ready u) \<Rightarrow> (Ok (Ready u), p'\<lparr>ps_io := io_append (ps_write_buf p) (ps_io p), ps_write_buf := []\<rparr>)
     | r \<Rightarrow> (r, p'))"

text \<open>
  \<^verbatim>\<open>start_send(m)?; poll_complete()?;\<close>, the pattern used all over the code: errors are returned,
  the answers \<^verbatim>\<open>NotReady\<close> of both calls are ignored.
\<close>

definition ps_send :: "('p \<Rightarrow> frame) \<Rightarrow> 'p \<Rightarrow> 'p pstream \<Rightarrow> (error + unit) \<times> 'p pstream" where
  "ps_send to_frame m p = (case ps_start_send to_frame m p of
     (Err e, p1) \<Rightarrow> (Err e, p1)
   | (Ok _, p1) \<Rightarrow> (case ps_poll_complete p1 of
       (Err e, p2) \<Rightarrow> (Err e, p2)
     | (Ok _, p2) \<Rightarrow> (Ok (), p2)))"

text \<open>
  \<^verbatim>\<open>From<ProtocolStrategiesStream<P>> for strategies::Stream\<close>: the unused bytes go back into the
  stream; the parts' write buffer is dropped.
\<close>

definition strat_from_pstream :: "'p pstream \<Rightarrow> strat_stream" where
  "strat_from_pstream p = reinsert_data (ps_read_buf p) (ps_io p)"

definition io_out :: "strat_stream \<Rightarrow> frame list" where
  "io_out s = pqs_out (sw_stream (ss_inner s))"

definition io_local_addr :: "strat_stream \<Rightarrow> socket_addr" where
  "io_local_addr s = sw_local_addr (ss_inner s)"

definition io_peer_addr :: "strat_stream \<Rightarrow> socket_addr" where
  "io_peer_addr s = sw_peer_addr (ss_inner s)"

text \<open>A codec whose sink takes every message and flushes it at once.\<close>

definition prompt_sink :: "'p codec \<Rightarrow> bool" where
  "prompt_sink cd \<longleftrightarrow> (\<forall>n. cd_accepts cd n = Ok True) \<and> (\<forall>n. cd_flushes cd n = Ok (Ready ()))"

text \<open>Everything handed to a framed stream: on the wire, then in the write buffer.\<close>

definition ps_written :: "'p pstream \<Rightarrow> frame list" where
  "ps_written p = io_out (ps_io p) @ ps_write_buf p"

lemma io_append_simps [simp]:
  "io_out (io_append fs s) = io_out s @ fs" "ss_pending (io_append fs s) = ss_pending s"
  "io_local_addr (io_append fs s) = io_local_addr s" "io_peer_addr (io_append fs s) = io_peer_addr s"
  "io_append [] s = s"
  by (simp_all add: io_append_def io_out_def ss_pending_def io_local_addr_def io_peer_addr_def
      sw_local_addr_def sw_peer_addr_def)

lemma reinsert_data_inner [simp]: "ss_inner (reinsert_data b s) = ss_inner s"
  by (simp add: reinsert_data_eq split: option.splits)

lemma strat_from_pstream_simps [simp]:
  "io_out (strat_from_pstream p) = io_out (ps_io p)"
  "io_local_addr (strat_from_pstream p) = io_local_addr (ps_io p)"
  "io_peer_addr (strat_from_pstream p) = io_peer_addr (ps_io p)"
  by (simp_all add: strat_from_pstream_def io_out_def io_local_addr_def io_peer_addr_def)

lemma pstream_new_simps [simp]:
  "ps_io (pstream_new cd s) = s" "ps_codec (pstream_new cd s) = cd"
  "ps_msgs (pstream_new cd s) = cd_msgs cd s" "ps_polls (pstream_new cd s) = 0"
  "ps_read_buf (pstream_new cd s) = []" "ps_write_buf (pstream_new cd s) = []" "ps_calls (pstream_new cd s) = 0"
  by (simp_all add: pstream_new_def)

text \<open>Reading changes neither what was written nor the addresses.\<close>

lemma ss_read_keeps:
  assumes "ss_read dbg buf s = (r, buf', s')"
  shows "io_out s' = io_out s" "io_local_addr s' = io_local_addr s" "io_peer_addr s' = io_peer_addr s"
  using assms
  by (auto simp: ss_read_def boxed_op_defs sw_poll_tape Let_def io_out_def io_local_addr_def io_peer_addr_def
      sw_local_addr_def sw_peer_addr_def simp del: ss_box_simps
      split: option.splits prod.splits sum.splits async.splits)

lemma ss_poll_keeps:
  assumes "ss_poll s = (r, s')"
  shows "io_out s' = io_out s" "io_local_addr s' = io_local_addr s" "io_peer_addr s' = io_peer_addr s"
  using assms
  by (auto simp: ss_poll_eq sw_poll_tape io_out_def io_local_addr_def io_peer_addr_def
      sw_local_addr_def sw_peer_addr_def split: option.splits prod.splits)

lemma consume_keeps:
  "consume (ss_read dbg) ss_poll ops s = (b, s') \<Longrightarrow>
     io_out s' = io_out s \<and> io_local_addr s' = io_local_addr s \<and> io_peer_addr s' = io_peer_addr s"
proof (induction ops arbitrary: s b)
  case Nil
  then show ?case by simp
next
  case (Cons op ops)
  then show ?case
    by (cases op) (fastforce split: prod.splits dest: ss_read_keeps ss_poll_keeps)+
qed

lemma ps_advance_simps [simp]:
  "ps_codec (ps_advance p) = ps_codec p" "ps_write_buf (ps_advance p) = ps_write_buf p"
  "ps_calls (ps_advance p) = ps_calls p" "ps_msgs (ps_advance p) = ps_msgs p"
  "ps_polls (ps_advance p) = ps_polls p + 1"
  "io_out (ps_io (ps_advance p)) = io_out (ps_io p)"
  "io_local_addr (ps_io (ps_advance p)) = io_local_addr (ps_io p)"
  "io_peer_addr (ps_io (ps_advance p)) = io_peer_addr (ps_io p)"
  by (auto simp: ps_advance_def split: prod.splits dest: consume_keeps)

lemma ps_poll_simps [simp, poll_simps]:
  "ps_msgs p = [] \<Longrightarrow> ps_poll p = (Ok NotReady, ps_advance p)"
  "ps_msgs p = r # t \<Longrightarrow> ps_poll p = (r, (ps_advance p)\<lparr>ps_msgs := t\<rparr>)"
  by (simp_all add: ps_poll_def)

lemma ps_pollD:
  assumes "ps_poll p = (r, p')"
  shows "ps_codec p' = ps_codec p" "ps_write_buf p' = ps_write_buf p" "ps_calls p' = ps_calls p"
    "io_out (ps_io p') = io_out (ps_io p)" "io_local_addr (ps_io p') = io_local_addr (ps_io p)"
    "io_peer_addr (ps_io p') = io_peer_addr (ps_io p)" "poll_tape (ps_msgs p) = (r, ps_msgs p')"
  using assms by (auto simp: ps_poll_def split: prod.splits)

lemma ps_poll_progress:
  "ps_poll p = (r, p') \<Longrightarrow> r \<noteq> Ok NotReady \<Longrightarrow> length (ps_msgs p') < length (ps_msgs p)"
  by (cases "ps_msgs p") auto

text \<open>What a framed stream has not used: its read buffer, then the bytes of the stream below.\<close>

definition ps_pending :: "'p pstream \<Rightarrow> bytes" where
  "ps_pending p = ps_read_buf p @ ss_pending (ps_io p)"

text \<open>The bytes the framing uses up in the next poll, and in the next polls.\<close>

definition ps_used :: "'p pstream \<Rightarrow> bytes" where
  "ps_used p = take (cd_used (ps_codec p) (ps_polls p)) (ps_read_buf p @
     fst (consume (ss_read (\<lambda>_. [])) ss_poll (cd_reads (ps_codec p) (ps_polls p)) (ps_io p)))"

fun ps_polls_n :: "nat \<Rightarrow> 'p pstream \<Rightarrow> 'p pstream" where
  "ps_polls_n 0 p = p"
| "ps_polls_n (Suc n) p = ps_polls_n n (snd (ps_poll p))"

fun ps_used_n :: "nat \<Rightarrow> 'p pstream \<Rightarrow> bytes" where
  "ps_used_n 0 p = []"
| "ps_used_n (Suc n) p = ps_used p @ ps_used_n n (snd (ps_poll p))"

lemma ps_poll_pending: "ps_poll p = (r, p') \<Longrightarrow> ps_pending p = ps_used p @ ps_pending p'"
proof -
  assume poll: "ps_poll p = (r, p')"
  obtain got io where c:
    "consume (ss_read (\<lambda>_. [])) ss_poll (cd_reads (ps_codec p) (ps_polls p)) (ps_io p) = (got, io)" by force
  from ss.consume_conserves [OF c] have "ps_pending p = (ps_read_buf p @ got) @ ss_pending io"
    by (simp add: ps_pending_def)
  also have "\<dots> = ps_used p @ ps_pending p'"
    using poll c by (auto simp: ps_used_def ps_pending_def ps_poll_def ps_advance_def simp del: take_append drop_append
        split: prod.splits)
  finally show ?thesis .
qed

lemma ps_polls_n_pending: "ps_pending p = ps_used_n n p @ ps_pending (ps_polls_n n p)"
proof (induction n arbitrary: p)
  case (Suc n)
  obtain r p' where poll: "ps_poll p = (r, p')" by force
  from ps_poll_pending [OF poll] Suc.IH [of p'] poll show ?case by simp
qed simp

lemma strat_from_pstream_pending [simp]: "ss_pending (strat_from_pstream p) = ps_pending p"
  by (simp add: strat_from_pstream_def ps_pending_def reinsert_pending)

lemma ps_send_prompt:
  assumes "prompt_sink (ps_codec p)"
  shows "ps_send to_frame m p = (Ok (), p\<lparr>ps_calls := ps_calls p + 2, ps_write_buf := [],
    ps_io := io_append (ps_write_buf p @ [to_frame m]) (ps_io p)\<rparr>)"
  using assms
  by (simp add: prompt_sink_def ps_send_def ps_start_send_def ps_poll_complete_def Let_def)

lemma ps_send_codec: "ps_send to_frame m p = (r, p') \<Longrightarrow>
    ps_codec p' = ps_codec p \<and> ps_msgs p' = ps_msgs p \<and> ps_polls p' = ps_polls p \<and>
    ps_pending p' = ps_pending p \<and> io_local_addr (ps_io p') = io_local_addr (ps_io p) \<and>
    io_peer_addr (ps_io p') = io_peer_addr (ps_io p)"
  by (auto simp: ps_send_def ps_start_send_def ps_poll_complete_def Let_def ps_pending_def
      split: prod.splits sum.splits bool.splits async.splits)

text \<open>A send never takes anything back, and adds the message at most once, at the end.\<close>

lemma ps_send_written:
  "ps_send to_frame m p = (r, p') \<Longrightarrow> ps_written p' = ps_written p \<or> ps_written p' = ps_written p @ [to_frame m]"
  by (auto simp: ps_send_def ps_start_send_def ps_poll_complete_def Let_def ps_written_def
      split: prod.splits sum.splits bool.splits async.splits)

section \<open>Handles and streams\<close>

record new_stream_handle =
  nsh_peer_identifier :: peer_id
  nsh_local_peer_identifier :: peer_id
  nsh_new_stream_handle :: strat_new_stream_handle
  nsh_proxy_stream :: bool

definition new_stream_handle_new ::
  "peer_id \<Rightarrow> peer_id \<Rightarrow> strat_new_stream_handle \<Rightarrow> new_stream_handle" where
  "new_stream_handle_new peer_identifier local_peer_identifier h =
     \<lparr>nsh_peer_identifier = peer_identifier, nsh_local_peer_identifier = local_peer_identifier,
      nsh_new_stream_handle = h, nsh_proxy_stream = False\<rparr>"

definition set_proxy_stream :: "bool \<Rightarrow> peer_id \<Rightarrow> new_stream_handle \<Rightarrow> new_stream_handle" where
  "set_proxy_stream proxy peer_identifier h =
     h\<lparr>nsh_proxy_stream := proxy, nsh_peer_identifier := peer_identifier\<rparr>"

record new_stream_future =
  nsf_new_stream :: "(strat_stream, error) tape"
  nsf_new_stream_handle :: new_stream_handle
  nsf_stream_hello :: stream_hello
  nsf_peer_identifier :: peer_id

definition new_stream_future_new ::
  "peer_id \<Rightarrow> (strat_stream, error) tape \<Rightarrow> new_stream_handle \<Rightarrow> stream_hello \<Rightarrow> new_stream_future" where
  "new_stream_future_new peer_identifier new_stream h stream_hello =
     \<lparr>nsf_new_stream = new_stream, nsf_new_stream_handle = h, nsf_stream_hello = stream_hello,
      nsf_peer_identifier = peer_identifier\<rparr>"

definition new_stream_with_hello ::
  "picoquic \<Rightarrow> new_stream_handle \<Rightarrow> stream_hello \<Rightarrow> new_stream_future" where
  "new_stream_with_hello pq h stream_hello =
     new_stream_future_new (nsh_peer_identifier h) (handle_new_stream pq (nsh_new_stream_handle h))
       h stream_hello"

definition new_stream :: "picoquic \<Rightarrow> new_stream_handle \<Rightarrow> new_stream_future" where
  "new_stream pq h = (let stream_hello =
       (if nsh_proxy_stream h then UserProxy (nsh_peer_identifier h)
        else User (nsh_local_peer_identifier h)) in
     new_stream_future_new (nsh_peer_identifier h) (handle_new_stream pq (nsh_new_stream_handle h))
       h stream_hello)"

record hp_stream =
  st_stream :: strat_stream
  st_new_stream_handle :: new_stream_handle
  st_peer_identifier :: peer_id
  st_is_proxy_stream :: bool

definition stream_new ::
  "strat_stream \<Rightarrow> peer_id \<Rightarrow> new_stream_handle \<Rightarrow> bool \<Rightarrow> hp_stream" where
  "stream_new stream peer_identifier h is_proxy_stream =
     \<lparr>st_stream = stream, st_new_stream_handle = set_proxy_stream is_proxy_stream peer_identifier h,
      st_peer_identifier = peer_identifier, st_is_proxy_stream = is_proxy_stream\<rparr>"

definition is_p2p :: "hp_stream \<Rightarrow> bool" where
  "is_p2p s = (\<not> st_is_proxy_stream s)"

definition st_local_addr :: "hp_stream \<Rightarrow> socket_addr" where
  "st_local_addr s = io_local_addr (st_stream s)"

definition st_peer_addr :: "hp_stream \<Rightarrow> socket_addr" where
  "st_peer_addr s = io_peer_addr (st_stream s)"

definition st_set_send_channel_size :: "nat \<Rightarrow> hp_stream \<Rightarrow> hp_stream" where
  "st_set_send_channel_size n s =
     s\<lparr>st_stream := (st_stream s)\<lparr>ss_inner := sw_set_send_channel_size n (ss_inner (st_stream s))\<rparr>\<rparr>"

definition st_reinsert_data :: "bytes \<Rightarrow> hp_stream \<Rightarrow> hp_stream" where
  "st_reinsert_data data s = s\<lparr>st_stream := reinsert_data data (st_stream s)\<rparr>"

definition st_poll :: "hp_stream \<Rightarrow> (bytes option, error) poll \<times> hp_stream" where
  "st_poll s = (case ss_poll (st_stream s) of (p, r) \<Rightarrow> (p, s\<lparr>st_stream := r\<rparr>))"

definition st_start_send :: "frame \<Rightarrow> hp_stream \<Rightarrow> (error + frame async_sink) \<times> hp_stream" where
  "st_start_send item s = (case ss_start_send item (st_stream s) of (p, r) \<Rightarrow> (p, s\<lparr>st_stream := r\<rparr>))"

definition st_poll_complete :: "hp_stream \<Rightarrow> (unit, error) poll \<times> hp_stream" where
  "st_poll_complete s = (case ss_poll_complete (st_stream s) of (p, r) \<Rightarrow> (p, s\<lparr>st_stream := r\<rparr>))"

definition st_read ::
  "(error \<Rightarrow> string) \<Rightarrow> bytes \<Rightarrow> hp_stream \<Rightarrow> (io_error + nat) \<times> bytes \<times> hp_stream" where
  "st_read dbg buf s = (case ss_read dbg buf (st_stream s) of (r, buf', t) \<Rightarrow> (r, buf', s\<lparr>st_stream := t\<rparr>))"

definition st_write :: "(error \<Rightarrow> string) \<Rightarrow> bytes \<Rightarrow> hp_stream \<Rightarrow> (io_error + nat) \<times> hp_stream" where
  "st_write dbg buf s = (case ss_write dbg buf (st_stream s) of (r, t) \<Rightarrow> (r, s\<lparr>st_stream := t\<rparr>))"

definition st_flush :: "(error \<Rightarrow> string) \<Rightarrow> hp_stream \<Rightarrow> (io_error + unit) \<times> hp_stream" where
  "st_flush dbg s = (case ss_flush dbg (st_stream s) of (r, t) \<Rightarrow> (r, s\<lparr>st_stream := t\<rparr>))"

definition st_shutdown :: "(error \<Rightarrow> string) \<Rightarrow> hp_stream \<Rightarrow> (unit, io_error) poll \<times> hp_stream" where
  "st_shutdown dbg s = (case ss_shutdown dbg (st_stream s) of (r, t) \<Rightarrow> (r, s\<lparr>st_stream := t\<rparr>))"

text \<open>
  \<^verbatim>\<open>NewStreamFuture::poll\<close>. Once picoquic hands over a stream, the hello message is sent on it
  and the stream is wrapped; an error of the sink is a panic (\<^verbatim>\<open>expect\<close>), here \<open>None\<close>.
\<close>

definition hello_target :: "peer_id \<Rightarrow> stream_hello \<Rightarrow> peer_id \<times> bool" where
  "hello_target peer_identifier hello = (case hello of
     UserProxy peer \<Rightarrow> (peer, True)
   | ProxyBuildConnectionToPeer peer \<Rightarrow> (peer, True)
   | _ \<Rightarrow> (peer_identifier, False))"

definition new_stream_poll ::
  "stream_hello codec \<Rightarrow> new_stream_future \<Rightarrow> ((hp_stream, error) poll \<times> new_stream_future) option" where
  "new_stream_poll cd f = (case poll_tape (nsf_new_stream f) of (r, t) \<Rightarrow>
     let f' = f\<lparr>nsf_new_stream := t\<rparr> in
     (case r of
        Err e \<Rightarrow> Some (Err e, f')
      | Ok NotReady \<Rightarrow> Some (Ok NotReady, f')
      | Ok (Ready v) \<Rightarrow>
          (case hello_target (nsf_peer_identifier f) (nsf_stream_hello f) of (peer_identifier, is_proxied) \<Rightarrow>
           case ps_send HelloFrame (nsf_stream_hello f) (pstream_new cd v) of
             (Err _, _) \<Rightarrow> None
           | (Ok _, stream_hello) \<Rightarrow>
               Some (Ok (Ready (stream_new (strat_from_pstream stream_hello) peer_identifier
                                  (nsf_new_stream_handle f) is_proxied)), f'))))"

section \<open>Streams and their handles agree\<close>

text \<open>The handle of a stream leads where the stream leads.\<close>

definition stream_wf :: "hp_stream \<Rightarrow> bool" where
  "stream_wf s \<longleftrightarrow> nsh_peer_identifier (st_new_stream_handle s) = st_peer_identifier s \<and>
     nsh_proxy_stream (st_new_stream_handle s) = st_is_proxy_stream s"

lemma stream_new_wf [simp]: "stream_wf (stream_new s p h b)"
  by (simp add: stream_wf_def stream_new_def set_proxy_stream_def)

lemma stream_new_simps [simp]:
  "st_peer_identifier (stream_new s p h b) = p" "st_is_proxy_stream (stream_new s p h b) = b"
  "st_stream (stream_new s p h b) = s"
  "nsh_local_peer_identifier (st_new_stream_handle (stream_new s p h b)) = nsh_local_peer_identifier h"
  "nsh_new_stream_handle (st_new_stream_handle (stream_new s p h b)) = nsh_new_stream_handle h"
  by (simp_all add: stream_new_def set_proxy_stream_def)

lemma new_stream_poll_ReadyE:
  assumes "new_stream_poll cd f = Some (Ok (Ready st), f')"
  obtains v p where "nsf_new_stream f = Ok (Ready v) # nsf_new_stream f'"
    "ps_send HelloFrame (nsf_stream_hello f) (pstream_new cd v) = (Ok (), p)"
    "st = stream_new (strat_from_pstream p) (fst (hello_target (nsf_peer_identifier f) (nsf_stream_hello f)))
       (nsf_new_stream_handle f) (snd (hello_target (nsf_peer_identifier f) (nsf_stream_hello f)))"
  using assms
  by (auto simp: new_stream_poll_def Let_def dest: poll_tapeD
      split: prod.splits sum.splits async.splits)

lemma new_stream_future_simps [simp]:
  "nsf_new_stream (new_stream pq h) = handle_new_stream pq (nsh_new_stream_handle h)"
  "nsf_new_stream_handle (new_stream pq h) = h"
  "nsf_peer_identifier (new_stream pq h) = nsh_peer_identifier h"
  "nsf_stream_hello (new_stream pq h) =
     (if nsh_proxy_stream h then UserProxy (nsh_peer_identifier h) else User (nsh_local_peer_identifier h))"
  by (simp_all add: new_stream_def new_stream_future_new_def Let_def)

lemma new_stream_with_hello_simps [simp]:
  "nsf_new_stream (new_stream_with_hello pq h m) = handle_new_stream pq (nsh_new_stream_handle h)"
  "nsf_new_stream_handle (new_stream_with_hello pq h m) = h"
  "nsf_peer_identifier (new_stream_with_hello pq h m) = nsh_peer_identifier h"
  "nsf_stream_hello (new_stream_with_hello pq h m) = m"
  by (simp_all add: new_stream_with_hello_def new_stream_future_new_def)

section \<open>A framed protocol over a user's stream\<close>

text \<open>
  \<^verbatim>\<open>ProtocolStream<P>\<close>: the framing works on the bytes of the stream below; the fields that say
  where the stream leads are kept aside.
\<close>

record 'p protocol_stream =
  pt_framed :: "'p pstream"
  pt_new_stream_handle :: new_stream_handle
  pt_peer_identifier :: peer_id
  pt_is_proxy_stream :: bool

text \<open>\<^verbatim>\<open>impl Into<ProtocolStream<P>> for Stream\<close> and back.\<close>

definition protocol_stream_new :: "'p codec \<Rightarrow> hp_stream \<Rightarrow> 'p protocol_stream" where
  "protocol_stream_new cd s = \<lparr>pt_framed = pstream_new cd (st_stream s), pt_new_stream_handle = st_new_stream_handle s,
     pt_peer_identifier = st_peer_identifier s, pt_is_proxy_stream = st_is_proxy_stream s\<rparr>"

definition stream_from_protocol :: "'p protocol_stream \<Rightarrow> hp_stream" where
  "stream_from_protocol p = \<lparr>st_stream = reinsert_data (ps_read_buf (pt_framed p)) (ps_io (pt_framed p)),
     st_new_stream_handle = pt_new_stream_handle p, st_peer_identifier = pt_peer_identifier p,
     st_is_proxy_stream = pt_is_proxy_stream p\<rparr>"

text \<open>\<^verbatim>\<open>impl Into<strategies::Stream> for Stream\<close> gives up the fields.\<close>

definition strat_from_stream :: "hp_stream \<Rightarrow> strat_stream" where
  "strat_from_stream s = st_stream s"

definition pt_poll :: "'p protocol_stream \<Rightarrow> ('p option, error) poll \<times> 'p protocol_stream" where
  "pt_poll p = (case ps_poll (pt_framed p) of (r, f) \<Rightarrow> (r, p\<lparr>pt_framed := f\<rparr>))"

definition pt_send :: "('p \<Rightarrow> frame) \<Rightarrow> 'p \<Rightarrow> 'p protocol_stream \<Rightarrow> (error + unit) \<times> 'p protocol_stream" where
  "pt_send to_frame m p = (case ps_send to_frame m (pt_framed p) of (r, f) \<Rightarrow> (r, p\<lparr>pt_framed := f\<rparr>))"

text \<open>Polls and messages sent, in any order.\<close>

datatype 'p pt_op = PtPoll | PtSend 'p

fun pt_run :: "('p \<Rightarrow> frame) \<Rightarrow> 'p pt_op list \<Rightarrow> 'p protocol_stream \<Rightarrow> 'p protocol_stream" where
  "pt_run to_frame [] p = p"
| "pt_run to_frame (PtPoll # ops) p = pt_run to_frame ops (snd (pt_poll p))"
| "pt_run to_frame (PtSend m # ops) p = pt_run to_frame ops (snd (pt_send to_frame m p))"

lemma stream_from_protocol_strat: "st_stream (stream_from_protocol p) = strat_from_pstream (pt_framed p)"
  by (simp add: stream_from_protocol_def strat_from_pstream_def)

lemma ps_send_pending: "ps_send to_frame m p = (r, p') \<Longrightarrow> ps_pending p' = ps_pending p"
  by (auto simp: ps_send_def ps_start_send_def ps_poll_complete_def ps_pending_def ss_pending_def io_append_def Let_def
      split: sum.splits async.splits bool.splits)

text \<open>The bytes the framing uses up on the way.\<close>

fun pt_used :: "('p \<Rightarrow> frame) \<Rightarrow> 'p pt_op list \<Rightarrow> 'p protocol_stream \<Rightarrow> bytes" where
  "pt_used to_frame [] p = []"
| "pt_used to_frame (PtPoll # ops) p = ps_used (pt_framed p) @ pt_used to_frame ops (snd (pt_poll p))"
| "pt_used to_frame (PtSend m # ops) p = pt_used to_frame ops (snd (pt_send to_frame m p))"

lemma pt_run_keeps:
  "ps_pending (pt_framed p) = pt_used to_frame ops p @ ps_pending (pt_framed (pt_run to_frame ops p)) \<and>
     pt_new_stream_handle (pt_run to_frame ops p) = pt_new_stream_handle p \<and>
     pt_peer_identifier (pt_run to_frame ops p) = pt_peer_identifier p \<and>
     pt_is_proxy_stream (pt_run to_frame ops p) = pt_is_proxy_stream p"
proof (induction to_frame ops p rule: pt_run.induct)
  case (2 to_frame ops p)
  obtain r f where poll: "ps_poll (pt_framed p) = (r, f)" by force
  with ps_poll_pending [OF poll] 2 show ?case by (simp add: pt_poll_def)
next
  case (3 to_frame m ops p)
  obtain r f where send: "ps_send to_frame m (pt_framed p) = (r, f)" by force
  with ps_send_pending [OF send] 3 show ?case by (simp add: pt_send_def)
qed simp

section \<open>The user's stream as a byte source\<close>

definition st_pending :: "hp_stream \<Rightarrow> bytes" where
  "st_pending s = ss_pending (st_stream s)"

definition st_live :: "hp_stream \<Rightarrow> bool" where
  "st_live s = ss_live (st_stream s)"

lemma st_readD: "st_read dbg buf s = (r, buf', s') \<Longrightarrow>
    ss_read dbg buf (st_stream s) = (r, buf', st_stream s')"
  by (auto simp: st_read_def split: prod.splits)

lemma st_pollD: "st_poll s = (p, s') \<Longrightarrow> ss_poll (st_stream s) = (p, st_stream s')"
  by (auto simp: st_poll_def split: prod.splits)

interpretation st: byte_source st_pending st_live "st_read dbg" st_poll st_reinsert_data for dbg
proof unfold_locales
  fix buf s and r :: "io_error + nat" and buf' s'
  assume rd: "st_read dbg buf s = (r, buf', s')"
  note ss = st_readD [OF rd]
  show "st_pending s = take (read_count r) buf' @ st_pending s'"
    using ss.read_conserves [OF ss] by (simp add: st_pending_def)
  show "read_count r \<le> length buf \<and> length buf' = length buf \<and>
      drop (read_count r) buf' = drop (read_count r) buf"
    by (rule ss.read_frame [OF ss])
  show "st_live s' \<and> 0 < read_count r" if "st_live s" "st_pending s \<noteq> []" "buf \<noteq> []"
    using ss_read_progress [OF _ _ that(3) ss] that by (simp add: st_live_def st_pending_def)
next
  fix s p s'
  assume "st_poll s = (p, s')"
  from ss_poll_conserves [OF st_pollD [OF this]]
  show "st_pending s = chunk_bytes p @ st_pending s'" by (simp add: st_pending_def)
next
  show "st_pending (st_reinsert_data b s) = b @ st_pending s" for b s
    by (simp add: st_pending_def st_reinsert_data_def reinsert_pending)
qed

section \<open>Concrete values\<close>

text \<open>Inputs on which the theorems of the development are evaluated.\<close>

definition demo_pq_stream :: "(bytes option, string) tape \<Rightarrow> pq_stream" where
  "demo_pq_stream t = \<lparr>pqs_in = t, pqs_accepts = (\<lambda>_. Ok True), pqs_flushes = (\<lambda>_. Ok (Ready ())),
     pqs_calls = 0, pqs_out = [], pqs_local = SocketAddrV4 167772161 7000,
     pqs_peer = SocketAddrV4 167772162 8000, pqs_channel_size = None\<rparr>"

definition demo_stream :: "(bytes option, string) tape \<Rightarrow> strat_stream" where
  "demo_stream t = ss_new (stream_wrapper_new (demo_pq_stream t) (PqStreamHandle 7) 7)"

definition prompt_codec :: "('p option, error) tape \<Rightarrow> 'p codec" where
  "prompt_codec ms = \<lparr>cd_msgs = (\<lambda>_. ms), cd_reads = (\<lambda>_. []), cd_used = (\<lambda>_. 0),
     cd_accepts = (\<lambda>_. Ok True), cd_flushes = (\<lambda>_. Ok (Ready ()))\<rparr>"

definition demo_handle :: "peer_id \<Rightarrow> peer_id \<Rightarrow> new_stream_handle" where
  "demo_handle peer local =
     new_stream_handle_new peer local \<lparr>nsw_new_stream = PqStreamHandle 7, nsw_con_id = 7\<rparr>"

definition demo_picoquic :: picoquic where
  "demo_picoquic = \<lparr>open_bidirectional = (\<lambda>_. [Ok (Ready (demo_pq_stream []))]), dial = (\<lambda>_ _. [])\<rparr>"

lemma prompt_codec_prompt [simp]: "prompt_sink (prompt_codec ms)"
  by (simp add: prompt_sink_def prompt_codec_def)

lemma prompt_codec_msgs [simp]: "cd_msgs (prompt_codec ms) s = ms"
  by (simp add: prompt_codec_def)

lemmas demo_defs = demo_pq_stream_def demo_stream_def demo_handle_def demo_picoquic_def

section \<open>Properties\<close>

text \<open>
  C25. A user stream delivers its bytes unchanged, in order and without gaps, however reads with
  buffers of any size and polls for chunks are mixed: what was handed out, followed by what is
  still to come, is what was there.
\<close>

theorem stream_delivers_bytes:
  assumes "consume (st_read dbg) st_poll ops s = (out, s')"
  shows "st_pending s = out @ st_pending s'"
  using assms by (rule st.consume_conserves)

theorem stream_delivers_bytes_witness:
  "\<exists>out s'. consume (st_read (\<lambda>_. [])) st_poll [ReadInto [0, 0], PollChunk]
      (stream_new (demo_stream [Ok (Ready (Some [1, 2, 3])), Ok (Ready (Some [4]))]) [2] (demo_handle [2] [1]) False) =
      (out, s') \<and> [1, 2, 3, 4] = out @ st_pending s'"
proof -
  let ?s = "stream_new (demo_stream [Ok (Ready (Some [1, 2, 3])), Ok (Ready (Some [4]))]) [2] (demo_handle [2] [1]) False"
  obtain out s' where run: "consume (st_read (\<lambda>_. [])) st_poll [ReadInto [0, 0], PollChunk] ?s = (out, s')" by force
  have "st_pending ?s = [1, 2, 3, 4]"
    by (simp add: st_pending_def ss_pending_def demo_defs ss_new_def stream_wrapper_new_def)
  with stream_delivers_bytes [OF run] run show ?thesis by auto
qed

text \<open>
  C28. A stream switches protocols without losing bytes: after any number of polls of the framing,
  the stream that is made of a framed stream delivers exactly the bytes the framing has not used:
  those it used, followed by those the new stream delivers, are those the old stream had to
  deliver. For a user's stream this holds however messages are read and sent, and the stream
  that comes back leads to the same peer.
\<close>

theorem protocol_switch_keeps_bytes:
  "ss_pending io = ps_used_n n (pstream_new cd io) @
      st_pending (stream_new (strat_from_pstream (ps_polls_n n (pstream_new cd io))) peer h proxied) \<and>
   (let s' = stream_from_protocol (pt_run to_frame ops (protocol_stream_new cd' s)) in
      st_pending s = pt_used to_frame ops (protocol_stream_new cd' s) @ st_pending s' \<and>
      st_new_stream_handle s' = st_new_stream_handle s \<and> st_peer_identifier s' = st_peer_identifier s \<and>
      st_is_proxy_stream s' = st_is_proxy_stream s)"
proof -
  let ?p = "pt_run to_frame ops (protocol_stream_new cd' s)"
  have "ss_pending io = ps_used_n n (pstream_new cd io) @
      st_pending (stream_new (strat_from_pstream (ps_polls_n n (pstream_new cd io))) peer h proxied)"
    using ps_polls_n_pending [of "pstream_new cd io" n] by (simp add: st_pending_def ps_pending_def)
  moreover have "st_pending (stream_from_protocol ?p) = ps_pending (pt_framed ?p)"
    by (simp add: st_pending_def stream_from_protocol_strat)
  moreover have "ps_pending (pt_framed (protocol_stream_new cd' s)) = st_pending s"
    by (simp add: protocol_stream_new_def ps_pending_def st_pending_def)
  ultimately show ?thesis
    using pt_run_keeps [of "protocol_stream_new cd' s" to_frame ops]
    by (auto simp: stream_from_protocol_def protocol_stream_new_def Let_def)
qed

text \<open>
  Opening a stream: the peer is greeted with the hello message first; a stream opened through
  a peer in the middle is labelled with the peer it leads to and as proxied, any other stream
  with the peer of the connection; and streams opened from its handle get the same labels.
\<close>

theorem new_stream_greets:
  assumes "nsf_new_stream f = Ok (Ready v) # t" "prompt_sink cd"
  shows "\<exists>s f'. new_stream_poll cd f = Some (Ok (Ready s), f') \<and>
    io_out (st_stream s) = io_out v @ [HelloFrame (nsf_stream_hello f)] \<and> st_pending s = ss_pending v \<and>
    (st_peer_identifier s, st_is_proxy_stream s) = hello_target (nsf_peer_identifier f) (nsf_stream_hello f) \<and>
    stream_wf s"
  using assms
  by (simp add: new_stream_poll_def Let_def ps_send_prompt st_pending_def ps_pending_def split: prod.splits)

theorem new_stream_greets_witness:
  "\<exists>s f'. new_stream_poll (prompt_codec []) (new_stream demo_picoquic (set_proxy_stream True [5] (demo_handle [2] [1]))) =
      Some (Ok (Ready s), f') \<and> io_out (st_stream s) = [HelloFrame (UserProxy [5])] \<and>
      st_peer_identifier s = [5] \<and> \<not> is_p2p s"
proof -
  let ?f = "new_stream demo_picoquic (set_proxy_stream True [5] (demo_handle [2] [1]))"
  obtain v t where "nsf_new_stream ?f = Ok (Ready v) # t" "io_out v = []"
    by (simp add: set_proxy_stream_def demo_defs handle_new_stream_def ss_new_def stream_wrapper_new_def io_out_def
        new_stream_handle_new_def)
  with new_stream_greets [of ?f v t "prompt_codec []"] show ?thesis
    by (auto simp: set_proxy_stream_def hello_target_def is_p2p_def)
qed

text \<open>
  C39. The hello message can get lost: when the framed sink takes it but cannot flush it at once,
  the answer is ignored and the framed stream is taken apart with the message in its write
  buffer. The stream is returned as ready, and the peer never sees who is calling.
\<close>

theorem new_stream_hello_lost:
  assumes "nsf_new_stream f = Ok (Ready v) # t" "cd_accepts cd 0 = Ok True" "cd_flushes cd 1 = Ok NotReady"
  shows "\<exists>s f'. new_stream_poll cd f = Some (Ok (Ready s), f') \<and> io_out (st_stream s) = io_out v"
  using assms
  by (simp add: new_stream_poll_def Let_def ps_send_def ps_start_send_def ps_poll_complete_def split: prod.splits)

theorem new_stream_hello_lost_witness:
  "\<exists>s f'. new_stream_poll ((prompt_codec [])\<lparr>cd_flushes := \<lambda>_. Ok NotReady\<rparr>)
      (new_stream demo_picoquic (demo_handle [2] [1])) = Some (Ok (Ready s), f') \<and> io_out (st_stream s) = []"
proof -
  let ?f = "new_stream demo_picoquic (demo_handle [2] [1])"
  obtain v t where "nsf_new_stream ?f = Ok (Ready v) # t" "io_out v = []"
    by (simp add: demo_defs handle_new_stream_def ss_new_def stream_wrapper_new_def io_out_def new_stream_handle_new_def)
  with new_stream_hello_lost [of ?f v t "(prompt_codec [])\<lparr>cd_flushes := \<lambda>_. Ok NotReady\<rparr>"] show ?thesis
    by (simp add: prompt_codec_def)
qed

end
