(* ===== verification/Registry.thy ===== *)
theory Registry
  imports Streams
begin

text \<open>
  \<^verbatim>\<open>registry.rs\<close>: the table of connected peers with its registration tokens, the search of the
  other registries, and the contract a component that registers peers relies on. The outer
  \<^verbatim>\<open>Registry\<close> is an \<^verbatim>\<open>Arc<Mutex<Inner>>\<close> whose methods lock and forward; a step of the model is
  one such locked call. The registry providers are kept abstract (type \<open>'prov\<close>): a search
  hands the request to each of them.
\<close>

section \<open>The table of connected peers\<close>

type_synonym registration_token = u64

datatype registry_result =
    RFound hp_stream
  | FoundWithHandle new_stream_handle
  | FoundRemote new_stream_handle
  | RNotFound

record 'prov inner =
  connected_peers :: "peer_id \<rightharpoonup> (new_stream_handle \<times> registration_token)"
  registries :: "'prov list"

definition inner_new :: "'prov inner" where
  "inner_new = \<lparr>connected_peers = Map.empty, registries = []\<rparr>"

definition inner_peer :: "'prov inner \<Rightarrow> peer_id \<Rightarrow> new_stream_handle option" where
  "inner_peer r peer = map_option fst (connected_peers r peer)"

definition has_peer :: "'prov inner \<Rightarrow> peer_id \<Rightarrow> bool" where
  "has_peer r peer = (connected_peers r peer \<noteq> None)"

text \<open>The token arithmetic is that of a release build: it wraps at 64 bits.\<close>

definition register_peer ::
  "peer_id \<Rightarrow> new_stream_handle \<Rightarrow> 'prov inner \<Rightarrow> registration_token \<times> 'prov inner" where
  "register_peer peer h r = (case connected_peers r peer of
     Some (_, old) \<Rightarrow> (let token = old + 1 in
       (token, r\<lparr>connected_peers := (connected_peers r)(peer \<mapsto> (h, token))\<rparr>))
   | None \<Rightarrow> (0, r\<lparr>connected_peers := (connected_peers r)(peer \<mapsto> (h, 0))\<rparr>))"

definition unregister_peer :: "peer_id \<Rightarrow> registration_token \<Rightarrow> 'prov inner \<Rightarrow> 'prov inner" where
  "unregister_peer peer token r = (case connected_peers r peer of
     Some (_, t) \<Rightarrow> if t = token then r\<lparr>connected_peers := (connected_peers r)(peer := None)\<rparr> else r
   | None \<Rightarrow> r)"

definition add_registry_provider :: "'prov \<Rightarrow> 'prov inner \<Rightarrow> 'prov inner" where
  "add_registry_provider provider r = r\<lparr>registries := registries r @ [provider]\<rparr>"

definition context_being_dropped :: "'prov inner \<Rightarrow> 'prov inner" where
  "context_being_dropped r = r\<lparr>registries := []\<rparr>"

section \<open>Searching\<close>

type_synonym search_remote_registries = "(registry_result, unit) futures_unordered"

text \<open>\<^verbatim>\<open>SearchRemoteRegistries::new\<close> over an iterator of futures.\<close>

definition search_new :: "'fut list \<Rightarrow> search_remote_registries" where
  "search_new futs = futures_unordered_new (length futs)"

function search_poll ::
  "search_remote_registries \<Rightarrow> (registry_result, unit) poll \<times> search_remote_registries" where
  "search_poll s = (case fu_poll s of
     (Ok (Ready (Some res)), s') \<Rightarrow> (case res of
        RNotFound \<Rightarrow> search_poll s'
      | r \<Rightarrow> (Ok (Ready r), s'))
   | (Ok (Ready None), s') \<Rightarrow> (Ok (Ready RNotFound), s')
   | (Err _, s') \<Rightarrow> search_poll s'
   | (Ok NotReady, s') \<Rightarrow> (Ok NotReady, s'))"
  by pat_completeness auto
termination
  by (relation "measure (\<lambda>s. length (fu_done s))")
    (auto simp: fu_poll_def split: list.splits sum.splits if_splits)

declare search_poll.simps [simp del]

text \<open>
  \<^verbatim>\<open>find_peer\<close> of the registry: an answer at hand, or a search in which every provider was asked;
  \<open>ask\<close> hands the request to one provider.
\<close>

datatype find_future =
    FindOk registry_result
  | FindSearch search_remote_registries

definition find_peer ::
  "(peer_id \<Rightarrow> 'prov \<Rightarrow> 'prov) \<Rightarrow> peer_id \<Rightarrow> 'prov inner \<Rightarrow> find_future \<times> 'prov inner" where
  "find_peer ask peer r = (case connected_peers r peer of
     Some (h, _) \<Rightarrow> (FindOk (FoundWithHandle h), r)
   | None \<Rightarrow> (FindSearch (search_new (registries r)), r\<lparr>registries := map (ask peer) (registries r)\<rparr>))"

fun find_poll :: "find_future \<Rightarrow> (registry_result, unit) poll \<times> find_future" where
  "find_poll (FindOk res) = (Ok (Ready res), FindOk res)"
| "find_poll (FindSearch s) = (case search_poll s of (p, s') \<Rightarrow> (p, FindSearch s'))"

section \<open>Lemmas on the table\<close>

lemma inner_peer_new [simp]: "inner_peer inner_new p = None"
  by (simp add: inner_peer_def inner_new_def)

lemma has_peer_iff: "has_peer r p \<longleftrightarrow> inner_peer r p \<noteq> None"
  by (simp add: has_peer_def inner_peer_def)

definition token_of :: "'prov inner \<Rightarrow> peer_id \<Rightarrow> registration_token option" where
  "token_of r p = map_option snd (connected_peers r p)"

lemma token_of_None: "token_of r p = None \<longleftrightarrow> inner_peer r p = None"
  by (simp add: token_of_def inner_peer_def)

lemma register_token:
  "fst (register_peer p h r) = (case token_of r p of None \<Rightarrow> 0 | Some t \<Rightarrow> t + 1)"
  by (simp add: register_peer_def token_of_def Let_def split: option.splits prod.splits)

lemma register_entry:
  "connected_peers (snd (register_peer p h r)) = (connected_peers r)(p \<mapsto> (h, fst (register_peer p h r)))"
  by (simp add: register_peer_def Let_def split: option.splits prod.splits)

lemma unregister_entry:
  "connected_peers (unregister_peer p t r) =
     (if token_of r p = Some t then (connected_peers r)(p := None) else connected_peers r)"
  by (auto simp: unregister_peer_def token_of_def split: option.splits prod.splits)

lemma register_registries [simp]: "registries (snd (register_peer p h r)) = registries r"
  by (simp add: register_peer_def Let_def split: option.splits prod.splits)

lemma unregister_registries [simp]: "registries (unregister_peer p t r) = registries r"
  by (simp add: unregister_peer_def split: option.splits prod.splits)

section \<open>The contract of a registry\<close>

text \<open>
  What connections rely on: a registration is found under its peer and is current under its
  token, other peers are untouched, only the current token removes an entry.
\<close>

locale peer_registry =
  fixes lookup :: "'r \<Rightarrow> 'k \<Rightarrow> 'h option"
    and current :: "'r \<Rightarrow> 'k \<Rightarrow> 't option"
    and register :: "'k \<Rightarrow> 'h \<Rightarrow> 'r \<Rightarrow> 't \<times> 'r"
    and unregister :: "'k \<Rightarrow> 't \<Rightarrow> 'r \<Rightarrow> 'r"
  assumes current_lookup: "current r p = None \<longleftrightarrow> lookup r p = None"
    and lookup_register: "register p h r = (t, r') \<Longrightarrow> lookup r' = (lookup r)(p \<mapsto> h)"
    and current_register: "register p h r = (t, r') \<Longrightarrow> current r' = (current r)(p \<mapsto> t)"
    and register_fresh: "register p h r = (t, r') \<Longrightarrow> current r p \<noteq> Some t"
    and lookup_unregister:
      "lookup (unregister p t r) = (if current r p = Some t then (lookup r)(p := None) else lookup r)"
    and current_unregister:
      "current (unregister p t r) = (if current r p = Some t then (current r)(p := None) else current r)"
begin

text \<open>
  The clients as seen by the registry: each registers a peer once and gives its own token back
  when it ends. A client is a peer, its handle and its token; they come and go in any order.
\<close>

inductive clients :: "'r \<Rightarrow> ('k \<times> 'h \<times> 't) multiset \<Rightarrow> 'r \<Rightarrow> bool" for r0 where
  start: "clients r0 {#} r0"
| opened: "clients r0 cs r \<Longrightarrow> register p h r = (t, r') \<Longrightarrow> clients r0 (add_mset (p, h, t) cs) r'"
| closed: "clients r0 (add_mset (p, h, t) cs) r \<Longrightarrow> clients r0 cs (unregister p t r)"

text \<open>Every entry that was not there at the start belongs to a client that has not ended.\<close>

lemma entry_has_client:
  assumes "clients r0 cs r" and "\<And>p. lookup r0 p = None"
  shows "lookup r p = Some h \<Longrightarrow> \<exists>t. current r p = Some t \<and> (p, h, t) \<in># cs"
  using assms
proof (induction arbitrary: p h rule: clients.induct)
  case start
  then show ?case by simp
next
  case (opened cs r q g t r')
  note reg = lookup_register [OF opened.hyps(2)] current_register [OF opened.hyps(2)]
  show ?case
  proof (cases "p = q")
    case True
    with opened.prems reg show ?thesis by auto
  next
    case False
    with opened.prems reg have "lookup r p = Some h" by simp
    with opened.IH opened.prems False reg show ?thesis by fastforce
  qed
next
  case (closed q g t cs r)
  have "lookup r p = Some h"
    using closed.prems(1) by (auto simp: lookup_unregister split: if_splits)
  with closed.IH closed.prems(2) obtain t' where t': "current r p = Some t'" "(p, h, t') \<in># add_mset (q, g, t) cs"
    by blast
  show ?case
  proof (cases "current r q = Some t \<and> p = q")
    case True
    with closed.prems(1) show ?thesis by (simp add: lookup_unregister)
  next
    case False
    with t' show ?thesis by (auto simp: current_unregister)
  qed
qed

text \<open>A token that is not the current one removes nothing.\<close>

lemma stale_unregister: "current r p \<noteq> Some t \<Longrightarrow> lookup (unregister p t r) = lookup r"
  by (simp add: lookup_unregister)

lemma own_unregister:
  "register p h r = (t, r') \<Longrightarrow> lookup (unregister p t r') = (lookup r)(p := None)"
  by (simp add: lookup_unregister lookup_register current_register)

text \<open>The token of an entry that was overwritten is stale at once.\<close>

lemma overwritten_is_stale:
  assumes "register p h r = (t, r')" and "register p h' r' = (t', r'')"
  shows "lookup (unregister p t r'') p = Some h'"
proof -
  have "t' \<noteq> t"
    using register_fresh [OF assms(2)] current_register [OF assms(1)] by simp
  then show ?thesis
    using assms(2) by (simp add: lookup_unregister lookup_register current_register)
qed

end

interpretation reg: peer_registry inner_peer token_of register_peer unregister_peer
proof unfold_locales
  fix r :: "'a inner" and p h t r'
  show "token_of r p = None \<longleftrightarrow> inner_peer r p = None" by (rule token_of_None)
  assume reg: "register_peer p h r = (t, r')"
  then have entry: "connected_peers r' = (connected_peers r)(p \<mapsto> (h, t))"
    using register_entry [of p h r] by simp
  then show "inner_peer r' = (inner_peer r)(p \<mapsto> h)" "token_of r' = (token_of r)(p \<mapsto> t)"
    by (simp_all add: inner_peer_def token_of_def fun_eq_iff)
  show "token_of r p \<noteq> Some t"
    using register_token [of p h r] reg by (cases "token_of r p") auto
next
  fix r :: "'a inner" and p t
  show "inner_peer (unregister_peer p t r) =
      (if token_of r p = Some t then (inner_peer r)(p := None) else inner_peer r)"
    "token_of (unregister_peer p t r) =
      (if token_of r p = Some t then (token_of r)(p := None) else token_of r)"
    by (auto simp: inner_peer_def token_of_def unregister_entry fun_eq_iff)
qed

section \<open>Tokens along a run\<close>

text \<open>
  Registrations of one peer while it stays registered: each of the following ones adds one to
  the token, so that tokens repeat only after \<open>2 ^ 64\<close> of them.
\<close>

fun register_all :: "peer_id \<Rightarrow> new_stream_handle list \<Rightarrow> 'prov inner \<Rightarrow> 'prov inner" where
  "register_all p [] r = r"
| "register_all p (h # hs) r = register_all p hs (snd (register_peer p h r))"

lemma register_all_token:
  "token_of r p = Some t \<Longrightarrow> token_of (register_all p hs r) p = Some (t + of_nat (length hs))"
proof (induction hs arbitrary: r t)
  case Nil
  then show ?case by simp
next
  case (Cons h hs)
  then have "token_of (snd (register_peer p h r)) p = Some (t + 1)"
    using register_token [of p h r] by (auto simp: token_of_def register_entry)
  from Cons.IH [OF this] show ?case by (simp add: algebra_simps)
qed

lemma register_all_lookup:
  "hs \<noteq> [] \<Longrightarrow> inner_peer (register_all p hs r) p = Some (last hs)"
proof (induction hs arbitrary: r)
  case (Cons h hs)
  show ?case
  proof (cases "hs = []")
    case True
    then show ?thesis by (simp add: inner_peer_def register_entry)
  qed (use Cons in simp)
qed simp

lemma of_nat_u64_neq_0: "0 < n \<Longrightarrow> n < 2 ^ 64 \<Longrightarrow> (of_nat n :: u64) \<noteq> 0"
  by (auto simp: word_of_nat_eq_0_iff dest: nat_dvd_not_less)

section \<open>What a search returns\<close>

fun search_hit :: "unit + registry_result \<Rightarrow> bool" where
  "search_hit (Err _) = False"
| "search_hit (Ok r) = (r \<noteq> RNotFound)"

lemma search_poll_miss:
  "fu_done s = d # ds \<Longrightarrow> \<not> search_hit d \<Longrightarrow> search_poll s = search_poll (s\<lparr>fu_done := ds\<rparr>)"
  by (subst search_poll.simps) (cases d; auto split: registry_result.splits)

lemma search_poll_hit:
  "fu_done s = Ok r # ds \<Longrightarrow> r \<noteq> RNotFound \<Longrightarrow> search_poll s = (Ok (Ready r), s\<lparr>fu_done := ds\<rparr>)"
  by (subst search_poll.simps) (auto split: registry_result.splits)

lemma search_poll_empty:
  "fu_done s = [] \<Longrightarrow> search_poll s = (Ok (if fu_pending s = 0 then Ready RNotFound else NotReady), s)"
  by (subst search_poll.simps) simp

lemma search_poll_first_hit:
  "fst (search_poll s) = (case find search_hit (fu_done s) of
     Some (Ok r) \<Rightarrow> Ok (Ready r)
   | _ \<Rightarrow> Ok (if fu_pending s = 0 then Ready RNotFound else NotReady))"
proof (induction "fu_done s" arbitrary: s)
  case Nil
  then show ?case by (simp add: search_poll_empty)
next
  case (Cons d ds)
  show ?case
  proof (cases "search_hit d")
    case True
    then obtain r where "d = Ok r" "r \<noteq> RNotFound" by (cases d) auto
    with Cons show ?thesis by (simp add: search_poll_hit flip: Cons.hyps(2))
  next
    case False
    then show ?thesis
      using Cons.hyps(1) [of "s\<lparr>fu_done := ds\<rparr>"] search_poll_miss [OF Cons.hyps(2) [symmetric] False]
      by (simp flip: Cons.hyps(2))
  qed
qed

lemma find_poll_search: "fst (find_poll (FindSearch s)) = fst (search_poll s)"
  by (simp split: prod.splits)

text \<open>A search over \<open>regs\<close> after the answers \<open>rs\<close> have come in.\<close>

lemma find_poll_answers:
  assumes "length rs \<le> length regs"
  shows "fst (find_poll (FindSearch (fold fu_complete rs (search_new regs)))) = (case find search_hit rs of
      Some (Ok x) \<Rightarrow> Ok (Ready x)
    | _ \<Rightarrow> Ok (if length rs = length regs then Ready RNotFound else NotReady))"
  using assms
  by (auto simp: find_poll_search search_new_def futures_unordered_new_def fold_fu_complete
      search_poll_first_hit simp del: find_poll.simps cong: option.case_cong)

section \<open>Properties\<close>

definition demo_reg_handle :: "nat \<Rightarrow> new_stream_handle" where
  "demo_reg_handle n = demo_handle [of_nat n] [1]"

text \<open>
  C24. A connection that ends does not take the peer away from the connections that came after it:
  while the peer stays registered, a token gives nothing up once it was overwritten, for up to
  \<open>2 ^ 64 - 1\<close> later registrations, and the last registration stays in force.
\<close>

theorem stale_token_harmless:
  assumes "register_peer p h r = (t, r')" "hs \<noteq> []" "length hs < 2 ^ 64"
  shows "inner_peer (unregister_peer p t (register_all p hs r')) p = Some (last hs)"
proof -
  have "token_of r' p = Some t" using reg.current_register [OF assms(1)] by simp
  from register_all_token [OF this] have "token_of (register_all p hs r') p \<noteq> Some t"
    using of_nat_u64_neq_0 [of "length hs"] assms(2,3) by simp
  then show ?thesis
    using reg.stale_unregister register_all_lookup [OF assms(2)] by metis
qed

theorem stale_token_harmless_witness:
  "inner_peer (unregister_peer [2] (fst (register_peer [2] (demo_reg_handle 0) (inner_new :: unit inner)))
     (register_all [2] [demo_reg_handle 1, demo_reg_handle 2]
        (snd (register_peer [2] (demo_reg_handle 0) (inner_new :: unit inner))))) [2] = Some (demo_reg_handle 2)"
  using stale_token_harmless [of "[2]" "demo_reg_handle 0" "inner_new :: unit inner" _ _
      "[demo_reg_handle 1, demo_reg_handle 2]", OF surjective_pairing]
  by simp

text \<open>
  C40. The token does not survive a gap: when the newest connection of a peer ends first, the next
  registration starts again at the first token, and the end of the oldest connection then
  removes the entry of a connection that is alive.
\<close>

theorem token_reuse:
  assumes "inner_peer r p = None" "register_peer p h1 r = (t1, r1)" "register_peer p h2 r1 = (t2, r2)"
    and "register_peer p h3 (unregister_peer p t2 r2) = (t3, r3)"
  shows "t3 = t1 \<and> inner_peer r3 p = Some h3 \<and> inner_peer (unregister_peer p t1 r3) p = None"
proof -
  have "token_of r p = None" using assms(1) by (simp add: token_of_None)
  then have "t1 = 0" using register_token [of p h1 r] assms(2) by simp
  moreover have "token_of (unregister_peer p t2 r2) p = None"
    by (simp add: reg.current_unregister reg.current_register [OF assms(3)])
  then have "t3 = 0" using register_token [of p h3 "unregister_peer p t2 r2"] assms(4) by simp
  ultimately show ?thesis
    using reg.own_unregister [OF assms(4)] reg.lookup_register [OF assms(4)] by simp
qed

theorem token_reuse_witness:
  "\<exists>t1 r1 t2 r2 t3 r3. register_peer [2] (demo_reg_handle 0) (inner_new :: unit inner) = (t1, r1) \<and>
     register_peer [2] (demo_reg_handle 1) r1 = (t2, r2) \<and>
     register_peer [2] (demo_reg_handle 2) (unregister_peer [2] t2 r2) = (t3, r3) \<and>
     inner_peer r3 [2] = Some (demo_reg_handle 2) \<and> inner_peer (unregister_peer [2] t1 r3) [2] = None"
proof -
  obtain t1 r1 where 1: "register_peer [2] (demo_reg_handle 0) (inner_new :: unit inner) = (t1, r1)" by force
  obtain t2 r2 where 2: "register_peer [2] (demo_reg_handle 1) r1 = (t2, r2)" by force
  obtain t3 r3 where 3: "register_peer [2] (demo_reg_handle 2) (unregister_peer [2] t2 r2) = (t3, r3)" by force
  from token_reuse [OF _ 1 2 3] 1 2 3 show ?thesis by auto
qed

text \<open>
  Finding a peer that is not connected: every other registry is asked once, the first of them
  to find the peer decides, whatever the order in which they answer, and the peer counts as not
  found only after the last of them has failed to find it.
\<close>

theorem find_peer_asks_all:
  assumes "inner_peer r p = None" "find_peer ask p r = (f, r')"
  shows "\<exists>s. f = FindSearch s \<and> registries r' = map (ask p) (registries r) \<and>
    connected_peers r' = connected_peers r \<and>
    (\<forall>rs. length rs \<le> length (registries r) \<longrightarrow>
       fst (find_poll (FindSearch (fold fu_complete rs s))) = (case find search_hit rs of
          Some (Ok x) \<Rightarrow> Ok (Ready x)
        | _ \<Rightarrow> Ok (if length rs = length (registries r) then Ready RNotFound else NotReady)))"
proof -
  have "f = FindSearch (search_new (registries r))" "r' = r\<lparr>registries := map (ask p) (registries r)\<rparr>"
    using assms by (auto simp: find_peer_def inner_peer_def)
  then show ?thesis by (simp add: find_poll_answers del: find_poll.simps)
qed

theorem find_peer_asks_all_witness:
  "\<exists>s r'. find_peer (\<lambda>p n. Suc n) [2] (inner_new\<lparr>registries := [0, 0 :: nat]\<rparr>) = (FindSearch s, r') \<and>
     registries r' = [1, 1] \<and>
     fst (find_poll (FindSearch (fold fu_complete [Ok RNotFound, Ok (FoundWithHandle (demo_reg_handle 2))] s))) =
       Ok (Ready (FoundWithHandle (demo_reg_handle 2)))"
proof -
  let ?r = "inner_new\<lparr>registries := [0, 0 :: nat]\<rparr>"
  obtain f r' where f: "find_peer (\<lambda>p n. Suc n) [2] ?r = (f, r')" by force
  have none: "inner_peer ?r [2] = None" by (simp add: inner_peer_def inner_new_def)
  obtain s where s: "f = FindSearch s" "registries r' = [1, 1]"
    "\<And>rs. length rs \<le> 2 \<Longrightarrow> fst (find_poll (FindSearch (fold fu_complete rs s))) = (case find search_hit rs of
        Some (Ok x) \<Rightarrow> Ok (Ready x) | _ \<Rightarrow> Ok (if length rs = 2 then Ready RNotFound else NotReady))"
    using find_peer_asks_all [OF none f] by auto
  with f s(3) [of "[Ok RNotFound, Ok (FoundWithHandle (demo_reg_handle 2))]"] show ?thesis by auto
qed

end
