(* ===== verification/Hash_Map.thy ===== *)
theory Hash_Map
  imports Prelude
begin

text \<open>
  \<^verbatim>\<open>std::collections::HashMap\<close> as the code uses it: entries are found by comparing the hash
  and then the key with the key type's own \<^verbatim>\<open>Hash\<close> and \<^verbatim>\<open>Eq\<close>. The locale states what the
  standard library asks of a key type and shows that such a map behaves as a finite map on
  the canonical value of the key. This is what allows the components to use HOL maps on
  peer identifiers.
\<close>

definition same_key :: "('k \<Rightarrow> 'k \<Rightarrow> bool) \<Rightarrow> ('k \<Rightarrow> 'h) \<Rightarrow> 'k \<Rightarrow> 'k \<Rightarrow> bool" where
  "same_key eq hash a b \<longleftrightarrow> hash a = hash b \<and> eq a b"

fun hm_get :: "('k \<Rightarrow> 'k \<Rightarrow> bool) \<Rightarrow> ('k \<Rightarrow> 'h) \<Rightarrow> ('k \<times> 'v) list \<Rightarrow> 'k \<Rightarrow> 'v option" where
  "hm_get eq hash [] k = None"
| "hm_get eq hash ((k', v) # m) k =
     (if same_key eq hash k' k then Some v else hm_get eq hash m k)"

fun hm_insert ::
  "('k \<Rightarrow> 'k \<Rightarrow> bool) \<Rightarrow> ('k \<Rightarrow> 'h) \<Rightarrow> ('k \<times> 'v) list \<Rightarrow> 'k \<Rightarrow> 'v \<Rightarrow> ('k \<times> 'v) list" where
  "hm_insert eq hash [] k v = [(k, v)]"
| "hm_insert eq hash ((k', v') # m) k v =
     (if same_key eq hash k' k then (k', v) # m else (k', v') # hm_insert eq hash m k v)"

definition hm_remove ::
  "('k \<Rightarrow> 'k \<Rightarrow> bool) \<Rightarrow> ('k \<Rightarrow> 'h) \<Rightarrow> ('k \<times> 'v) list \<Rightarrow> 'k \<Rightarrow> ('k \<times> 'v) list" where
  "hm_remove eq hash m k = filter (\<lambda>(k', v). \<not> same_key eq hash k' k) m"

locale hash_key =
  fixes eq :: "'k \<Rightarrow> 'k \<Rightarrow> bool"
    and hash :: "'k \<Rightarrow> 'h"
    and key :: "'k \<Rightarrow> 'c"
    and wf :: "'k \<Rightarrow> bool"
  assumes eq_key: "wf a \<Longrightarrow> wf b \<Longrightarrow> eq a b \<longleftrightarrow> key a = key b"
    and hash_key: "wf a \<Longrightarrow> wf b \<Longrightarrow> key a = key b \<Longrightarrow> hash a = hash b"
begin

definition abs_map :: "('k \<times> 'v) list \<Rightarrow> 'c \<rightharpoonup> 'v" where
  "abs_map m = map_of (map (\<lambda>(k, v). (key k, v)) m)"

definition wf_map :: "('k \<times> 'v) list \<Rightarrow> bool" where
  "wf_map m \<longleftrightarrow> (\<forall>e \<in> set m. wf (fst e))"

lemma same_key_iff: "wf a \<Longrightarrow> wf b \<Longrightarrow> same_key eq hash a b \<longleftrightarrow> key a = key b"
  by (auto simp: same_key_def eq_key dest: hash_key)

lemma wf_map_simps [simp]:
  "wf_map []" "wf_map ((k, v) # m) \<longleftrightarrow> wf k \<and> wf_map m"
  by (auto simp: wf_map_def)

lemma get_abs: "wf_map m \<Longrightarrow> wf k \<Longrightarrow> hm_get eq hash m k = abs_map m (key k)"
  by (induction m) (auto simp: abs_map_def same_key_iff)

lemma insert_wf: "wf_map m \<Longrightarrow> wf k \<Longrightarrow> wf_map (hm_insert eq hash m k v)"
  by (induction m) auto

lemma insert_abs:
  "wf_map m \<Longrightarrow> wf k \<Longrightarrow> abs_map (hm_insert eq hash m k v) = (abs_map m)(key k \<mapsto> v)"
  by (induction m) (auto simp: abs_map_def same_key_iff)

lemma remove_wf: "wf_map m \<Longrightarrow> wf_map (hm_remove eq hash m k)"
  by (auto simp: wf_map_def hm_remove_def)

lemma remove_abs:
  "wf_map m \<Longrightarrow> wf k \<Longrightarrow> abs_map (hm_remove eq hash m k) = (abs_map m)(key k := None)"
  by (induction m) (auto simp: abs_map_def hm_remove_def same_key_iff fun_eq_iff)

lemma get_insert:
  assumes "wf_map m" "wf k" "wf k'"
  shows "hm_get eq hash (hm_insert eq hash m k v) k' = (if eq k k' then Some v else hm_get eq hash m k')"
  using assms by (auto simp: get_abs insert_wf insert_abs eq_key)

lemma get_remove:
  assumes "wf_map m" "wf k" "wf k'"
  shows "hm_get eq hash (hm_remove eq hash m k) k' = (if eq k k' then None else hm_get eq hash m k')"
  using assms by (auto simp: get_abs remove_wf remove_abs eq_key)

end

end
