(* ===== verification/PubKey.thy ===== *)
theory PubKey
  imports Errors Hash_Map
begin

text \<open>
  \<^verbatim>\<open>pubkey.rs\<close>: a hashed public key in a fixed buffer with a length, its constructors,
  equality, hash, order, serialisation and text form. OpenSSL (hashing and key encoding) and
  the hex crate are third-party: their functions are arguments of the definitions that call
  them. A panic of the code (a slice out of range) is \<open>None\<close>.
\<close>

section \<open>The structure\<close>

text \<open>\<^verbatim>\<open>openssl_sys::EVP_MAX_MD_SIZE\<close>, the size of the largest digest OpenSSL makes.\<close>

definition EVP_MAX_MD_SIZE :: nat where
  "EVP_MAX_MD_SIZE = 64"

record pub_key_hash =
  pk_buf :: bytes
  pk_len :: nat
  pk_pub_key :: "bytes option"

text \<open>\<^verbatim>\<open>impl Deref\<close>: the slice \<^verbatim>\<open>&self.buf[..self.len]\<close>.\<close>

definition pk_deref :: "pub_key_hash \<Rightarrow> peer_id" where
  "pk_deref h = take (pk_len h) (pk_buf h)"

text \<open>\<^verbatim>\<open>impl Hash\<close>: what is fed to the hasher, the whole buffer.\<close>

definition pk_hash :: "pub_key_hash \<Rightarrow> bytes" where
  "pk_hash h = pk_buf h"

datatype ordering = Less | Equal | Greater

text \<open>The lexicographic order of slices.\<close>

fun cmp_bytes :: "bytes \<Rightarrow> bytes \<Rightarrow> ordering" where
  "cmp_bytes [] [] = Equal"
| "cmp_bytes [] (_ # _) = Less"
| "cmp_bytes (_ # _) [] = Greater"
| "cmp_bytes (a # as) (b # bs) =
     (if a < b then Less else if b < a then Greater else cmp_bytes as bs)"

definition pk_cmp :: "pub_key_hash \<Rightarrow> pub_key_hash \<Rightarrow> ordering" where
  "pk_cmp a b = cmp_bytes (pk_buf a) (pk_buf b)"

definition pk_partial_cmp :: "pub_key_hash \<Rightarrow> pub_key_hash \<Rightarrow> ordering option" where
  "pk_partial_cmp a b = Some (pk_cmp a b)"

definition pk_eq :: "pub_key_hash \<Rightarrow> pub_key_hash \<Rightarrow> bool" where
  "pk_eq a b =
     (if pk_len a = pk_len b then take (pk_len a) (pk_buf a) = take (pk_len b) (pk_buf b) else False)"

section \<open>Serialisation and text\<close>

text \<open>\<^verbatim>\<open>serialize_bytes(&self.buf[..self.len])\<close>: the bytes handed to the serialiser.\<close>

definition pk_serialize :: "pub_key_hash \<Rightarrow> bytes" where
  "pk_serialize h = take (pk_len h) (pk_buf h)"

definition zero_buf :: bytes where
  "zero_buf = replicate EVP_MAX_MD_SIZE 0"

text \<open>\<^verbatim>\<open>buf[..src.len()].copy_from_slice(src)\<close>.\<close>

definition copy_prefix :: "bytes \<Rightarrow> bytes \<Rightarrow> bytes" where
  "copy_prefix src buf = src @ drop (length src) buf"

definition pk_deserialize :: "bytes \<Rightarrow> string + pub_key_hash" where
  "pk_deserialize vec =
     (if length vec > EVP_MAX_MD_SIZE then Err ''buf is too long''
      else Ok \<lparr>pk_buf = copy_prefix vec zero_buf, pk_len = length vec, pk_pub_key = None\<rparr>)"

definition pk_display :: "(bytes \<Rightarrow> string) \<Rightarrow> pub_key_hash \<Rightarrow> string" where
  "pk_display hex_encode_upper h = hex_encode_upper (take (pk_len h) (pk_buf h))"

definition pk_debug :: "(bytes \<Rightarrow> string) \<Rightarrow> pub_key_hash \<Rightarrow> string" where
  "pk_debug hex_encode_upper h = ''PubKeyHash: '' @ hex_encode_upper (take (pk_len h) (pk_buf h))"

section \<open>Constructors\<close>

definition from_hashed_checked :: "bytes \<Rightarrow> pub_key_hash option" where
  "from_hashed_checked hashed =
     (if length hashed > EVP_MAX_MD_SIZE then None
      else Some \<lparr>pk_buf = copy_prefix hashed zero_buf, pk_len = length hashed, pk_pub_key = None\<rparr>)"

definition from_public_key_der ::
  "(bytes \<Rightarrow> string + bytes) \<Rightarrow> bytes \<Rightarrow> bool \<Rightarrow> (string + pub_key_hash) option" where
  "from_public_key_der sha256 pub_der store_orig =
     (case sha256 pub_der of
        Err e \<Rightarrow> Some (Err e)
      | Ok digest \<Rightarrow> (case from_hashed_checked digest of
          None \<Rightarrow> None
        | Some key \<Rightarrow> Some (Ok (if store_orig then key\<lparr>pk_pub_key := Some pub_der\<rparr> else key))))"

text \<open>\<^verbatim>\<open>public_key_to_der\<close> is the encoder of OpenSSL's \<^verbatim>\<open>PKey\<close>.\<close>

definition from_public_key ::
  "('pkey \<Rightarrow> string + bytes) \<Rightarrow> (bytes \<Rightarrow> string + bytes) \<Rightarrow> 'pkey \<Rightarrow> bool \<Rightarrow>
     (string + pub_key_hash) option" where
  "from_public_key public_key_to_der sha256 orig_key store_orig =
     (case public_key_to_der orig_key of
        Err e \<Rightarrow> Some (Err e)
      | Ok der \<Rightarrow> from_public_key_der sha256 der store_orig)"

definition from_private_key ::
  "('skey \<Rightarrow> string + bytes) \<Rightarrow> (bytes \<Rightarrow> string + bytes) \<Rightarrow> 'skey \<Rightarrow> bool \<Rightarrow>
     (string + pub_key_hash) option" where
  "from_private_key public_key_to_der sha256 orig_key store_orig =
     (case public_key_to_der orig_key of
        Err e \<Rightarrow> Some (Err e)
      | Ok der \<Rightarrow> from_public_key_der sha256 der store_orig)"

text \<open>The length is checked first, so the panic of \<open>from_hashed_checked\<close> shows as \<open>None\<close>.\<close>

definition from_hashed :: "bytes \<Rightarrow> (error + pub_key_hash) option" where
  "from_hashed hashed =
     (if length hashed > EVP_MAX_MD_SIZE then Some (bail ''Size is too long for a hashed value!'')
      else map_option Ok (from_hashed_checked hashed))"

definition from_hashed_hex :: "(string \<Rightarrow> string + bytes) \<Rightarrow> string \<Rightarrow> (error + pub_key_hash) option" where
  "from_hashed_hex hex_decode hashed =
     (case hex_decode hashed of
        Err e \<Rightarrow> Some (Err (error_from_hex e))
      | Ok buf \<Rightarrow> from_hashed buf)"

definition from_x509_pem ::
  "(bytes \<Rightarrow> string + 'cert) \<Rightarrow> ('cert \<Rightarrow> string + 'pkey) \<Rightarrow> ('pkey \<Rightarrow> string + bytes) \<Rightarrow>
     (bytes \<Rightarrow> string + bytes) \<Rightarrow> bytes \<Rightarrow> bool \<Rightarrow> (error + pub_key_hash) option" where
  "from_x509_pem x509_from_pem cert_public_key public_key_to_der sha256 pem store_orig =
     (case x509_from_pem pem of
        Err e \<Rightarrow> Some (Err (error_from_openssl e))
      | Ok cert \<Rightarrow> (case cert_public_key cert of
          Err e \<Rightarrow> Some (Err (error_from_openssl e))
        | Ok key \<Rightarrow> map_option (map_err error_from_openssl)
            (from_public_key public_key_to_der sha256 key store_orig)))"

definition pk_public_key :: "(bytes \<Rightarrow> string + 'pkey) \<Rightarrow> pub_key_hash \<Rightarrow> error + 'pkey option" where
  "pk_public_key public_key_from_der h = (case pk_pub_key h of
     Some der \<Rightarrow> (case public_key_from_der der of
        Err e \<Rightarrow> Err (error_from_openssl e)
      | Ok k \<Rightarrow> Ok (Some k))
   | None \<Rightarrow> Ok None)"

definition pk_public_key_der :: "pub_key_hash \<Rightarrow> bytes option" where
  "pk_public_key_der h = pk_pub_key h"

section \<open>Well-formedness\<close>

text \<open>The buffer has its fixed size, the length fits, and the rest of the buffer is zero.\<close>

definition pk_wf :: "pub_key_hash \<Rightarrow> bool" where
  "pk_wf h \<longleftrightarrow> length (pk_buf h) = EVP_MAX_MD_SIZE \<and> pk_len h \<le> EVP_MAX_MD_SIZE \<and>
     drop (pk_len h) (pk_buf h) = replicate (EVP_MAX_MD_SIZE - pk_len h) 0"

lemma length_zero_buf [simp]: "length zero_buf = EVP_MAX_MD_SIZE"
  by (simp add: zero_buf_def)

lemma copy_zero_buf: "copy_prefix src zero_buf = src @ replicate (EVP_MAX_MD_SIZE - length src) 0"
  by (simp add: copy_prefix_def zero_buf_def)

lemma length_pk_deref: "pk_wf h \<Longrightarrow> length (pk_deref h) = pk_len h"
  by (simp add: pk_wf_def pk_deref_def)

lemma pk_buf_padded: "pk_wf h \<Longrightarrow> pk_buf h = pk_deref h @ replicate (EVP_MAX_MD_SIZE - pk_len h) 0"
  by (metis append_take_drop_id pk_deref_def pk_wf_def)

lemma pk_wf_make:
  "length src \<le> EVP_MAX_MD_SIZE \<Longrightarrow>
     pk_wf \<lparr>pk_buf = copy_prefix src zero_buf, pk_len = length src, pk_pub_key = p\<rparr>"
  by (simp add: pk_wf_def copy_zero_buf)

lemma pk_deref_make [simp]:
  "pk_deref \<lparr>pk_buf = copy_prefix src buf, pk_len = length src, pk_pub_key = p\<rparr> = src"
  by (simp add: pk_deref_def copy_prefix_def)

lemma pk_wf_pub_key [simp]: "pk_wf (h\<lparr>pk_pub_key := p\<rparr>) = pk_wf h"
  by (simp add: pk_wf_def pk_deref_def)

lemma pk_deref_pub_key [simp]: "pk_deref (h\<lparr>pk_pub_key := p\<rparr>) = pk_deref h"
  by (simp add: pk_deref_def)

lemma from_hashed_checked_wf: "from_hashed_checked b = Some h \<Longrightarrow> pk_wf h \<and> pk_deref h = b"
  by (auto simp: from_hashed_checked_def pk_wf_make split: if_splits)

lemma from_public_key_der_wf:
  "from_public_key_der sha d s = Some (Ok h) \<Longrightarrow> pk_wf h \<and> sha d = Ok (pk_deref h)"
  by (auto simp: from_public_key_der_def dest: from_hashed_checked_wf
      split: sum.splits option.splits if_splits)

lemma from_public_key_wf:
  "from_public_key to_der sha k s = Some (Ok h) \<Longrightarrow> pk_wf h \<and> (\<exists>der. to_der k = Ok der \<and> sha der = Ok (pk_deref h))"
  by (auto simp: from_public_key_def dest: from_public_key_der_wf split: sum.splits)

lemma from_hashed_eq:
  "from_hashed b = (if length b > EVP_MAX_MD_SIZE then Some (bail ''Size is too long for a hashed value!'')
     else Some (Ok \<lparr>pk_buf = copy_prefix b zero_buf, pk_len = length b, pk_pub_key = None\<rparr>))"
  by (simp add: from_hashed_def from_hashed_checked_def)

lemma from_hashed_deref: "from_hashed b = Some (Ok h) \<Longrightarrow> pk_wf h \<and> pk_deref h = b"
  by (auto simp: from_hashed_eq pk_wf_make bail_def split: if_splits)

section \<open>Equality, hash and order\<close>

lemma pk_eq_deref:
  assumes "pk_wf a" "pk_wf b"
  shows "pk_eq a b \<longleftrightarrow> pk_deref a = pk_deref b"
proof -
  have "pk_deref a = pk_deref b \<Longrightarrow> pk_len a = pk_len b"
    using assms by (metis length_pk_deref)
  then show ?thesis by (auto simp: pk_eq_def pk_deref_def)
qed

lemma pk_hash_deref: "pk_wf a \<Longrightarrow> pk_wf b \<Longrightarrow> pk_deref a = pk_deref b \<Longrightarrow> pk_hash a = pk_hash b"
  using length_pk_deref [of a] length_pk_deref [of b] pk_buf_padded [of a] pk_buf_padded [of b]
  by (simp add: pk_hash_def)

interpretation pk: hash_key pk_eq pk_hash pk_deref pk_wf
  by unfold_locales (auto simp: pk_eq_deref dest: pk_hash_deref)

lemma cmp_bytes_refl [simp]: "cmp_bytes a a = Equal"
  by (induction a) simp_all

lemma cmp_bytes_Equal: "cmp_bytes a b = Equal \<longleftrightarrow> a = b"
  by (induction a b rule: cmp_bytes.induct) (auto split: if_splits)

lemma cmp_bytes_antisym: "cmp_bytes a b = Less \<longleftrightarrow> cmp_bytes b a = Greater"
  by (induction a b rule: cmp_bytes.induct) auto

lemma cmp_bytes_trans: "cmp_bytes a b = Less \<Longrightarrow> cmp_bytes b c = Less \<Longrightarrow> cmp_bytes a c = Less"
proof (induction a b arbitrary: c rule: cmp_bytes.induct)
  case (4 a as b bs)
  then show ?case by (cases c) (auto split: if_splits)
next
  case (2 a as)
  then show ?case by (cases c) simp_all
qed auto

lemma pk_cmp_Equal: "pk_cmp a b = Equal \<longleftrightarrow> pk_buf a = pk_buf b"
  by (simp add: pk_cmp_def cmp_bytes_Equal)

lemma pk_buf_eq_same_len:
  assumes "pk_wf a" "pk_wf b" "pk_len a = pk_len b"
  shows "pk_buf a = pk_buf b \<longleftrightarrow> pk_deref a = pk_deref b"
  using assms pk_buf_padded [of a] pk_buf_padded [of b] by (metis pk_deref_def)

section \<open>Properties\<close>

text \<open>
  C32. Peer identifiers work as keys of a hash map: although the hash is taken of the whole buffer
  and equality compares only the used part, a value inserted or removed under an identifier is
  found or gone under every identifier with the same bytes, and no other key is touched.
\<close>

theorem peer_key_lookup:
  assumes "\<forall>e \<in> set m. pk_wf (fst e)" "pk_wf k" "pk_wf k'"
  shows "hm_get pk_eq pk_hash (hm_insert pk_eq pk_hash m k v) k' =
      (if pk_deref k = pk_deref k' then Some v else hm_get pk_eq pk_hash m k') \<and>
    hm_get pk_eq pk_hash (hm_remove pk_eq pk_hash m k) k' =
      (if pk_deref k = pk_deref k' then None else hm_get pk_eq pk_hash m k')"
proof -
  have "pk.wf_map m" using assms(1) by (simp add: pk.wf_map_def)
  with pk.get_insert [OF this assms(2,3), of v] pk.get_remove [OF this assms(2,3)] assms(2,3) show ?thesis
    by (simp add: pk_eq_deref)
qed

theorem peer_key_lookup_witness:
  "\<exists>k. from_hashed [1, 2] = Some (Ok k) \<and>
     hm_get pk_eq pk_hash (hm_insert pk_eq pk_hash [] k (7 :: nat)) (k\<lparr>pk_pub_key := Some [9]\<rparr>) = Some 7"
proof -
  obtain k where k: "from_hashed [1, 2] = Some (Ok k)" by (simp add: from_hashed_eq EVP_MAX_MD_SIZE_def)
  with from_hashed_deref [OF k] peer_key_lookup [of "[]" k "k\<lparr>pk_pub_key := Some [9]\<rparr>" "7 :: nat"]
  show ?thesis by simp
qed

text \<open>
  C33. An identifier survives being sent: what is read back is well formed, equal to what was
  written and has the same hash; the stored public key stays behind.
\<close>

theorem peer_id_roundtrip:
  assumes "pk_wf h"
  shows "\<exists>h'. pk_deserialize (pk_serialize h) = Ok h' \<and> pk_wf h' \<and> pk_eq h' h \<and> pk_hash h' = pk_hash h \<and>
    pk_public_key_der h' = None"
proof -
  have len: "length (pk_serialize h) = pk_len h" "pk_len h \<le> EVP_MAX_MD_SIZE"
    using assms by (simp_all add: pk_serialize_def pk_wf_def)
  let ?h = "\<lparr>pk_buf = copy_prefix (pk_serialize h) zero_buf, pk_len = length (pk_serialize h), pk_pub_key = None\<rparr>"
  have wf: "pk_wf ?h" using len by (intro pk_wf_make) simp
  have same: "pk_deref ?h = pk_deref h" by (simp only: pk_deref_make) (simp add: pk_serialize_def pk_deref_def)
  have "pk_deserialize (pk_serialize h) = Ok ?h" using len by (simp add: pk_deserialize_def)
  moreover have "pk_eq ?h h" using wf assms same by (simp only: pk_eq_deref)
  moreover have "pk_hash ?h = pk_hash h" by (rule pk_hash_deref [OF wf assms same])
  moreover have "pk_public_key_der ?h = None" by (simp add: pk_public_key_der_def)
  ultimately show ?thesis using wf by blast
qed

theorem peer_id_roundtrip_witness:
  "\<exists>h h'. from_hashed [1, 2, 3] = Some (Ok h) \<and> pk_deserialize (pk_serialize h) = Ok h' \<and> pk_eq h' h"
proof -
  obtain h where h: "from_hashed [1, 2, 3] = Some (Ok h)" by (simp add: from_hashed_eq EVP_MAX_MD_SIZE_def)
  with from_hashed_deref [OF h] peer_id_roundtrip [of h] show ?thesis by auto
qed

text \<open>
  C18. Every way to make a peer identifier gives a well-formed one, of at most 64 bytes and padded
  with zeros: from a key, from a private key, from a certificate, from a hash, from its text and
  from the wire. Made from a key it is the hash of the key; made from bytes it is these bytes.
\<close>

theorem peer_id_typed:
  "(from_public_key to_der sha k b = Some (Ok h) \<longrightarrow> pk_wf h \<and> (\<exists>der. to_der k = Ok der \<and> sha der = Ok (pk_deref h))) \<and>
   (from_private_key sk_to_der sha sk b = Some (Ok h) \<longrightarrow>
      pk_wf h \<and> (\<exists>der. sk_to_der sk = Ok der \<and> sha der = Ok (pk_deref h))) \<and>
   (from_x509_pem of_pem pub to_der sha pem b = Some (Ok h) \<longrightarrow>
      pk_wf h \<and> (\<exists>cert k der. of_pem pem = Ok cert \<and> pub cert = Ok k \<and> to_der k = Ok der \<and> sha der = Ok (pk_deref h))) \<and>
   (from_hashed bs = Some (Ok h) \<longrightarrow> pk_wf h \<and> pk_deref h = bs) \<and>
   (from_hashed_hex hex txt = Some (Ok h) \<longrightarrow> pk_wf h \<and> hex txt = Ok (pk_deref h)) \<and>
   (pk_deserialize bs = Ok h \<longrightarrow> pk_wf h \<and> pk_deref h = bs)"
proof -
  have "from_public_key to_der sha k b = Some (Ok h) \<longrightarrow> pk_wf h \<and> (\<exists>der. to_der k = Ok der \<and> sha der = Ok (pk_deref h))"
    by (auto dest: from_public_key_wf)
  moreover have "from_x509_pem of_pem pub to_der sha pem b = Some (Ok h) \<longrightarrow>
      pk_wf h \<and> (\<exists>cert k der. of_pem pem = Ok cert \<and> pub cert = Ok k \<and> to_der k = Ok der \<and> sha der = Ok (pk_deref h))"
    by (auto simp: from_x509_pem_def dest: from_public_key_wf split: sum.splits)
  moreover have "from_private_key sk_to_der sha sk b = Some (Ok h) \<longrightarrow>
      pk_wf h \<and> (\<exists>der. sk_to_der sk = Ok der \<and> sha der = Ok (pk_deref h))"
    by (auto simp: from_private_key_def dest: from_public_key_der_wf split: sum.splits)
  moreover have "from_hashed_hex hex txt = Some (Ok h) \<longrightarrow> pk_wf h \<and> hex txt = Ok (pk_deref h)"
    by (auto simp: from_hashed_hex_def dest: from_hashed_deref split: sum.splits)
  moreover have "pk_deserialize bs = Ok h \<longrightarrow> pk_wf h \<and> pk_deref h = bs"
    by (auto simp: pk_deserialize_def pk_wf_make split: if_splits)
  ultimately show ?thesis using from_hashed_deref by blast
qed

theorem peer_id_typed_witness:
  "\<exists>h k. from_hashed [1, 2] = Some (Ok h) \<and> pk_wf h \<and> pk_deref h = [1, 2] \<and>
     from_public_key Ok Ok [7] True = Some (Ok k) \<and> pk_wf k \<and> pk_deref k = [7]"
proof -
  obtain h k where h: "from_hashed [1, 2] = Some (Ok h)" and k: "from_public_key Ok Ok [7] True = Some (Ok k)"
    by (simp add: from_hashed_eq from_public_key_def from_public_key_der_def from_hashed_checked_def EVP_MAX_MD_SIZE_def)
  have "pk_wf h \<and> pk_deref h = [1, 2]"
    using peer_id_typed [of Ok Ok "[7]" True h Ok "[7]" Ok Ok "[7]" "[1, 2]" "\<lambda>_. Ok []" "[]"] h by blast
  moreover have "pk_wf k \<and> pk_deref k = [7]"
    using peer_id_typed [of Ok Ok "[7]" True k Ok "[7]" Ok Ok "[7]" "[1, 2]" "\<lambda>_. Ok []" "[]", THEN conjunct1] k by simp
  ultimately show ?thesis using h k by blast
qed

text \<open>
  The order of identifiers is not an order of what equality compares: two identifiers of
  different length that \<open>==\<close> tells apart can compare as \<open>Equal\<close>, because the order looks at the
  zero bytes behind the shorter one.
\<close>

theorem peer_id_order_coarser:
  "\<exists>a b. from_hashed [1] = Some (Ok a) \<and> from_hashed [1, 0] = Some (Ok b) \<and> pk_cmp a b = Equal \<and> \<not> pk_eq a b"
proof -
  obtain a b where ab: "from_hashed [1] = Some (Ok a)" "from_hashed [1, 0] = Some (Ok b)"
    by (simp add: from_hashed_eq EVP_MAX_MD_SIZE_def)
  then have "pk_buf a = pk_buf b"
    by (auto simp: from_hashed_eq EVP_MAX_MD_SIZE_def copy_zero_buf eval_nat_numeral)
  moreover have "\<not> pk_eq a b"
    using from_hashed_deref [OF ab(1)] from_hashed_deref [OF ab(2)] by (simp add: pk_eq_deref)
  ultimately show ?thesis using ab by (auto simp: pk_cmp_Equal)
qed

end
