(* ===== verification/Authenticator.thy ===== *)
theory Authenticator
  imports PubKey Strategies
begin

text \<open>
  \<^verbatim>\<open>authenticator.rs\<close>: the trusted certificate stores, the certificate check picoquic calls
  during a handshake, and the public keys kept until the connection object asks for them.
  OpenSSL, the file system and picoquic's default check are arguments (record \<open>tls\<close>).
\<close>

section \<open>Third-party operations\<close>

record ('cert, 'pkey, 'builder, 'store) tls =
  tls_read_file :: "string \<Rightarrow> io_error + bytes"
  tls_x509_from_pem :: "bytes \<Rightarrow> string + 'cert"
  tls_store_builder_new :: "string + 'builder"
  tls_add_cert :: "'cert \<Rightarrow> 'builder \<Rightarrow> string + 'builder"
  tls_build :: "'builder \<Rightarrow> 'store"
  tls_default_verify :: "'cert \<Rightarrow> 'cert list \<Rightarrow> 'store \<Rightarrow> string + bool"
  tls_cert_public_key :: "'cert \<Rightarrow> string + 'pkey"
  tls_public_key_to_der :: "'pkey \<Rightarrow> string + bytes"
  tls_sha256 :: "bytes \<Rightarrow> string + bytes"

section \<open>Certificate stores\<close>

text \<open>The loop of \<^verbatim>\<open>create_certificate_store\<close> over the certificate files.\<close>

fun add_certs ::
  "('cert, 'pkey, 'builder, 'store) tls \<Rightarrow> string list \<Rightarrow> 'builder \<Rightarrow> error + 'builder" where
  "add_certs T [] builder = Ok builder"
| "add_certs T (cert # certs) builder =
     (case tls_read_file T cert of
        Err e \<Rightarrow> Err (error_from_io e)
      | Ok content \<Rightarrow> (case tls_x509_from_pem T content of
          Err e \<Rightarrow> Err (error_from_openssl e)
        | Ok x509 \<Rightarrow> (case tls_add_cert T x509 builder of
            Err e \<Rightarrow> Err (error_from_openssl e)
          | Ok builder' \<Rightarrow> add_certs T certs builder')))"

definition create_certificate_store ::
  "('cert, 'pkey, 'builder, 'store) tls \<Rightarrow> string list option \<Rightarrow> error + 'store option" where
  "create_certificate_store T certs = (case certs of
     None \<Rightarrow> Ok None
   | Some certs \<Rightarrow>
       if certs = [] then bail ''Certificates list must not be empty!''
       else (case tls_store_builder_new T of
          Err e \<Rightarrow> Err (error_from_openssl e)
        | Ok builder \<Rightarrow> map_ok (\<lambda>b. Some (tls_build T b)) (add_certs T certs builder)))"

section \<open>The authenticator\<close>

record 'store auth_inner =
  incoming_con_pub_keys :: "connection_id \<rightharpoonup> pub_key_hash"
  incoming_certificates :: "'store option"
  outgoing_certificates :: "'store option"
  store_orig_pub_key :: bool

definition authenticator_new ::
  "('cert, 'pkey, 'builder, 'store) tls \<Rightarrow> string list option \<Rightarrow> string list option \<Rightarrow> bool \<Rightarrow>
     error + 'store auth_inner" where
  "authenticator_new T server_certs client_certs store_orig =
     (case create_certificate_store T client_certs of
        Err e \<Rightarrow> Err e
      | Ok inc \<Rightarrow> (case create_certificate_store T server_certs of
          Err e \<Rightarrow> Err e
        | Ok out \<Rightarrow> Ok \<lparr>incoming_con_pub_keys = Map.empty, incoming_certificates = inc,
            outgoing_certificates = out, store_orig_pub_key = store_orig\<rparr>))"

definition add_incoming_con_pub_key ::
  "connection_id \<Rightarrow> pub_key_hash \<Rightarrow> 'store auth_inner \<Rightarrow> 'store auth_inner" where
  "add_incoming_con_pub_key cid key a =
     a\<lparr>incoming_con_pub_keys := (incoming_con_pub_keys a)(cid \<mapsto> key)\<rparr>"

text \<open>The key is removed from the table as it is returned.\<close>

definition incoming_con_pub_key ::
  "connection_id \<Rightarrow> 'store auth_inner \<Rightarrow> pub_key_hash option \<times> 'store auth_inner" where
  "incoming_con_pub_key cid a =
     (incoming_con_pub_keys a cid, a\<lparr>incoming_con_pub_keys := (incoming_con_pub_keys a)(cid := None)\<rparr>)"

datatype connection_type = Incoming | Outgoing

text \<open>
  \<^verbatim>\<open>VerifyCertificate::verify\<close>. \<open>None\<close> is the panic of the buffer copy, when a digest does not
  fit.
\<close>

definition verify ::
  "('cert, 'pkey, 'builder, 'store) tls \<Rightarrow> connection_id \<Rightarrow> connection_type \<Rightarrow> 'cert \<Rightarrow> 'cert list \<Rightarrow>
     'store auth_inner \<Rightarrow> ((string + bool) \<times> 'store auth_inner) option" where
  "verify T cid con_type cert chain a =
     (let res = (case con_type of
          Incoming \<Rightarrow> (case incoming_certificates a of
              Some store \<Rightarrow> tls_default_verify T cert chain store
            | None \<Rightarrow> Ok True)
        | Outgoing \<Rightarrow> (case outgoing_certificates a of
              Some store \<Rightarrow> tls_default_verify T cert chain store
            | None \<Rightarrow> Ok True)) in
      if is_ok res then
        (case tls_cert_public_key T cert of
           Err e \<Rightarrow> Some (Err e, a)
         | Ok pkey \<Rightarrow>
             (case from_public_key (tls_public_key_to_der T) (tls_sha256 T) pkey (store_orig_pub_key a) of
                None \<Rightarrow> None
              | Some (Err e) \<Rightarrow> Some (Err e, a)
              | Some (Ok key) \<Rightarrow> Some (res, add_incoming_con_pub_key cid key a)))
      else Some (res, a))"

section \<open>The key table as an interface\<close>

text \<open>
  What a connection relies on: the key stored under its identifier is handed out once, and
  what is stored under other identifiers does not matter.
\<close>

locale key_table =
  fixes keys :: "'a \<Rightarrow> 'i \<rightharpoonup> 'k"
    and put :: "'i \<Rightarrow> 'k \<Rightarrow> 'a \<Rightarrow> 'a"
    and take_key :: "'i \<Rightarrow> 'a \<Rightarrow> 'k option \<times> 'a"
  assumes keys_put: "keys (put i k a) = (keys a)(i \<mapsto> k)"
    and take_fst: "fst (take_key i a) = keys a i"
    and keys_take: "keys (snd (take_key i a)) = (keys a)(i := None)"
begin

lemma take_put: "take_key i (put i k a) = (r, a') \<Longrightarrow> r = Some k \<and> keys a' = (keys a)(i := None)"
  using take_fst [of i "put i k a"] keys_take [of i "put i k a"] by (simp add: keys_put)

lemma take_twice: "take_key i a = (r, a') \<Longrightarrow> fst (take_key i a') = None"
  using keys_take [of i a] by (simp add: take_fst)

lemma take_other: "take_key i a = (r, a') \<Longrightarrow> j \<noteq> i \<Longrightarrow> fst (take_key j a') = keys a j"
  using keys_take [of i a] by (simp add: take_fst)

end

interpretation auth: key_table incoming_con_pub_keys add_incoming_con_pub_key incoming_con_pub_key
  by unfold_locales (simp_all add: add_incoming_con_pub_key_def incoming_con_pub_key_def)

section \<open>What a handshake leaves in the table\<close>

definition trust_answer ::
  "('cert, 'pkey, 'builder, 'store) tls \<Rightarrow> connection_type \<Rightarrow> 'cert \<Rightarrow> 'cert list \<Rightarrow>
     'store auth_inner \<Rightarrow> string + bool" where
  "trust_answer T con_type cert chain a =
     (case (case con_type of Incoming \<Rightarrow> incoming_certificates a | Outgoing \<Rightarrow> outgoing_certificates a) of
        Some store \<Rightarrow> tls_default_verify T cert chain store
      | None \<Rightarrow> Ok True)"

lemma verify_unfold:
  "verify T cid con_type cert chain a =
     (case trust_answer T con_type cert chain a of
        Err e \<Rightarrow> Some (Err e, a)
      | Ok b \<Rightarrow> (case tls_cert_public_key T cert of
           Err e \<Rightarrow> Some (Err e, a)
         | Ok pkey \<Rightarrow>
             (case from_public_key (tls_public_key_to_der T) (tls_sha256 T) pkey (store_orig_pub_key a) of
                None \<Rightarrow> None
              | Some (Err e) \<Rightarrow> Some (Err e, a)
              | Some (Ok key) \<Rightarrow> Some (Ok b, add_incoming_con_pub_key cid key a))))"
  by (simp add: verify_def trust_answer_def is_ok_def Let_def
      split: connection_type.splits option.splits sum.splits)

lemma verify_OkE:
  assumes "verify T cid ty cert chain a = Some (Ok b, a')"
  obtains pkey key where "trust_answer T ty cert chain a = Ok b" "tls_cert_public_key T cert = Ok pkey"
    "from_public_key (tls_public_key_to_der T) (tls_sha256 T) pkey (store_orig_pub_key a) = Some (Ok key)"
    "a' = add_incoming_con_pub_key cid key a"
  using assms by (auto simp: verify_unfold split: sum.splits option.splits)

lemma from_public_key_OkE:
  assumes "from_public_key to_der sha k s = Some (Ok key)"
  obtains der where "to_der k = Ok der" "sha der = Ok (pk_deref key)" "pk_wf key"
  using assms by (auto simp: from_public_key_def dest: from_public_key_der_wf split: sum.splits)

lemma verify_ErrD: "verify T cid ty cert chain a = Some (Err e, a') \<Longrightarrow> a' = a"
  by (auto simp: verify_unfold split: sum.splits option.splits)

section \<open>Concrete values\<close>

text \<open>Certificates, keys and their encoding are byte strings; no certificate is trusted.\<close>

definition demo_tls :: "(bytes, bytes, unit, unit) tls" where
  "demo_tls = \<lparr>tls_read_file = (\<lambda>_. Err IoWouldBlock), tls_x509_from_pem = (\<lambda>b. Ok b),
     tls_store_builder_new = Ok (), tls_add_cert = (\<lambda>_ b. Ok b), tls_build = (\<lambda>b. b),
     tls_default_verify = (\<lambda>_ _ _. Ok False), tls_cert_public_key = (\<lambda>c. Ok c),
     tls_public_key_to_der = (\<lambda>k. Ok k), tls_sha256 = (\<lambda>b. Ok (take 32 b))\<rparr>"


section \<open>Properties\<close>

text \<open>
  A certificate check that comes to a result leaves the hash of the certificate's public key
  for the connection, to be taken once. This is so whether the result is \<open>True\<close> or
  \<open>False\<close>: the key of a peer whose certificate was rejected is kept as well.
\<close>

theorem verify_leaves_key:
  assumes "verify T cid ty cert chain a = Some (Ok trusted, a')"
  shows "\<exists>pkey der key a''. tls_cert_public_key T cert = Ok pkey \<and> tls_public_key_to_der T pkey = Ok der \<and>
    tls_sha256 T der = Ok (pk_deref key) \<and> incoming_con_pub_key cid a' = (Some key, a'') \<and>
    fst (incoming_con_pub_key cid a'') = None"
proof -
  from assms obtain pkey key where v: "tls_cert_public_key T cert = Ok pkey"
    "from_public_key (tls_public_key_to_der T) (tls_sha256 T) pkey (store_orig_pub_key a) = Some (Ok key)"
    "a' = add_incoming_con_pub_key cid key a"
    by (rule verify_OkE)
  from v(2) obtain der where "tls_public_key_to_der T pkey = Ok der" "tls_sha256 T der = Ok (pk_deref key)"
    by (rule from_public_key_OkE)
  moreover obtain k a'' where take: "incoming_con_pub_key cid a' = (k, a'')" by force
  ultimately show ?thesis
    using v auth.take_put [OF take [unfolded v(3)]] auth.take_twice [OF take] by auto
qed

theorem verify_leaves_key_witness:
  "\<exists>a' key a''. verify demo_tls 7 Incoming [5, 6] [] \<lparr>incoming_con_pub_keys = Map.empty, incoming_certificates = Some (),
       outgoing_certificates = None, store_orig_pub_key = True\<rparr> = Some (Ok False, a') \<and>
     incoming_con_pub_key 7 a' = (Some key, a'') \<and> pk_deref key = [5, 6]"
proof -
  let ?a = "\<lparr>incoming_con_pub_keys = Map.empty, incoming_certificates = Some (), outgoing_certificates = None,
      store_orig_pub_key = True\<rparr> :: unit auth_inner"
  obtain a' where v: "verify demo_tls 7 Incoming [5, 6] [] ?a = Some (Ok False, a')"
    by (simp add: verify_unfold trust_answer_def demo_tls_def from_public_key_def from_public_key_der_def
        from_hashed_checked_def EVP_MAX_MD_SIZE_def)
  from verify_leaves_key [OF v] v show ?thesis by (auto simp: demo_tls_def)
qed

end
