(* ===== verification/Connection.thy ===== *)
theory Connection
  imports Registry Authenticator
begin

text \<open>
  \<^verbatim>\<open>connection.rs\<close>: making a connection object out of an authenticated transport connection,
  registering it, accepting its streams and taking it out of the registry when it ends; and
  the structure of an incoming stream (\<^verbatim>\<open>incoming_stream.rs\<close>), which a connection spawns. The
  registry and the authenticator are shared objects: they are passed and returned. Spawned
  tasks are returned as a list, in the order of the calls.
\<close>

section \<open>Handles and connections\<close>

record new_connection_handle =
  nch_new_con :: strat_new_connection_handle
  nch_local_peer_identifier :: peer_id

definition new_connection_handle_new ::
  "peer_id \<Rightarrow> strat_new_connection_handle \<Rightarrow> new_connection_handle" where
  "new_connection_handle_new local_peer_identifier new_con =
     \<lparr>nch_new_con = new_con, nch_local_peer_identifier = local_peer_identifier\<rparr>"

record new_connection_future =
  ncf_new_con_recv :: "(connection_wrapper, error) tape"
  ncf_new_con_handle :: new_connection_handle
  ncf_local_peer_identifier :: peer_id

definition new_connection :: "picoquic \<Rightarrow> new_connection_handle \<Rightarrow> socket_addr \<Rightarrow> new_connection_future" where
  "new_connection pq h addr =
     \<lparr>ncf_new_con_recv = handle_new_connection pq (nch_new_con h) addr,
      ncf_new_con_handle = h, ncf_local_peer_identifier = nch_local_peer_identifier h\<rparr>"

record connection =
  cn_con :: connection_wrapper
  cn_new_con_handle :: new_connection_handle
  cn_new_stream_handle :: new_stream_handle
  cn_peer_identifier :: peer_id
  cn_registration_token :: registration_token

definition connection_new ::
  "connection_wrapper \<Rightarrow> peer_id \<Rightarrow> new_connection_handle \<Rightarrow> 'prov inner \<Rightarrow> 'store auth_inner \<Rightarrow>
     (error + connection) \<times> 'prov inner \<times> 'store auth_inner" where
  "connection_new con local_peer_identifier new_con_handle reg auth =
     (case incoming_con_pub_key (con_connection_id con) auth of
        (None, auth') \<Rightarrow> (bail ''Could not find public key for connection!'', reg, auth')
      | (Some key, auth') \<Rightarrow>
          (let peer_identifier = pk_deref key;
               nsh = new_stream_handle_new peer_identifier local_peer_identifier (con_get_new_stream_handle con)
           in case register_peer peer_identifier nsh reg of (token, reg') \<Rightarrow>
             (Ok \<lparr>cn_con = con, cn_new_con_handle = new_con_handle, cn_new_stream_handle = nsh,
                  cn_peer_identifier = peer_identifier, cn_registration_token = token\<rparr>, reg', auth')))"

definition new_connection_poll ::
  "new_connection_future \<Rightarrow> 'prov inner \<Rightarrow> 'store auth_inner \<Rightarrow>
     (connection, error) poll \<times> new_connection_future \<times> 'prov inner \<times> 'store auth_inner" where
  "new_connection_poll f reg auth = (case poll_tape (ncf_new_con_recv f) of (r, t) \<Rightarrow>
     let f' = f\<lparr>ncf_new_con_recv := t\<rparr> in
     (case r of
        Err e \<Rightarrow> (Err e, f', reg, auth)
      | Ok NotReady \<Rightarrow> (Ok NotReady, f', reg, auth)
      | Ok (Ready v) \<Rightarrow>
          (case connection_new v (ncf_local_peer_identifier f) (ncf_new_con_handle f) reg auth of
             (Err e, reg', auth') \<Rightarrow> (Err e, f', reg', auth')
           | (Ok c, reg', auth') \<Rightarrow> (Ok (Ready c), f', reg', auth'))))"

definition con_new_stream_with_hello :: "picoquic \<Rightarrow> connection \<Rightarrow> stream_hello \<Rightarrow> new_stream_future" where
  "con_new_stream_with_hello pq c stream_hello =
     new_stream_future_new (cn_peer_identifier c) (con_new_stream pq (cn_con c)) (cn_new_stream_handle c)
       stream_hello"

section \<open>Incoming streams\<close>

record incoming_stream =
  is_stream :: "stream_hello pstream option"
  is_timeout :: timeout
  is_peer_identifier :: peer_id
  is_new_stream_handle :: new_stream_handle
  is_new_con_handle :: new_connection_handle

definition incoming_stream_new ::
  "stream_hello codec \<Rightarrow> clock \<Rightarrow> strat_stream \<Rightarrow> duration \<Rightarrow> peer_id \<Rightarrow> new_stream_handle \<Rightarrow>
     new_connection_handle \<Rightarrow> incoming_stream" where
  "incoming_stream_new cd clk stream timeout peer_identifier nsh nch =
     \<lparr>is_stream = Some (pstream_new cd stream), is_timeout = timeout_new clk timeout,
      is_peer_identifier = peer_identifier, is_new_stream_handle = nsh, is_new_con_handle = nch\<rparr>"

section \<open>Polling a connection\<close>

lemma con_poll_progress:
  "con_poll w = (Ok (Ready (Some s)), w') \<Longrightarrow> length (pqc_in (cw_con w')) < length (pqc_in (cw_con w))"
  by (cases "pqc_in (cw_con w)") (auto simp: con_poll_def)

text \<open>The spawned streams, the answer, the connection and the registry afterwards.\<close>

function connection_poll ::
  "stream_hello codec \<Rightarrow> clock \<Rightarrow> connection \<Rightarrow> 'prov inner \<Rightarrow>
     incoming_stream list \<times> (unit, unit) poll \<times> connection \<times> 'prov inner" where
  "connection_poll cd clk c reg = (case con_poll (cn_con c) of (r, con) \<Rightarrow>
     let c' = c\<lparr>cn_con := con\<rparr> in
     (case r of
        Ok NotReady \<Rightarrow> ([], Ok NotReady, c', reg)
      | Err e \<Rightarrow> ([], Ok (Ready ()), c', unregister_peer (cn_peer_identifier c) (cn_registration_token c) reg)
      | Ok (Ready None) \<Rightarrow>
          ([], Ok (Ready ()), c', unregister_peer (cn_peer_identifier c) (cn_registration_token c) reg)
      | Ok (Ready (Some stream)) \<Rightarrow>
          (case connection_poll cd clk c' reg of (spawned, p, c'', reg') \<Rightarrow>
             (incoming_stream_new cd clk stream (from_secs 10) (cn_peer_identifier c)
                (cn_new_stream_handle c) (cn_new_con_handle c) # spawned, p, c'', reg'))))"
  by pat_completeness auto
termination
  by (relation "measure (\<lambda>(cd, clk, c, reg). length (pqc_in (cw_con (cn_con c))))")
    (auto dest: con_poll_progress [OF sym])

declare connection_poll.simps [simp del]

section \<open>What one poll of a connection does\<close>

text \<open>Whether the first answer that is not a new stream ends the connection.\<close>

fun ends_connection :: "(pq_stream option, string) tape \<Rightarrow> bool" where
  "ends_connection (Ok (Ready (Some v)) # t) = ends_connection t"
| "ends_connection (Ok (Ready None) # t) = True"
| "ends_connection (Err e # t) = True"
| "ends_connection _ = False"

definition spawn_incoming :: "stream_hello codec \<Rightarrow> clock \<Rightarrow> connection \<Rightarrow> pq_stream \<Rightarrow> incoming_stream" where
  "spawn_incoming cd clk c v = incoming_stream_new cd clk (con_wrap_stream (cw_con (cn_con c)) v)
     (from_secs 10) (cn_peer_identifier c) (cn_new_stream_handle c) (cn_new_con_handle c)"

lemma con_wrap_stream_in [simp]: "con_wrap_stream (con\<lparr>pqc_in := t\<rparr>) v = con_wrap_stream con v"
  by (simp add: con_wrap_stream_def pqc_stream_handle_def)

lemma spawn_incoming_in [simp]:
  "spawn_incoming cd clk (c\<lparr>cn_con := (cn_con c)\<lparr>cw_con := (cw_con (cn_con c))\<lparr>pqc_in := t\<rparr>\<rparr>\<rparr>) =
     spawn_incoming cd clk c"
  by (simp add: spawn_incoming_def fun_eq_iff)

text \<open>The fields of a connection that its registration is about.\<close>

definition con_registration :: "connection \<Rightarrow> peer_id \<times> new_stream_handle \<times> registration_token" where
  "con_registration c = (cn_peer_identifier c, cn_new_stream_handle c, cn_registration_token c)"

lemma connection_poll_stream:
  assumes "pqc_in (cw_con (cn_con c)) = Ok (Ready (Some v)) # t"
  shows "connection_poll cd clk c reg =
    (case connection_poll cd clk (c\<lparr>cn_con := (cn_con c)\<lparr>cw_con := (cw_con (cn_con c))\<lparr>pqc_in := t\<rparr>\<rparr>\<rparr>) reg of
       (spawned, r) \<Rightarrow> (spawn_incoming cd clk c v # spawned, r))"
  using assms
  by (subst connection_poll.simps) (simp add: con_poll_def Let_def spawn_incoming_def split: prod.splits)

lemma connection_poll_other:
  assumes "\<nexists>v t. pqc_in (cw_con (cn_con c)) = Ok (Ready (Some v)) # t"
  shows "connection_poll cd clk c reg =
    ([], Ok (if ends_connection (pqc_in (cw_con (cn_con c))) then Ready () else NotReady),
     c\<lparr>cn_con := (cn_con c)\<lparr>cw_con := (cw_con (cn_con c))\<lparr>pqc_in := tl (pqc_in (cw_con (cn_con c)))\<rparr>\<rparr>\<rparr>,
     if ends_connection (pqc_in (cw_con (cn_con c)))
     then unregister_peer (cn_peer_identifier c) (cn_registration_token c) reg else reg)"
proof (cases "pqc_in (cw_con (cn_con c))")
  case Nil
  then show ?thesis by (subst connection_poll.simps) (simp add: con_poll_def Let_def)
next
  case (Cons x t)
  then show ?thesis using assms
    by (subst connection_poll.simps, cases x rule: stream_poll_cases) (auto simp: con_poll_def Let_def)
qed

lemma connection_poll_spec:
  "connection_poll cd clk c reg = (spawned, p, c', reg') \<Longrightarrow>
     spawned = map (spawn_incoming cd clk c) (ready_items (pqc_in (cw_con (cn_con c)))) \<and>
     p = Ok (if ends_connection (pqc_in (cw_con (cn_con c))) then Ready () else NotReady) \<and>
     con_registration c' = con_registration c \<and>
     pqc_id (cw_con (cn_con c')) = pqc_id (cw_con (cn_con c)) \<and>
     reg' = (if ends_connection (pqc_in (cw_con (cn_con c)))
             then unregister_peer (cn_peer_identifier c) (cn_registration_token c) reg else reg)"
proof (induction "pqc_in (cw_con (cn_con c))" arbitrary: c spawned)
  case Nil
  then show ?case
    by (auto simp: connection_poll_other con_registration_def simp flip: Nil.hyps)
next
  case (Cons x t)
  show ?case
  proof (cases "\<exists>v. x = Ok (Ready (Some v))")
    case True
    then obtain v where x: "x = Ok (Ready (Some v))" by blast
    let ?c = "c\<lparr>cn_con := (cn_con c)\<lparr>cw_con := (cw_con (cn_con c))\<lparr>pqc_in := t\<rparr>\<rparr>\<rparr>"
    have tape: "pqc_in (cw_con (cn_con c)) = Ok (Ready (Some v)) # t"
      using Cons.hyps(2) x by simp
    obtain sp where rest: "connection_poll cd clk ?c reg = (sp, p, c', reg')"
      and sp: "spawned = spawn_incoming cd clk c v # sp"
      using Cons.prems by (auto simp: connection_poll_stream [OF tape] split: prod.splits)
    from Cons.hyps(1) [OF _ rest] sp tape show ?thesis
      by (simp add: con_registration_def)
  next
    case False
    then have other: "\<nexists>v t. pqc_in (cw_con (cn_con c)) = Ok (Ready (Some v)) # t"
      by (simp flip: Cons.hyps(2))
    from Cons.prems show ?thesis
      by (auto simp: connection_poll_other [OF other] ready_items_other [OF other] con_registration_def)
  qed
qed

section \<open>A node's connections\<close>

text \<open>
  A registry, an authenticator and the connections that are alive: handshakes are checked by
  \<open>verify\<close>, connections are opened by \<open>connection_new\<close>, polled by the runtime in any
  order, and gone once a poll answers ready. A log keeps the handshakes: the identifier of the
  connection, the certificate that was presented, and the answer of \<open>verify\<close>.
\<close>

type_synonym 'cert handshake = "connection_id \<times> 'cert \<times> (string + bool)"

inductive connections ::
  "('cert, 'pkey, 'builder, 'store) tls \<Rightarrow> 'cert handshake list \<Rightarrow> 'prov inner \<Rightarrow> 'store auth_inner \<Rightarrow>
     connection multiset \<Rightarrow> bool"
  for T where
  start: "(\<And>p. inner_peer reg p = None) \<Longrightarrow> incoming_con_pub_keys auth = Map.empty \<Longrightarrow>
    connections T [] reg auth {#}"
| handshake: "connections T hs reg auth cs \<Longrightarrow> verify T cid ty cert chain auth = Some (r, auth') \<Longrightarrow>
    connections T ((cid, cert, r) # hs) reg auth' cs"
| opened: "connections T hs reg auth cs \<Longrightarrow>
    connection_new con local_id nch reg auth = (Ok c, reg', auth') \<Longrightarrow>
    connections T hs reg' auth' (add_mset c cs)"
| refused: "connections T hs reg auth cs \<Longrightarrow>
    connection_new con local_id nch reg auth = (Err e, reg', auth') \<Longrightarrow>
    connections T hs reg' auth' cs"
| polled: "connections T hs reg auth (add_mset c cs) \<Longrightarrow>
    connection_poll cd clk c reg = (spawned, Ok NotReady, c', reg') \<Longrightarrow>
    connections T hs reg' auth (add_mset c' cs)"
| ended: "connections T hs reg auth (add_mset c cs) \<Longrightarrow>
    connection_poll cd clk c reg = (spawned, Ok (Ready ()), c', reg') \<Longrightarrow>
    connections T hs reg' auth cs"

lemma connection_new_ErrD:
  "connection_new con l nch reg auth = (Err e, reg', auth') \<Longrightarrow>
     reg' = reg \<and> e = error_from_failure ''Could not find public key for connection!'' \<and>
     incoming_con_pub_keys auth (con_connection_id con) = None \<and> auth' = auth"
  by (auto simp: connection_new_def incoming_con_pub_key_def Let_def bail_def fun_upd_idem
      split: option.splits prod.splits)

text \<open>What \<open>connection_new\<close> returns on success.\<close>

lemma connection_new_OkE:
  assumes "connection_new con l nch reg auth = (Ok c, reg', auth')"
  obtains key where "incoming_con_pub_keys auth (con_connection_id con) = Some key"
    "auth' = auth\<lparr>incoming_con_pub_keys := (incoming_con_pub_keys auth)(con_connection_id con := None)\<rparr>"
    "register_peer (pk_deref key) (cn_new_stream_handle c) reg = (cn_registration_token c, reg')"
    "cn_peer_identifier c = pk_deref key" "cn_con c = con" "cn_new_con_handle c = nch"
    "cn_new_stream_handle c = new_stream_handle_new (pk_deref key) l (con_get_new_stream_handle con)"
  using assms
  by (auto simp: connection_new_def incoming_con_pub_key_def Let_def bail_def
      split: option.splits prod.splits)

text \<open>The handle of a connection opens streams on that very connection.\<close>

definition con_handle_ok :: "connection \<Rightarrow> bool" where
  "con_handle_ok c \<longleftrightarrow>
     nsw_con_id (nsh_new_stream_handle (cn_new_stream_handle c)) = con_connection_id (cn_con c) \<and>
     nsh_peer_identifier (cn_new_stream_handle c) = cn_peer_identifier c \<and>
     \<not> nsh_proxy_stream (cn_new_stream_handle c)"

lemma connection_new_handle_ok: "connection_new con l nch reg auth = (Ok c, reg', auth') \<Longrightarrow> con_handle_ok c"
  by (elim connection_new_OkE)
    (simp add: con_handle_ok_def new_stream_handle_new_def con_get_new_stream_handle_def con_connection_id_def)

lemma con_handle_ok_registration:
  "con_registration c' = con_registration c \<Longrightarrow> pqc_id (cw_con (cn_con c')) = pqc_id (cw_con (cn_con c)) \<Longrightarrow>
     con_handle_ok c' = con_handle_ok c"
  by (simp add: con_handle_ok_def con_registration_def con_connection_id_def)

lemma connections_handle_ok: "connections T hs reg auth cs \<Longrightarrow> c \<in># cs \<Longrightarrow> con_handle_ok c"
proof (induction arbitrary: c rule: connections.induct)
  case (opened hs reg auth cs con l nch c' reg' auth')
  then show ?case by (auto dest: connection_new_handle_ok)
next
  case (polled hs reg auth c0 cs cd clk sp c' reg')
  then have "con_handle_ok c'"
    using connection_poll_spec [OF polled.hyps(2)] con_handle_ok_registration [of c' c0] by auto
  with polled show ?case by auto
qed auto

text \<open>The connections are clients of the registry.\<close>

lemma connections_clients:
  "connections T hs reg auth cs \<Longrightarrow>
     \<exists>r0. (\<forall>p. inner_peer r0 p = None) \<and> reg.clients r0 (image_mset con_registration cs) reg"
proof (induction rule: connections.induct)
  case (start reg auth)
  then show ?case by (auto intro: reg.clients.start)
next
  case (opened hs reg auth cs con l nch c reg' auth')
  from opened.hyps(2) have "register_peer (cn_peer_identifier c) (cn_new_stream_handle c) reg
      = (cn_registration_token c, reg')"
    by (elim connection_new_OkE) simp
  with opened.IH show ?case
    by (auto simp: con_registration_def intro: reg.clients.opened)
next
  case (refused hs reg auth cs con l nch e reg' auth')
  then show ?case by (auto dest: connection_new_ErrD)
next
  case (polled hs reg auth c cs cd clk sp c' reg')
  from connection_poll_spec [OF polled.hyps(2)] have "reg' = reg" "con_registration c' = con_registration c"
    by (auto split: if_splits)
  with polled.IH show ?case by simp
next
  case (ended hs reg auth c cs cd clk sp c' reg')
  from connection_poll_spec [OF ended.hyps(2)]
  have "reg' = unregister_peer (cn_peer_identifier c) (cn_registration_token c) reg"
    by (auto split: if_splits)
  with ended.IH show ?case
    by (auto simp: con_registration_def intro: reg.clients.closed)
qed

text \<open>
  The name of a certificate is the hash of its public key. A name is authenticated for a
  connection when the log has a handshake of this very connection that presented a certificate
  of that name and came to a result.
\<close>

definition cert_identity :: "('cert, 'pkey, 'builder, 'store) tls \<Rightarrow> 'cert \<Rightarrow> peer_id \<Rightarrow> bool" where
  "cert_identity T cert p \<longleftrightarrow> (\<exists>pkey der. tls_cert_public_key T cert = Ok pkey \<and>
     tls_public_key_to_der T pkey = Ok der \<and> tls_sha256 T der = Ok p)"

definition authenticated ::
  "('cert, 'pkey, 'builder, 'store) tls \<Rightarrow> 'cert handshake list \<Rightarrow> connection_id \<Rightarrow> peer_id \<Rightarrow> bool" where
  "authenticated T hs cid p \<longleftrightarrow> (\<exists>cert b. (cid, cert, Ok b) \<in> set hs \<and> cert_identity T cert p)"

lemma cert_identity_unique: "cert_identity T cert p \<Longrightarrow> cert_identity T cert q \<Longrightarrow> p = q"
  by (auto simp: cert_identity_def)

lemma authenticated_Cons: "authenticated T hs cid p \<Longrightarrow> authenticated T (h # hs) cid p"
  by (auto simp: authenticated_def)

lemma verify_authenticated:
  assumes "verify T cid ty cert chain a = Some (r, a')"
    and "incoming_con_pub_keys a' i = Some k"
  shows "incoming_con_pub_keys a i = Some k \<or> authenticated T ((cid, cert, r) # hs) i (pk_deref k)"
proof (cases r)
  case (Inl e)
  with assms show ?thesis by (auto dest: verify_ErrD)
next
  case (Inr b)
  with assms(1) have "verify T cid ty cert chain a = Some (Ok b, a')" by simp
  then show ?thesis using assms(2) Inr
    by (elim verify_OkE from_public_key_OkE)
      (auto simp: add_incoming_con_pub_key_def authenticated_def cert_identity_def split: if_splits)
qed

lemma connections_authenticated:
  "connections T hs reg auth cs \<Longrightarrow>
     (\<forall>i k. incoming_con_pub_keys auth i = Some k \<longrightarrow> authenticated T hs i (pk_deref k)) \<and>
     (\<forall>c. c \<in># cs \<longrightarrow> authenticated T hs (con_connection_id (cn_con c)) (cn_peer_identifier c))"
proof (induction rule: connections.induct)
  case (handshake hs reg auth cs cid ty cert chain r auth')
  then show ?case by (meson verify_authenticated authenticated_Cons)
next
  case (opened hs reg auth cs con l nch c reg' auth')
  from opened.hyps(2) opened.IH show ?case
    by (elim connection_new_OkE) (auto split: if_splits)
next
  case (refused hs reg auth cs con l nch e reg' auth')
  then show ?case by (auto dest: connection_new_ErrD)
next
  case (polled hs reg auth c cs cd clk sp c' reg')
  from connection_poll_spec [OF polled.hyps(2)] have "cn_peer_identifier c' = cn_peer_identifier c"
    "con_connection_id (cn_con c') = con_connection_id (cn_con c)"
    by (simp_all add: con_registration_def con_connection_id_def)
  with polled.IH show ?case by auto
qed auto

text \<open>An entry of the registry belongs to a connection that is alive.\<close>

lemma registered_connection:
  assumes "connections T hs reg auth cs" "inner_peer reg p = Some h"
  shows "\<exists>c. c \<in># cs \<and> con_handle_ok c \<and> con_registration c = (p, h, cn_registration_token c) \<and>
    token_of reg p = Some (cn_registration_token c)"
proof -
  from connections_clients [OF assms(1)] obtain r0 where r0: "\<And>p. inner_peer r0 p = None"
    "reg.clients r0 (image_mset con_registration cs) reg" by blast
  from reg.entry_has_client [OF r0(2) r0(1) assms(2)] obtain t
    where t: "token_of reg p = Some t" "(p, h, t) \<in># image_mset con_registration cs" by blast
  then obtain c where c: "c \<in># cs" "con_registration c = (p, h, t)" by auto
  with connections_handle_ok [OF assms(1) c(1)] t(1) show ?thesis
    by (intro exI [of _ c]) (simp add: con_registration_def)
qed

section \<open>Concrete values\<close>

definition demo_auth :: "unit auth_inner" where
  "demo_auth = \<lparr>incoming_con_pub_keys = Map.empty, incoming_certificates = None, outgoing_certificates = None,
     store_orig_pub_key = True\<rparr>"

definition demo_wrapper :: connection_wrapper where
  "demo_wrapper = \<lparr>cw_con = \<lparr>pqc_id = 7, pqc_in = [], pqc_local = SocketAddrV4 167772161 7000,
     pqc_peer = SocketAddrV4 167772162 8000\<rparr>\<rparr>"

text \<open>A run that leaves the peer \<open>[5]\<close> connected.\<close>

definition demo_connected_handle :: new_stream_handle where
  "demo_connected_handle = new_stream_handle_new [5] [1] (con_get_new_stream_handle demo_wrapper)"

lemma demo_connected_as:
  assumes "pqc_id (cw_con w) = 7" "length p \<le> 32"
  shows "\<exists>(reg :: unit inner) auth c. connections demo_tls [(7, p, Ok True)] reg auth {#c#} \<and> cn_peer_identifier c = p \<and>
    cn_con c = w \<and> cn_new_stream_handle c = new_stream_handle_new p [1] (con_get_new_stream_handle w) \<and>
    inner_peer reg p = Some (cn_new_stream_handle c)"
proof -
  have start: "connections demo_tls [] (inner_new :: unit inner) demo_auth {#}"
    by (rule connections.start) (simp_all add: demo_auth_def)
  obtain a where v: "verify demo_tls 7 Incoming p [] demo_auth = Some (Ok True, a)"
    using assms(2) by (auto simp: verify_unfold trust_answer_def demo_tls_def demo_auth_def from_public_key_def
        from_public_key_der_def from_hashed_checked_def EVP_MAX_MD_SIZE_def)
  then obtain k where key: "incoming_con_pub_keys a 7 = Some k" "pk_deref k = p"
    using assms(2)
    by (elim verify_OkE from_public_key_OkE) (auto simp: demo_tls_def add_incoming_con_pub_key_def)
  have shaken: "connections demo_tls [(7, p, Ok True)] (inner_new :: unit inner) a {#}"
    by (rule connections.handshake [OF start v])
  obtain c and reg :: "unit inner" and auth where new:
      "connection_new w [1] (new_connection_handle_new [1] NewConnectionHandleWrapper) inner_new a = (Ok c, reg, auth)"
    using key assms(1) by (auto simp: connection_new_def incoming_con_pub_key_def con_connection_id_def Let_def
        register_peer_def inner_new_def)
  have con: "connections demo_tls [(7, p, Ok True)] reg auth {#c#}" by (rule connections.opened [OF shaken new])
  from new have "cn_peer_identifier c = p" "cn_con c = w"
    "cn_new_stream_handle c = new_stream_handle_new p [1] (con_get_new_stream_handle w)"
    "inner_peer reg p = Some (cn_new_stream_handle c)"
    using key assms(1) by (elim connection_new_OkE; auto simp: con_connection_id_def dest: reg.lookup_register)+
  with con show ?thesis by blast
qed

lemma demo_connected:
  "\<exists>(reg :: unit inner) auth c. connections demo_tls [(7, [5], Ok True)] reg auth {#c#} \<and> cn_peer_identifier c = [5] \<and>
     cn_con c = demo_wrapper \<and> cn_new_stream_handle c = demo_connected_handle \<and>
     inner_peer reg [5] = Some demo_connected_handle"
proof -
  have "pqc_id (cw_con demo_wrapper) = 7" by (simp add: demo_wrapper_def)
  then show ?thesis unfolding demo_connected_handle_def using demo_connected_as [of demo_wrapper "[5]"] by force
qed

section \<open>Properties\<close>

text \<open>
  C7. What the registry hands out is sound: at every moment, a handle found under a peer belongs
  to a connection that has not ended, opens streams on that very connection and not through a
  third peer, and the peer is the one this connection was authenticated for: in a handshake of
  this connection, the node was presented a certificate whose public key hashes to the peer's
  name.
\<close>

theorem registered_is_connected:
  assumes "connections T hs reg auth cs" "inner_peer reg p = Some h"
  shows "\<exists>c. c \<in># cs \<and> cn_peer_identifier c = p \<and> cn_new_stream_handle c = h \<and>
    token_of reg p = Some (cn_registration_token c) \<and>
    nsw_con_id (nsh_new_stream_handle h) = con_connection_id (cn_con c) \<and> \<not> nsh_proxy_stream h \<and>
    authenticated T hs (con_connection_id (cn_con c)) p"
proof -
  obtain c where "c \<in># cs" "con_handle_ok c" "con_registration c = (p, h, cn_registration_token c)"
    "token_of reg p = Some (cn_registration_token c)"
    using registered_connection [OF assms] by blast
  with connections_authenticated [OF assms(1)] show ?thesis by (auto simp: con_handle_ok_def con_registration_def)
qed

theorem registered_is_connected_witness:
  "\<exists>reg auth cs h c. connections demo_tls [(7, [5], Ok True)] (reg :: unit inner) auth cs \<and> inner_peer reg [5] = Some h \<and>
     c \<in># cs \<and> cn_peer_identifier c = [5] \<and> cn_new_stream_handle c = h \<and>
     authenticated demo_tls [(7, [5], Ok True)] (con_connection_id (cn_con c)) [5]"
proof -
  obtain reg :: "unit inner" and auth c where demo: "connections demo_tls [(7, [5], Ok True)] reg auth {#c#}"
    "inner_peer reg [5] = Some (demo_connected_handle)"
    using demo_connected by blast
  from registered_is_connected [OF demo] demo show ?thesis by blast
qed

end
