(* ===== verification/Connect.thy ===== *)
theory Connect
  imports Connection
begin

text \<open>
  \<^verbatim>\<open>connect.rs\<close>: the state machine that connects to an address and opens a first stream, and
  the future that tries one strategy after the other.
\<close>

section \<open>The node as the tasks see it\<close>

text \<open>The shared registry and authenticator, and the connections handed to \<^verbatim>\<open>tokio::spawn\<close>.\<close>

record ('prov, 'store) node =
  nd_registry :: "'prov inner"
  nd_auth :: "'store auth_inner"
  nd_spawned :: "connection list"

definition spawn_connection :: "connection \<Rightarrow> ('prov, 'store) node \<Rightarrow> ('prov, 'store) node" where
  "spawn_connection c n = n\<lparr>nd_spawned := nd_spawned n @ [c]\<rparr>"

definition node_connection_poll ::
  "new_connection_future \<Rightarrow> ('prov, 'store) node \<Rightarrow>
     (connection, error) poll \<times> new_connection_future \<times> ('prov, 'store) node" where
  "node_connection_poll f n = (case new_connection_poll f (nd_registry n) (nd_auth n) of
     (p, f', reg, auth) \<Rightarrow> (p, f', n\<lparr>nd_registry := reg, nd_auth := auth\<rparr>))"

section \<open>The state machine\<close>

datatype connect_state =
    InitConnect new_connection_handle socket_addr stream_hello
  | WaitForConnection new_connection_future timeout stream_hello
  | WaitForConnectStream new_stream_future timeout

definition poll_init_connect ::
  "picoquic \<Rightarrow> clock \<Rightarrow> new_connection_handle \<Rightarrow> socket_addr \<Rightarrow> stream_hello \<Rightarrow> ('prov, 'store) node \<Rightarrow>
     (('prov, 'store) node \<times> connect_state, hp_stream, fault) after" where
  "poll_init_connect pq clk strat addr hello_msg n =
     Goto (n, WaitForConnection (new_connection pq strat addr) (timeout_new clk (from_secs 4)) hello_msg)"

definition poll_wait_for_connection ::
  "picoquic \<Rightarrow> clock \<Rightarrow> new_connection_future \<Rightarrow> timeout \<Rightarrow> stream_hello \<Rightarrow> ('prov, 'store) node \<Rightarrow>
     (('prov, 'store) node \<times> connect_state, hp_stream, fault) after" where
  "poll_wait_for_connection pq clk wait timeout hello_msg n =
     (case timeout_poll clk timeout of
        Err e \<Rightarrow> Fail (Raised e) (n, WaitForConnection wait timeout hello_msg)
      | Ok _ \<Rightarrow>
          (case node_connection_poll wait n of
             (Err e, wait', n') \<Rightarrow> Fail (Raised e) (n', WaitForConnection wait' timeout hello_msg)
           | (Ok NotReady, wait', n') \<Rightarrow> Stay (n', WaitForConnection wait' timeout hello_msg)
           | (Ok (Ready con), wait', n') \<Rightarrow>
               Goto (spawn_connection con n',
                     WaitForConnectStream (con_new_stream_with_hello pq con hello_msg)
                       (timeout_new_reset clk timeout))))"

definition poll_wait_for_connect_stream ::
  "stream_hello codec \<Rightarrow> clock \<Rightarrow> new_stream_future \<Rightarrow> timeout \<Rightarrow> ('prov, 'store) node \<Rightarrow>
     (('prov, 'store) node \<times> connect_state, hp_stream, fault) after" where
  "poll_wait_for_connect_stream cd clk wait timeout n =
     (case timeout_poll clk timeout of
        Err e \<Rightarrow> Fail (Raised e) (n, WaitForConnectStream wait timeout)
      | Ok _ \<Rightarrow>
          (case new_stream_poll cd wait of
             None \<Rightarrow> Fail (Panicked ''sending stream hello'') (n, WaitForConnectStream wait timeout)
           | Some (Err e, wait') \<Rightarrow> Fail (Raised e) (n, WaitForConnectStream wait' timeout)
           | Some (Ok NotReady, wait') \<Rightarrow> Stay (n, WaitForConnectStream wait' timeout)
           | Some (Ok (Ready stream), wait') \<Rightarrow> Finish stream (n, WaitForConnectStream wait' timeout)))"

fun connect_step ::
  "picoquic \<Rightarrow> stream_hello codec \<Rightarrow> clock \<Rightarrow> ('prov, 'store) node \<times> connect_state \<Rightarrow>
     (('prov, 'store) node \<times> connect_state, hp_stream, fault) after" where
  "connect_step pq cd clk (n, InitConnect strat addr hello_msg) =
     poll_init_connect pq clk strat addr hello_msg n"
| "connect_step pq cd clk (n, WaitForConnection wait timeout hello_msg) =
     poll_wait_for_connection pq clk wait timeout hello_msg n"
| "connect_step pq cd clk (n, WaitForConnectStream wait timeout) =
     poll_wait_for_connect_stream cd clk wait timeout n"

fun connect_rank :: "('prov, 'store) node \<times> connect_state \<Rightarrow> nat" where
  "connect_rank (n, InitConnect strat addr hello_msg) = 2"
| "connect_rank (n, WaitForConnection wait timeout hello_msg) = 1"
| "connect_rank (n, WaitForConnectStream wait timeout) = 0"

lemmas connect_step_defs [hp_defs] =
  poll_init_connect_def poll_wait_for_connection_def poll_wait_for_connect_stream_def

interpretation cm: ranked_machine "connect_step pq cd clk" connect_rank for pq cd clk
proof unfold_locales
  fix c c' :: "('a, 'b) node \<times> connect_state"
  assume goto: "connect_step pq cd clk c = Goto c'"
  obtain n st where c: "c = (n, st)" by force
  from goto show "connect_rank c' < connect_rank c"
    by (cases st) (auto simp: c hp_defs split: sum.splits async.splits prod.splits option.splits)
qed

text \<open>The generated \<^verbatim>\<open>poll\<close>.\<close>

definition connect_poll ::
  "picoquic \<Rightarrow> stream_hello codec \<Rightarrow> clock \<Rightarrow> ('prov, 'store) node \<times> connect_state \<Rightarrow>
     (hp_stream, fault) poll \<times> ('prov, 'store) node \<times> connect_state" where
  "connect_poll pq cd clk c = run_machine (connect_step pq cd clk) connect_rank c"

lemma connect_poll_unfold:
  "connect_poll pq cd clk c = (case connect_step pq cd clk c of
     Stay c' \<Rightarrow> (Ok NotReady, c') | Goto c' \<Rightarrow> connect_poll pq cd clk c'
   | Finish r c' \<Rightarrow> (Ok (Ready r), c') | Fail e c' \<Rightarrow> (Err e, c'))"
  unfolding connect_poll_def by (rule cm.run_unfold)

section \<open>Trying strategies\<close>

text \<open>
  The connect future is \<open>None\<close> once it has completed. The contract of \<^verbatim>\<open>Future\<close> leaves a poll
  after completion undefined (it may panic or block); here it is a fault of its own.
\<close>

record connect_with_strategies =
  cws_strategies :: "new_connection_handle list"
  cws_connect :: "connect_state option"
  cws_addr :: socket_addr
  cws_hello_msg :: stream_hello

text \<open>\<open>None\<close> is the panic on an empty list.\<close>

definition connect_with_strategies_new ::
  "new_connection_handle list \<Rightarrow> socket_addr \<Rightarrow> stream_hello \<Rightarrow> connect_with_strategies option" where
  "connect_with_strategies_new strategies addr hello_msg = (case vec_pop strategies of
     (None, _) \<Rightarrow> None
   | (Some strategy, rest) \<Rightarrow> Some \<lparr>cws_strategies = rest,
       cws_connect = Some (InitConnect strategy addr hello_msg), cws_addr = addr, cws_hello_msg = hello_msg\<rparr>)"

definition cws_inner_poll ::
  "picoquic \<Rightarrow> stream_hello codec \<Rightarrow> clock \<Rightarrow> ('prov, 'store) node \<Rightarrow> connect_with_strategies \<Rightarrow>
     (hp_stream, fault) poll \<times> ('prov, 'store) node \<times> connect_with_strategies" where
  "cws_inner_poll pq cd clk n s = (case cws_connect s of
     None \<Rightarrow> (Err (Panicked ''polled after completion''), n, s)
   | Some st \<Rightarrow> (case connect_poll pq cd clk (n, st) of
       (Ok NotReady, n', st') \<Rightarrow> (Ok NotReady, n', s\<lparr>cws_connect := Some st'\<rparr>)
     | (p, n', st') \<Rightarrow> (p, n', s\<lparr>cws_connect := None\<rparr>)))"

text \<open>The address is left out of the text of the last error.\<close>

definition connect_with_strategies_poll ::
  "picoquic \<Rightarrow> stream_hello codec \<Rightarrow> clock \<Rightarrow> ('prov, 'store) node \<Rightarrow> connect_with_strategies \<Rightarrow>
     (hp_stream, fault) poll \<times> ('prov, 'store) node \<times> connect_with_strategies" where
  "connect_with_strategies_poll pq cd clk n s = (case cws_inner_poll pq cd clk n s of
     (Ok (Ready con), n1, s1) \<Rightarrow> (Ok (Ready con), n1, s1)
   | (Ok NotReady, n1, s1) \<Rightarrow> (Ok NotReady, n1, s1)
   | (Err (Panicked m), n1, s1) \<Rightarrow> (Err (Panicked m), n1, s1)
   | (Err (Raised e), n1, s1) \<Rightarrow>
       (case vec_pop (cws_strategies s1) of
          (Some strat, rest) \<Rightarrow>
            (case cws_inner_poll pq cd clk n1 (s1\<lparr>cws_strategies := rest,
                    cws_connect := Some (InitConnect strat (cws_addr s1) (cws_hello_msg s1))\<rparr>) of
               (Err f, n2, s2) \<Rightarrow> (Err f, n2, s2)
             | (Ok _, n2, s2) \<Rightarrow> (Ok NotReady, n2, s2))
        | (None, _) \<Rightarrow> (map_err Raised (bail ''No strategies left for connecting to: ''), n1, s1)))"

section \<open>Lemmas\<close>

lemma connect_poll_init:
  "connect_poll pq cd clk (n, InitConnect strat addr m) =
     connect_poll pq cd clk (n, WaitForConnection (new_connection pq strat addr) (timeout_new clk (from_secs 4)) m)"
  by (simp add: connect_poll_unfold [of _ _ _ "(n, InitConnect strat addr m)"] poll_init_connect_def)

text \<open>An elapsed timer ends the attempt, whatever the transport has to say.\<close>

lemma connect_poll_timeout:
  "timeout_poll clk t = Err e \<Longrightarrow>
     connect_poll pq cd clk (n, WaitForConnection w t m) = (Err (Raised e), n, WaitForConnection w t m)"
  "timeout_poll clk t = Err e \<Longrightarrow>
     connect_poll pq cd clk (n, WaitForConnectStream f t) = (Err (Raised e), n, WaitForConnectStream f t)"
  by (simp_all add: connect_poll_unfold [of _ _ _ "(n, WaitForConnection w t m)"]
      connect_poll_unfold [of _ _ _ "(n, WaitForConnectStream f t)"]
      poll_wait_for_connection_def poll_wait_for_connect_stream_def)

lemma connect_poll_stream:
  assumes "timeout_poll clk t = Ok NotReady"
  shows "connect_poll pq cd clk (n, WaitForConnectStream f t) = (case new_stream_poll cd f of
      None \<Rightarrow> (Err (Panicked ''sending stream hello''), n, WaitForConnectStream f t)
    | Some (Err e, f') \<Rightarrow> (Err (Raised e), n, WaitForConnectStream f' t)
    | Some (Ok p, f') \<Rightarrow> (Ok p, n, WaitForConnectStream f' t))"
  using assms
  by (simp add: connect_poll_unfold [of _ _ _ "(n, WaitForConnectStream f t)"] poll_wait_for_connect_stream_def
      split: option.splits prod.splits sum.splits async.splits)

lemma connect_poll_connection:
  assumes "timeout_poll clk t = Ok NotReady"
  shows "connect_poll pq cd clk (n, WaitForConnection w t m) = (case node_connection_poll w n of
      (Err e, w', n') \<Rightarrow> (Err (Raised e), n', WaitForConnection w' t m)
    | (Ok NotReady, w', n') \<Rightarrow> (Ok NotReady, n', WaitForConnection w' t m)
    | (Ok (Ready con), w', n') \<Rightarrow> connect_poll pq cd clk (spawn_connection con n',
        WaitForConnectStream (con_new_stream_with_hello pq con m) (timeout_new_reset clk t)))"
  using assms
  by (simp add: connect_poll_unfold [of _ _ _ "(n, WaitForConnection w t m)"] poll_wait_for_connection_def
      split: prod.splits sum.splits async.splits)

text \<open>
  Everything an attempt does to the node: nothing, or one connection is spawned and it is the
  one that \<open>connection_new\<close> registered. A refused connection changes nothing.
\<close>

inductive node_effect :: "('prov, 'store) node \<Rightarrow> ('prov, 'store) node \<Rightarrow> bool" for n where
  nothing: "node_effect n n"
| spawned: "connection_new con l h (nd_registry n) (nd_auth n) = (Ok c, reg, auth) \<Longrightarrow>
    node_effect n (spawn_connection c (n\<lparr>nd_registry := reg, nd_auth := auth\<rparr>))"

lemma node_connection_pollE:
  assumes "node_connection_poll f n = (p, f', n')"
  obtains (idle) "n' = n" "\<nexists>c. p = Ok (Ready c)"
    | (made) con c reg auth where
        "connection_new con (ncf_local_peer_identifier f) (ncf_new_con_handle f) (nd_registry n) (nd_auth n) = (Ok c, reg, auth)"
        "p = Ok (Ready c)" "n' = n\<lparr>nd_registry := reg, nd_auth := auth\<rparr>"
proof (cases "\<exists>con t. ncf_new_con_recv f = Ok (Ready con) # t")
  case True
  then obtain con t where t: "ncf_new_con_recv f = Ok (Ready con) # t" by blast
  obtain r reg auth where new:
    "connection_new con (ncf_local_peer_identifier f) (ncf_new_con_handle f) (nd_registry n) (nd_auth n) = (r, reg, auth)"
    by (metis prod_cases3)
  show ?thesis
  proof (cases r)
    case (Inl e)
    with new have "reg = nd_registry n" "auth = nd_auth n" by (auto dest: connection_new_ErrD)
    with assms t new Inl show ?thesis
      by (intro idle) (auto simp: node_connection_poll_def new_connection_poll_def Let_def)
  next
    case (Inr c)
    with assms t new show ?thesis
      by (intro made [of con c reg auth]) (auto simp: node_connection_poll_def new_connection_poll_def Let_def)
  qed
next
  case False
  have "n' = n \<and> (\<nexists>c. p = Ok (Ready c))"
    using assms False
    by (cases "ncf_new_con_recv f")
      (auto simp: node_connection_poll_def new_connection_poll_def Let_def split: sum.splits async.splits)
  then show ?thesis using idle by blast
qed

lemma connect_stream_node:
  "connect_poll pq cd clk (n, WaitForConnectStream f t) = (p, n', st') \<Longrightarrow> n' = n"
  by (cases rule: timeout_poll_cases [of clk t])
    (auto simp: connect_poll_timeout connect_poll_stream split: option.splits prod.splits sum.splits)

lemma connect_connection_node:
  assumes "connect_poll pq cd clk (n, WaitForConnection w t m) = (p, n', st')"
  shows "node_effect n n'"
proof (cases rule: timeout_poll_cases [of clk t])
  case running
  obtain q w' n1 where np: "node_connection_poll w n = (q, w', n1)" by (metis prod_cases3)
  from np show ?thesis
  proof (cases rule: node_connection_pollE)
    case idle
    with assms running np show ?thesis
      by (auto simp: connect_poll_connection intro!: node_effect.nothing split: sum.splits async.splits)
  next
    case (made con c reg auth)
    then have "connect_poll pq cd clk (spawn_connection c n1,
        WaitForConnectStream (con_new_stream_with_hello pq c m) (timeout_new_reset clk t)) = (p, n', st')"
      using assms running np by (simp add: connect_poll_connection)
    from connect_stream_node [OF this] have "n' = spawn_connection c n1" .
    with made show ?thesis by (simp add: node_effect.spawned)
  qed
next
  case (elapsed e)
  with assms show ?thesis by (simp add: connect_poll_timeout node_effect.nothing)
qed

lemma connect_node_effect: "connect_poll pq cd clk (n, st) = (p, n', st') \<Longrightarrow> node_effect n n'"
  by (cases st)
    (auto simp: connect_poll_init dest: connect_connection_node connect_stream_node intro: node_effect.nothing)

text \<open>A node whose registry, authenticator and live connections fit together stays so.\<close>

lemma node_effect_connections:
  assumes "node_effect n n'" and "connections T hs (nd_registry n) (nd_auth n) cs"
  obtains new where "nd_spawned n' = nd_spawned n @ new" "length new \<le> 1"
    "connections T hs (nd_registry n') (nd_auth n') (cs + mset new)"
  using assms(1)
proof cases
  case nothing
  with assms(2) show ?thesis by (intro that [of "[]"]) auto
next
  case (spawned con l h c reg auth)
  with connections.opened [OF assms(2) spawned(2)] show ?thesis
    by (intro that [of "[c]"]) (auto simp: spawn_connection_def)
qed

section \<open>Concrete values\<close>

text \<open>
  A node that has checked the certificate of connection 7, and a future that will yield this
  connection.
\<close>

definition demo_node :: "peer_id \<Rightarrow> (unit, unit) node" where
  "demo_node key = \<lparr>nd_registry = inner_new, nd_auth = \<lparr>incoming_con_pub_keys =
       [7 \<mapsto> \<lparr>pk_buf = key @ replicate (64 - length key) 0, pk_len = length key, pk_pub_key = None\<rparr>], incoming_certificates = None,
     outgoing_certificates = None, store_orig_pub_key = True\<rparr>, nd_spawned = []\<rparr>"

definition demo_connection :: connection_wrapper where
  "demo_connection = \<lparr>cw_con = \<lparr>pqc_id = 7, pqc_in = [], pqc_local = SocketAddrV4 167772161 7000,
     pqc_peer = SocketAddrV4 167772162 8000\<rparr>\<rparr>"

definition demo_con_handle :: "peer_id \<Rightarrow> new_connection_handle" where
  "demo_con_handle local = new_connection_handle_new local NewConnectionHandleWrapper"

definition demo_con_future :: "peer_id \<Rightarrow> (connection_wrapper, error) tape \<Rightarrow> new_connection_future" where
  "demo_con_future local t = \<lparr>ncf_new_con_recv = t, ncf_new_con_handle = demo_con_handle local,
     ncf_local_peer_identifier = local\<rparr>"

lemmas demo_con_defs = demo_node_def demo_connection_def demo_con_handle_def demo_con_future_def
  new_connection_handle_new_def

section \<open>Properties\<close>

text \<open>
  C38. When an attempt with one strategy fails, the next one is started and polled once, and the
  answer of that poll is not looked at: if it already was a stream, the stream is dropped, the
  caller is told to wait, and there is no attempt left that could ever finish.
\<close>

theorem strategy_ready_dropped:
  assumes "cws_inner_poll pq cd clk n s = (Err (Raised e), n1, s1)" "cws_strategies s1 = strats @ [strat]"
    and "connect_poll pq cd clk (n1, InitConnect strat (cws_addr s1) (cws_hello_msg s1)) = (Ok (Ready stream), n2, st)"
  shows "\<exists>s2. connect_with_strategies_poll pq cd clk n s = (Ok NotReady, n2, s2) \<and> cws_connect s2 = None \<and>
    cws_strategies s2 = strats"
  using assms by (simp add: connect_with_strategies_poll_def cws_inner_poll_def)

theorem strategy_ready_dropped_witness:
  "\<exists>n2 s2. connect_with_strategies_poll (demo_picoquic\<lparr>dial := \<lambda>_ _. [Ok (Ready (cw_con demo_connection))]\<rparr>)
      (prompt_codec []) (documented_clock 9) (demo_node [9]) \<lparr>cws_strategies = [demo_con_handle [1]],
        cws_connect = Some (WaitForConnection (demo_con_future [1] []) (timeout_new (documented_clock 0) 4) RegistryHello),
        cws_addr = SocketAddrV4 167772162 8000, cws_hello_msg = RegistryHello\<rparr> = (Ok NotReady, n2, s2) \<and>
      cws_connect s2 = None"
proof -
  let ?pq = "demo_picoquic\<lparr>dial := \<lambda>_ _. [Ok (Ready (cw_con demo_connection))]\<rparr>"
  let ?s = "\<lparr>cws_strategies = [demo_con_handle [1]],
        cws_connect = Some (WaitForConnection (demo_con_future [1] []) (timeout_new (documented_clock 0) 4) RegistryHello),
        cws_addr = SocketAddrV4 167772162 8000, cws_hello_msg = RegistryHello\<rparr>"
  have late: "timeout_poll (documented_clock 9) (timeout_new (documented_clock 0) 4) = Err (CustomError ''Timeout'')"
    by (simp add: timeout_poll_documented timeout_new_def bail_def error_from_failure_def)
  have first: "cws_inner_poll ?pq (prompt_codec []) (documented_clock 9) (demo_node [9]) ?s =
      (Err (Raised (CustomError ''Timeout'')), demo_node [9], ?s\<lparr>cws_connect := None\<rparr>)"
    by (simp add: cws_inner_poll_def connect_poll_timeout(1) [OF late])
  have running: "timeout_poll (documented_clock 9) (timeout_new (documented_clock 9) (from_secs 4)) = Ok NotReady"
    "timeout_poll (documented_clock 9) (timeout_new_reset (documented_clock 9)
       (timeout_new (documented_clock 9) (from_secs 4))) = Ok NotReady"
    by (simp_all add: timeout_poll_documented timeout_new_def timeout_new_reset_def timeout_reset_def from_secs_def)
  have "\<exists>stream n2 st. connect_poll ?pq (prompt_codec []) (documented_clock 9)
      (demo_node [9], InitConnect (demo_con_handle [1]) (SocketAddrV4 167772162 8000) RegistryHello) =
      (Ok (Ready stream), n2, st)"
    by (simp add: connect_poll_init connect_poll_connection running connect_poll_stream
        node_connection_poll_def new_connection_poll_def new_connection_def handle_new_connection_def
        connection_wrapper_new_def connection_new_def incoming_con_pub_key_def con_connection_id_def demo_defs
        demo_con_defs Let_def register_peer_def inner_new_def new_stream_poll_def con_new_stream_with_hello_def
        new_stream_future_new_def con_new_stream_def hello_target_def ps_send_prompt pk_deref_def)
  with strategy_ready_dropped [OF first, of "[]" "demo_con_handle [1]"] show ?thesis by fastforce
qed

end
