(* ===== verification/Build.thy ===== *)
theory Build
  imports Connect
begin

text \<open>
  \<^verbatim>\<open>build_connection_to_peer.rs\<close>: the three parts of the hole punching exchange. The initiating
  peer runs the state machine \<open>build_step\<close>; the peer in the middle sends both sides the
  address it sees them under (\<open>prepare_streams_for_building\<close>); the requested peer runs
  \<open>build_remote_poll\<close>. The network interfaces of the host are a parameter.
\<close>

section \<open>Addresses of the host\<close>

definition get_interface_addresses :: "ip_addr list list \<Rightarrow> socket_addr \<Rightarrow> socket_addr list" where
  "get_interface_addresses interfaces local_addr =
     map (\<lambda>ip. socket_addr_new ip (sock_port local_addr))
       (filter (\<lambda>ip. \<not> is_loopback ip) (concat interfaces))"

section \<open>The initiating peer\<close>

text \<open>The fields of the states stand in the order of the source.\<close>

datatype build_state =
    WaitingForProxyStream new_stream_future duration new_connection_handle new_stream_handle peer_id peer_id
  | WaitingForInternetAddressInformation "build_protocol pstream" duration new_connection_handle
      new_stream_handle peer_id peer_id
  | WaitingForExchangeAddressInformation "build_protocol pstream" duration new_connection_handle
      new_stream_handle peer_id peer_id
  | WaitingForConnection timeout "new_connection_future list" "build_protocol pstream" peer_id peer_id
      new_stream_handle
  | WaitingForStream new_stream_future "build_protocol pstream" peer_id new_stream_handle
  | ProxyStream "build_protocol pstream" peer_id new_stream_handle

definition build_connection_to_peer_new ::
  "picoquic \<Rightarrow> peer_id \<Rightarrow> peer_id \<Rightarrow> new_connection_handle \<Rightarrow> new_stream_handle \<Rightarrow> duration \<Rightarrow> build_state" where
  "build_connection_to_peer_new pq local_peer_identifier peer_identifier nch nsh timeout =
     (let proxy_stream = new_stream_with_hello pq nsh (ProxyBuildConnectionToPeer peer_identifier) in
      WaitingForProxyStream proxy_stream timeout nch nsh peer_identifier local_peer_identifier)"

type_synonym ('prov, 'store) build_after =
  "(('prov, 'store) node \<times> build_state, hp_stream, fault) after"

definition poll_waiting_for_proxy_stream ::
  "stream_hello codec \<Rightarrow> build_protocol codec \<Rightarrow> new_stream_future \<Rightarrow> duration \<Rightarrow> new_connection_handle \<Rightarrow>
     new_stream_handle \<Rightarrow> peer_id \<Rightarrow> peer_id \<Rightarrow> ('prov, 'store) node \<Rightarrow> ('prov, 'store) build_after" where
  "poll_waiting_for_proxy_stream cdh cdb f timeout nch nsh peer local n =
     (case new_stream_poll cdh f of
        None \<Rightarrow> Fail (Panicked ''sending stream hello'') (n, WaitingForProxyStream f timeout nch nsh peer local)
      | Some (Err e, f') \<Rightarrow> Fail (Raised e) (n, WaitingForProxyStream f' timeout nch nsh peer local)
      | Some (Ok NotReady, f') \<Rightarrow> Stay (n, WaitingForProxyStream f' timeout nch nsh peer local)
      | Some (Ok (Ready proxy_stream), f') \<Rightarrow>
          Goto (n, WaitingForInternetAddressInformation (pstream_new cdb (st_stream proxy_stream))
                     timeout nch nsh peer local))"

definition poll_waiting_for_internet_address_information ::
  "ip_addr list list \<Rightarrow> build_protocol pstream \<Rightarrow> duration \<Rightarrow> new_connection_handle \<Rightarrow>
     new_stream_handle \<Rightarrow> peer_id \<Rightarrow> peer_id \<Rightarrow> ('prov, 'store) node \<Rightarrow> ('prov, 'store) build_after" where
  "poll_waiting_for_internet_address_information ifs ps timeout nch nsh peer local n =
     (case ps_poll ps of (r, ps1) \<Rightarrow>
        let stuck = (\<lambda>ps. (n, WaitingForInternetAddressInformation ps timeout nch nsh peer local)) in
        (case r of
           Err e \<Rightarrow> Fail (Raised e) (stuck ps1)
         | Ok NotReady \<Rightarrow> Stay (stuck ps1)
         | Ok (Ready None) \<Rightarrow> Fail (Raised (error_from_failure
             ''Stream closed while waiting for internet address information.'')) (stuck ps1)
         | Ok (Ready (Some (InternetAddressInformation addr))) \<Rightarrow>
             (let addresses = get_interface_addresses ifs (io_local_addr (ps_io ps1)) @ [addr] in
              case ps_send BuildFrame (ExchangeAddressInformation addresses) ps1 of
                (Err e, ps2) \<Rightarrow> Fail (Raised e) (stuck ps2)
              | (Ok _, ps2) \<Rightarrow>
                  Goto (n, WaitingForExchangeAddressInformation ps2 timeout nch nsh peer local))
         | Ok (Ready (Some _)) \<Rightarrow> Fail (Raised (error_from_failure
             ''Received illegal message while waiting for internet address information'')) (stuck ps1)))"

definition poll_waiting_for_exchange_address_information ::
  "picoquic \<Rightarrow> clock \<Rightarrow> build_protocol pstream \<Rightarrow> duration \<Rightarrow> new_connection_handle \<Rightarrow>
     new_stream_handle \<Rightarrow> peer_id \<Rightarrow> peer_id \<Rightarrow> ('prov, 'store) node \<Rightarrow> ('prov, 'store) build_after" where
  "poll_waiting_for_exchange_address_information pq clk ps timeout nch nsh peer local n =
     (case ps_poll ps of (r, ps1) \<Rightarrow>
        let stuck = (n, WaitingForExchangeAddressInformation ps1 timeout nch nsh peer local) in
        (case r of
           Err e \<Rightarrow> Fail (Raised e) stuck
         | Ok NotReady \<Rightarrow> Stay stuck
         | Ok (Ready None) \<Rightarrow> Fail (Raised (error_from_failure
             ''Stream closed while waiting for exchange address information.'')) stuck
         | Ok (Ready (Some (ExchangeAddressInformation addresses))) \<Rightarrow>
             Goto (n, WaitingForConnection (timeout_new clk timeout) (map (new_connection pq nch) addresses)
                        ps1 local peer nsh)
         | Ok (Ready (Some _)) \<Rightarrow> Fail (Raised (error_from_failure
             ''Received illegal message while waiting for exchange address information'')) stuck))"

definition poll_waiting_for_connection ::
  "picoquic \<Rightarrow> clock \<Rightarrow> timeout \<Rightarrow> new_connection_future list \<Rightarrow> build_protocol pstream \<Rightarrow> peer_id \<Rightarrow>
     peer_id \<Rightarrow> new_stream_handle \<Rightarrow> ('prov, 'store) node \<Rightarrow> ('prov, 'store) build_after" where
  "poll_waiting_for_connection pq clk timeout new_cons ps local peer nsh n =
     (if \<not> is_ok (timeout_poll clk timeout) then Goto (n, ProxyStream ps peer nsh)
      else (case futures_poll node_connection_poll new_cons n of (r, new_cons', n1) \<Rightarrow>
        (case r of
           Err _ \<Rightarrow> Goto (n1, ProxyStream ps peer nsh)
         | Ok (Ready None) \<Rightarrow> Goto (n1, ProxyStream ps peer nsh)
         | Ok NotReady \<Rightarrow> Stay (n1, WaitingForConnection timeout new_cons' ps local peer nsh)
         | Ok (Ready (Some new_con)) \<Rightarrow>
             Goto (spawn_connection new_con n1,
                   WaitingForStream (con_new_stream_with_hello pq new_con (User local)) ps peer nsh))))"

definition poll_waiting_for_stream ::
  "stream_hello codec \<Rightarrow> new_stream_future \<Rightarrow> build_protocol pstream \<Rightarrow> peer_id \<Rightarrow> new_stream_handle \<Rightarrow>
     ('prov, 'store) node \<Rightarrow> ('prov, 'store) build_after" where
  "poll_waiting_for_stream cdh f ps peer nsh n =
     (case new_stream_poll cdh f of
        None \<Rightarrow> Fail (Panicked ''sending stream hello'') (n, WaitingForStream f ps peer nsh)
      | Some (Err _, f') \<Rightarrow> Goto (n, ProxyStream ps peer nsh)
      | Some (Ok NotReady, f') \<Rightarrow> Stay (n, WaitingForStream f' ps peer nsh)
      | Some (Ok (Ready stream), f') \<Rightarrow> Finish stream (n, WaitingForStream f' ps peer nsh))"

definition poll_proxy_stream ::
  "build_protocol pstream \<Rightarrow> peer_id \<Rightarrow> new_stream_handle \<Rightarrow> ('prov, 'store) node \<Rightarrow>
     ('prov, 'store) build_after" where
  "poll_proxy_stream ps peer nsh n =
     (case ps_send BuildFrame ProxyConnection ps of
        (Err e, ps1) \<Rightarrow> Fail (Raised e) (n, ProxyStream ps1 peer nsh)
      | (Ok _, ps1) \<Rightarrow>
          Finish (stream_new (strat_from_pstream ps1) peer nsh True) (n, ProxyStream ps1 peer nsh))"

fun build_step ::
  "picoquic \<Rightarrow> stream_hello codec \<Rightarrow> build_protocol codec \<Rightarrow> ip_addr list list \<Rightarrow> clock \<Rightarrow>
     ('prov, 'store) node \<times> build_state \<Rightarrow> ('prov, 'store) build_after" where
  "build_step pq cdh cdb ifs clk (n, WaitingForProxyStream f timeout nch nsh peer local) =
     poll_waiting_for_proxy_stream cdh cdb f timeout nch nsh peer local n"
| "build_step pq cdh cdb ifs clk (n, WaitingForInternetAddressInformation ps timeout nch nsh peer local) =
     poll_waiting_for_internet_address_information ifs ps timeout nch nsh peer local n"
| "build_step pq cdh cdb ifs clk (n, WaitingForExchangeAddressInformation ps timeout nch nsh peer local) =
     poll_waiting_for_exchange_address_information pq clk ps timeout nch nsh peer local n"
| "build_step pq cdh cdb ifs clk (n, WaitingForConnection t new_cons ps local peer nsh) =
     poll_waiting_for_connection pq clk t new_cons ps local peer nsh n"
| "build_step pq cdh cdb ifs clk (n, WaitingForStream f ps peer nsh) =
     poll_waiting_for_stream cdh f ps peer nsh n"
| "build_step pq cdh cdb ifs clk (n, ProxyStream ps peer nsh) = poll_proxy_stream ps peer nsh n"

fun build_rank :: "('prov, 'store) node \<times> build_state \<Rightarrow> nat" where
  "build_rank (n, WaitingForProxyStream f timeout nch nsh peer local) = 5"
| "build_rank (n, WaitingForInternetAddressInformation ps timeout nch nsh peer local) = 4"
| "build_rank (n, WaitingForExchangeAddressInformation ps timeout nch nsh peer local) = 3"
| "build_rank (n, WaitingForConnection t new_cons ps local peer nsh) = 2"
| "build_rank (n, WaitingForStream f ps peer nsh) = 1"
| "build_rank (n, ProxyStream ps peer nsh) = 0"

lemmas build_step_defs =
  poll_waiting_for_proxy_stream_def poll_waiting_for_internet_address_information_def
  poll_waiting_for_exchange_address_information_def poll_waiting_for_connection_def
  poll_waiting_for_stream_def poll_proxy_stream_def

interpretation bm: ranked_machine "build_step pq cdh cdb ifs clk" build_rank for pq cdh cdb ifs clk
proof unfold_locales
  fix c c' :: "('a, 'b) node \<times> build_state"
  assume goto: "build_step pq cdh cdb ifs clk c = Goto c'"
  obtain n st where c: "c = (n, st)" by force
  from goto show "build_rank c' < build_rank c"
    by (cases st)
      (auto simp: c build_step_defs Let_def
        split: sum.splits async.splits prod.splits option.splits if_splits build_protocol.splits)
qed

definition build_poll ::
  "picoquic \<Rightarrow> stream_hello codec \<Rightarrow> build_protocol codec \<Rightarrow> ip_addr list list \<Rightarrow> clock \<Rightarrow>
     ('prov, 'store) node \<times> build_state \<Rightarrow> (hp_stream, fault) poll \<times> ('prov, 'store) node \<times> build_state" where
  "build_poll pq cdh cdb ifs clk c = run_machine (build_step pq cdh cdb ifs clk) build_rank c"

lemma build_poll_unfold:
  "build_poll pq cdh cdb ifs clk c = (case build_step pq cdh cdb ifs clk c of
     Stay c' \<Rightarrow> (Ok NotReady, c') | Goto c' \<Rightarrow> build_poll pq cdh cdb ifs clk c'
   | Finish r c' \<Rightarrow> (Ok (Ready r), c') | Fail e c' \<Rightarrow> (Err e, c'))"
  unfolding build_poll_def by (rule bm.run_unfold)

section \<open>The requested peer\<close>

record build_remote =
  br_stream :: "build_protocol pstream option"
  br_internet_addr :: "socket_addr option"
  br_peer_identifier :: peer_id
  br_new_stream_handle :: new_stream_handle
  br_new_con_handle :: new_connection_handle

definition build_remote_new ::
  "build_protocol codec \<Rightarrow> strat_stream \<Rightarrow> peer_id \<Rightarrow> new_stream_handle \<Rightarrow> new_connection_handle \<Rightarrow> build_remote" where
  "build_remote_new cdb stream peer_identifier nsh nch =
     \<lparr>br_stream = Some (pstream_new cdb stream), br_internet_addr = None, br_peer_identifier = peer_identifier,
      br_new_stream_handle = nsh, br_new_con_handle = nch\<rparr>"

text \<open>The connection attempts that are started and dropped at once.\<close>

definition create_poke_connections ::
  "picoquic \<Rightarrow> new_connection_handle \<Rightarrow> socket_addr list \<Rightarrow> (socket_addr \<times> new_connection_future) list" where
  "create_poke_connections pq nch peer_addresses = map (\<lambda>a. (a, new_connection pq nch a)) peer_addresses"

text \<open>
  What a poll does besides changing its own state: the streams handed to the context, and the
  pokes.
\<close>

record build_effects =
  be_passed :: "hp_stream list"
  be_pokes :: "(socket_addr \<times> new_connection_future) list"

definition no_effects :: build_effects where
  "no_effects = \<lparr>be_passed = [], be_pokes = []\<rparr>"

definition add_pokes :: "(socket_addr \<times> new_connection_future) list \<Rightarrow> build_effects \<Rightarrow> build_effects" where
  "add_pokes ps e = e\<lparr>be_pokes := ps @ be_pokes e\<rparr>"

function build_remote_poll ::
  "picoquic \<Rightarrow> ip_addr list list \<Rightarrow> build_remote \<Rightarrow> (unit, fault) poll \<times> build_remote \<times> build_effects" where
  "build_remote_poll pq ifs b = (case br_stream b of
     None \<Rightarrow> (Err (Panicked ''Can not be polled twice!''), b, no_effects)
   | Some ps \<Rightarrow> (case ps_poll ps of (r, ps1) \<Rightarrow>
       let b1 = b\<lparr>br_stream := Some ps1\<rparr> in
       (case r of
          Err e \<Rightarrow> (Err (Raised e), b1, no_effects)
        | Ok NotReady \<Rightarrow> (Ok NotReady, b1, no_effects)
        | Ok (Ready None) \<Rightarrow> (Ok (Ready ()), b1, no_effects)
        | Ok (Ready (Some (InternetAddressInformation addr))) \<Rightarrow>
            build_remote_poll pq ifs (b1\<lparr>br_internet_addr := Some addr\<rparr>)
        | Ok (Ready (Some (ExchangeAddressInformation remote_addresses))) \<Rightarrow>
            (case br_internet_addr b1 of
               None \<Rightarrow> (Err (Panicked ''Internet address should already be set!''), b1, no_effects)
             | Some internet_addr \<Rightarrow>
                 (let addresses = get_interface_addresses ifs (io_local_addr (ps_io ps1)) @ [internet_addr] in
                  case ps_send BuildFrame (ExchangeAddressInformation addresses) ps1 of
                    (Err e, ps2) \<Rightarrow> (Err (Raised e), b1\<lparr>br_stream := Some ps2\<rparr>, no_effects)
                  | (Ok _, ps2) \<Rightarrow>
                      (let pokes = create_poke_connections pq (br_new_con_handle b1) remote_addresses in
                       case build_remote_poll pq ifs (b1\<lparr>br_stream := Some ps2\<rparr>) of
                         (p, b', e) \<Rightarrow> (p, b', add_pokes pokes e))))
        | Ok (Ready (Some ProxyConnection)) \<Rightarrow>
            (Ok (Ready ()), b1\<lparr>br_stream := None\<rparr>, no_effects\<lparr>be_passed :=
               [stream_new (strat_from_pstream ps1) (br_peer_identifier b) (br_new_stream_handle b) True]\<rparr>))))"
  by pat_completeness auto
termination
proof (relation "measure (\<lambda>(pq, ifs, b). case br_stream b of None \<Rightarrow> 0 | Some p \<Rightarrow> length (ps_msgs p))")
qed (auto dest!: ps_poll_progress [OF sym] ps_send_codec [OF sym])

declare build_remote_poll.simps [simp del]

section \<open>The peer in the middle\<close>

definition prepare_stream_for_building :: "build_protocol pstream \<Rightarrow> error + strat_stream" where
  "prepare_stream_for_building peer =
     (let peer_addr = io_peer_addr (ps_io peer) in
      case ps_send BuildFrame (InternetAddressInformation peer_addr) peer of
        (Err e, _) \<Rightarrow> Err e
      | (Ok _, peer') \<Rightarrow> Ok (strat_from_pstream peer'))"

definition prepare_streams_for_building ::
  "build_protocol codec \<Rightarrow> build_protocol codec \<Rightarrow> strat_stream \<Rightarrow> strat_stream \<Rightarrow>
     error + strat_stream \<times> strat_stream" where
  "prepare_streams_for_building cd0 cd1 peer requested_peer =
     (case prepare_stream_for_building (pstream_new cd0 peer) of
        Err e \<Rightarrow> Err e
      | Ok peer' \<Rightarrow> (case prepare_stream_for_building (pstream_new cd1 requested_peer) of
          Err e \<Rightarrow> Err e
        | Ok requested_peer' \<Rightarrow> Ok (peer', requested_peer')))"

section \<open>Lemmas on the initiating peer\<close>

lemma interface_addressesD:
  "a \<in> set (get_interface_addresses ifs l) \<Longrightarrow>
     sock_port a = sock_port l \<and> sock_ip a \<in> set (concat ifs) \<and> \<not> is_loopback (sock_ip a)"
  by (auto simp: get_interface_addresses_def)

lemma build_poll_proxy:
  "build_poll pq cdh cdb ifs clk (n, ProxyStream ps peer nsh) =
     (case ps_send BuildFrame ProxyConnection ps of
        (Err e, ps1) \<Rightarrow> (Err (Raised e), n, ProxyStream ps1 peer nsh)
      | (Ok _, ps1) \<Rightarrow> (Ok (Ready (stream_new (strat_from_pstream ps1) peer nsh True)), n, ProxyStream ps1 peer nsh))"
  by (simp add: build_poll_unfold [of _ _ _ _ _ "(n, ProxyStream ps peer nsh)"] poll_proxy_stream_def
      split: prod.splits sum.splits)

lemma build_poll_stream:
  "build_poll pq cdh cdb ifs clk (n, WaitingForStream f ps peer nsh) =
     (case new_stream_poll cdh f of
        None \<Rightarrow> (Err (Panicked ''sending stream hello''), n, WaitingForStream f ps peer nsh)
      | Some (Err _, f') \<Rightarrow> build_poll pq cdh cdb ifs clk (n, ProxyStream ps peer nsh)
      | Some (Ok p, f') \<Rightarrow> (Ok p, n, WaitingForStream f' ps peer nsh))"
  by (simp add: build_poll_unfold [of _ _ _ _ _ "(n, WaitingForStream f ps peer nsh)"] poll_waiting_for_stream_def
      split: option.splits prod.splits sum.splits async.splits)

lemma build_poll_connection:
  "build_poll pq cdh cdb ifs clk (n, WaitingForConnection t new_cons ps local peer nsh) =
     (if \<not> is_ok (timeout_poll clk t) then build_poll pq cdh cdb ifs clk (n, ProxyStream ps peer nsh)
      else (case futures_poll node_connection_poll new_cons n of
          (Ok NotReady, new_cons', n1) \<Rightarrow> (Ok NotReady, n1, WaitingForConnection t new_cons' ps local peer nsh)
        | (Ok (Ready (Some con)), _, n1) \<Rightarrow> build_poll pq cdh cdb ifs clk (spawn_connection con n1,
             WaitingForStream (con_new_stream_with_hello pq con (User local)) ps peer nsh)
        | (_, _, n1) \<Rightarrow> build_poll pq cdh cdb ifs clk (n1, ProxyStream ps peer nsh)))"
  by (simp add: build_poll_unfold [of _ _ _ _ _ "(n, WaitingForConnection t new_cons ps local peer nsh)"]
      poll_waiting_for_connection_def split: prod.splits sum.splits async.splits option.splits)

lemma futures_scan_node:
  "futures_scan node_connection_poll fs n = (p, fs', n') \<Longrightarrow>
     (n' = n \<and> (\<nexists>c. p = Ok (Ready c))) \<or>
     (\<exists>con l h c reg auth. connection_new con l h (nd_registry n) (nd_auth n) = (Ok c, reg, auth) \<and>
        p = Ok (Ready c) \<and> n' = n\<lparr>nd_registry := reg, nd_auth := auth\<rparr>)"
proof (induction fs arbitrary: fs')
  case Nil
  then show ?case by auto
next
  case (Cons f fs)
  obtain q f1 n1 where f: "node_connection_poll f n = (q, f1, n1)" by (metis prod_cases3)
  from f show ?case
  proof (cases rule: node_connection_pollE)
    case idle
    with Cons f show ?thesis by (auto split: sum.splits async.splits prod.splits)
  next
    case (made con c reg auth)
    with Cons.prems f have "p = Ok (Ready c)" "n' = n\<lparr>nd_registry := reg, nd_auth := auth\<rparr>" by auto
    with made(1) show ?thesis by blast
  qed
qed

lemma build_proxy_node:
  "build_poll pq cdh cdb ifs clk (n, ProxyStream ps peer nsh) = (p, n', st') \<Longrightarrow> n' = n"
  by (auto simp: build_poll_proxy split: prod.splits sum.splits)

lemma build_stream_node:
  "build_poll pq cdh cdb ifs clk (n, WaitingForStream f ps peer nsh) = (p, n', st') \<Longrightarrow> n' = n"
  by (auto simp: build_poll_stream split: option.splits prod.splits sum.splits dest: build_proxy_node)

lemma build_connection_node:
  assumes "build_poll pq cdh cdb ifs clk (n, WaitingForConnection t new_cons ps local peer nsh) = (p, n', st')"
  shows "node_effect n n'"
proof -
  obtain q fs n1 where fp: "futures_poll node_connection_poll new_cons n = (q, fs, n1)" by (metis prod_cases3)
  consider (same) "n1 = n" "\<nexists>c. q = Ok (Ready (Some c))"
    | (made) con l h c reg auth where
      "connection_new con l h (nd_registry n) (nd_auth n) = (Ok c, reg, auth)"
      "q = Ok (Ready (Some c))" "n1 = n\<lparr>nd_registry := reg, nd_auth := auth\<rparr>"
  proof (cases "new_cons = []")
    case True
    with fp that(1) show ?thesis by (auto simp: futures_poll_def)
  next
    case False
    obtain r fs2 n2 where scan: "futures_scan node_connection_poll new_cons n = (r, fs2, n2)"
      by (metis prod_cases3)
    with fp False have "q = map_ok (map_async Some) r" "n1 = n2" by (simp_all add: futures_poll_def)
    with futures_scan_node [OF scan] that show ?thesis
      by (cases r) (auto simp: map_async_def split: async.splits)
  qed
  then show ?thesis
  proof cases
    case same
    with assms fp have "n' = n"
      by (auto simp: build_poll_connection split: if_splits sum.splits async.splits option.splits dest: build_proxy_node)
    then show ?thesis by (simp add: node_effect.nothing)
  next
    case made
    with assms fp have "n' = n \<or> n' = spawn_connection c n1"
      by (auto simp: build_poll_connection split: if_splits dest: build_proxy_node build_stream_node)
    with made show ?thesis by (auto intro: node_effect.nothing node_effect.spawned)
  qed
qed

lemma build_step_Goto_node:
  "build_step pq cdh cdb ifs clk (n, st) = Goto (n1, st1) \<Longrightarrow>
     (\<nexists>t nc ps l p h. st = WaitingForConnection t nc ps l p h) \<Longrightarrow> n1 = n"
  by (cases st)
    (auto simp: build_step_defs Let_def
      split: sum.splits async.splits prod.splits option.splits if_splits build_protocol.splits)

lemma build_step_stop_node:
  "build_step pq cdh cdb ifs clk (n, st) = s \<Longrightarrow>
     (\<nexists>t nc ps l p h. st = WaitingForConnection t nc ps l p h) \<Longrightarrow> (\<nexists>c. s = Goto c) \<Longrightarrow>
     (case s of Stay (n1, _) \<Rightarrow> n1 = n | Finish _ (n1, _) \<Rightarrow> n1 = n | Fail _ (n1, _) \<Rightarrow> n1 = n | Goto _ \<Rightarrow> False)"
  by (cases st)
    (auto simp: build_step_defs Let_def
      split: sum.splits async.splits prod.splits option.splits if_splits build_protocol.splits)

lemma build_node_effect: "build_poll pq cdh cdb ifs clk c = (p, n', st') \<Longrightarrow> node_effect (fst c) n'"
proof (induction c rule: bm.run_induct [of pq cdh cdb ifs clk])
  case (stop c)
  obtain n st where c: "c = (n, st)" by force
  show ?case
  proof (cases "\<exists>t nc ps l p h. st = WaitingForConnection t nc ps l p h")
    case True
    with stop c show ?thesis by (auto dest: build_connection_node)
  next
    case False
    obtain s where s: "build_step pq cdh cdb ifs clk (n, st) = s" by blast
    with build_step_stop_node [OF s False] stop c show ?thesis
      by (cases s) (auto simp: build_poll_unfold [of _ _ _ _ _ "(n, st)"] node_effect.nothing)
  qed
next
  case (goto c c')
  obtain n st n1 st1 where c: "c = (n, st)" "c' = (n1, st1)" by (metis surj_pair)
  show ?case
  proof (cases "\<exists>t nc ps l p h. st = WaitingForConnection t nc ps l p h")
    case True
    with goto.prems c show ?thesis by (auto dest: build_connection_node)
  next
    case False
    from build_step_Goto_node [OF goto.hyps [unfolded c] False] goto c show ?thesis
      by (simp add: build_poll_unfold [of _ _ _ _ _ "(n, st)"])
  qed
qed

section \<open>Which stream an attempt returns\<close>

text \<open>The peer an attempt is for, and what is known while it runs.\<close>

fun build_target :: "build_state \<Rightarrow> peer_id" where
  "build_target (WaitingForProxyStream f timeout nch nsh peer local) = peer"
| "build_target (WaitingForInternetAddressInformation ps timeout nch nsh peer local) = peer"
| "build_target (WaitingForExchangeAddressInformation ps timeout nch nsh peer local) = peer"
| "build_target (WaitingForConnection t new_cons ps local peer nsh) = peer"
| "build_target (WaitingForStream f ps peer nsh) = peer"
| "build_target (ProxyStream ps peer nsh) = peer"

fun build_inv :: "('prov, 'store) node \<Rightarrow> build_state \<Rightarrow> bool" where
  "build_inv n (WaitingForStream f ps peer nsh) \<longleftrightarrow>
     (\<exists>c \<in> set (nd_spawned n). nsf_peer_identifier f = cn_peer_identifier c \<and>
        nsf_new_stream_handle f = cn_new_stream_handle c \<and> (\<exists>local. nsf_stream_hello f = User local))"
| "build_inv n _ \<longleftrightarrow> True"

definition build_result_ok :: "peer_id \<Rightarrow> ('prov, 'store) node \<Rightarrow> hp_stream \<Rightarrow> bool" where
  "build_result_ok peer n s \<longleftrightarrow> stream_wf s \<and>
     (if is_p2p s then \<exists>c \<in> set (nd_spawned n). st_peer_identifier s = cn_peer_identifier c \<and>
         nsh_new_stream_handle (st_new_stream_handle s) = nsh_new_stream_handle (cn_new_stream_handle c)
      else st_peer_identifier s = peer)"

text \<open>The polls of one attempt, while other tasks of the node spawn connections in between.\<close>

inductive build_run ::
  "picoquic \<Rightarrow> stream_hello codec \<Rightarrow> build_protocol codec \<Rightarrow> ip_addr list list \<Rightarrow> build_state \<Rightarrow>
     ('prov, 'store) node \<Rightarrow> build_state \<Rightarrow> bool"
  for pq cdh cdb ifs st0 where
  start: "build_run pq cdh cdb ifs st0 n st0"
| poll: "build_run pq cdh cdb ifs st0 n st \<Longrightarrow>
    build_poll pq cdh cdb ifs clk (n, st) = (Ok NotReady, n', st') \<Longrightarrow> build_run pq cdh cdb ifs st0 n' st'"
| others: "build_run pq cdh cdb ifs st0 n st \<Longrightarrow> set (nd_spawned n) \<subseteq> set (nd_spawned n') \<Longrightarrow>
    build_run pq cdh cdb ifs st0 n' st"

lemma build_inv_mono: "build_inv n st \<Longrightarrow> set (nd_spawned n) \<subseteq> set (nd_spawned n') \<Longrightarrow> build_inv n' st"
  by (cases st) auto

lemma con_stream_future_simps [simp]:
  "nsf_peer_identifier (con_new_stream_with_hello pq c m) = cn_peer_identifier c"
  "nsf_new_stream_handle (con_new_stream_with_hello pq c m) = cn_new_stream_handle c"
  "nsf_stream_hello (con_new_stream_with_hello pq c m) = m"
  "nsf_new_stream (con_new_stream_with_hello pq c m) = con_new_stream pq (cn_con c)"
  by (simp_all add: con_new_stream_with_hello_def new_stream_future_new_def)

lemma new_stream_poll_keeps:
  "new_stream_poll cd f = Some (r, f') \<Longrightarrow> nsf_peer_identifier f' = nsf_peer_identifier f \<and>
     nsf_new_stream_handle f' = nsf_new_stream_handle f \<and> nsf_stream_hello f' = nsf_stream_hello f"
  by (auto simp: new_stream_poll_def Let_def split: prod.splits sum.splits async.splits)

lemma build_proxy_result:
  "build_poll pq cdh cdb ifs clk (n, ProxyStream ps peer nsh) = (Ok (Ready s), n', st') \<Longrightarrow>
     build_result_ok peer n' s"
  by (auto simp: build_poll_proxy build_result_ok_def is_p2p_def split: prod.splits sum.splits)

lemma build_stream_result:
  assumes inv: "build_inv n (WaitingForStream f ps peer nsh)"
    and poll: "build_poll pq cdh cdb ifs clk (n, WaitingForStream f ps peer nsh) = (r, n', st')"
  shows "(r = Ok NotReady \<longrightarrow> build_inv n' st' \<and> build_target st' = peer) \<and>
    (\<forall>s. r = Ok (Ready s) \<longrightarrow> build_result_ok peer n' s)"
proof (cases "new_stream_poll cdh f")
  case None
  with poll show ?thesis by (auto simp: build_poll_stream)
next
  case (Some a)
  then obtain q f' where np: "new_stream_poll cdh f = Some (q, f')" by force
  show ?thesis
  proof (cases q)
    case (Inl e)
    with np poll have proxy: "build_poll pq cdh cdb ifs clk (n, ProxyStream ps peer nsh) = (r, n', st')"
      by (simp add: build_poll_stream)
    moreover from proxy have "r \<noteq> Ok NotReady"
      by (auto simp: build_poll_proxy split: prod.splits sum.splits)
    ultimately show ?thesis using build_proxy_result by blast
  next
    case (Inr p)
    with np poll have r: "r = Ok p" "n' = n" "st' = WaitingForStream f' ps peer nsh"
      by (auto simp: build_poll_stream)
    have "build_result_ok peer n s" if "p = Ready s" for s
    proof -
      from np Inr that have "new_stream_poll cdh f = Some (Ok (Ready s), f')" by simp
      then show ?thesis using inv
        by (elim new_stream_poll_ReadyE) (auto simp: build_result_ok_def is_p2p_def hello_target_def)
    qed
    then show ?thesis using r inv new_stream_poll_keeps [OF np] by auto
  qed
qed

lemma build_connection_result:
  assumes "build_poll pq cdh cdb ifs clk (n, WaitingForConnection t new_cons ps local peer nsh) = (r, n', st')"
  shows "(r = Ok NotReady \<longrightarrow> build_inv n' st' \<and> build_target st' = peer) \<and>
    (\<forall>s. r = Ok (Ready s) \<longrightarrow> build_result_ok peer n' s)"
proof -
  have proxy: ?thesis if "build_poll pq cdh cdb ifs clk (m, ProxyStream ps peer nsh) = (r, n', st')" for m
  proof -
    from that have "r \<noteq> Ok NotReady" by (auto simp: build_poll_proxy split: prod.splits sum.splits)
    with that show ?thesis using build_proxy_result by blast
  qed
  have direct: ?thesis if "build_poll pq cdh cdb ifs clk (spawn_connection c m,
      WaitingForStream (con_new_stream_with_hello pq c (User local)) ps peer nsh) = (r, n', st')" for c m
    using that by (rule build_stream_result [rotated]) (auto simp: spawn_connection_def)
  obtain q fs n1 where fp: "futures_poll node_connection_poll new_cons n = (q, fs, n1)" by (metis prod_cases3)
  show ?thesis
  proof (cases "is_ok (timeout_poll clk t)")
    case False
    with assms proxy show ?thesis by (simp add: build_poll_connection)
  next
    case True
    with assms fp proxy direct show ?thesis
      by (cases q rule: stream_poll_cases) (auto simp: build_poll_connection)
  qed
qed

fun build_early :: "build_state \<Rightarrow> bool" where
  "build_early (WaitingForProxyStream f timeout nch nsh peer local) = True"
| "build_early (WaitingForInternetAddressInformation ps timeout nch nsh peer local) = True"
| "build_early (WaitingForExchangeAddressInformation ps timeout nch nsh peer local) = True"
| "build_early _ = False"

lemma build_early_step:
  assumes "build_early st"
  shows "case build_step pq cdh cdb ifs clk (n, st) of
      Stay (n', st') \<Rightarrow> n' = n \<and> build_early st' \<and> build_target st' = build_target st
    | Goto (n', st') \<Rightarrow> n' = n \<and> build_inv n st' \<and> build_target st' = build_target st
    | Finish _ _ \<Rightarrow> False | Fail _ _ \<Rightarrow> True"
  using assms
  by (cases st)
    (auto simp: build_step_defs Let_def
      split: sum.splits async.splits prod.splits option.splits if_splits build_protocol.splits)

lemma build_late_result:
  assumes "\<not> build_early st" and "build_inv n st"
    and "build_poll pq cdh cdb ifs clk (n, st) = (r, n', st')"
  shows "(r = Ok NotReady \<longrightarrow> build_inv n' st' \<and> build_target st' = build_target st) \<and>
    (\<forall>s. r = Ok (Ready s) \<longrightarrow> build_result_ok (build_target st) n' s)"
proof (cases st)
  case (ProxyStream ps peer nsh)
  with assms have "r \<noteq> Ok NotReady" by (auto simp: build_poll_proxy split: prod.splits sum.splits)
  with assms ProxyStream build_proxy_result show ?thesis by fastforce
qed (use assms build_stream_result build_connection_result in fastforce)+

lemma build_early_inv: "build_early st \<Longrightarrow> build_inv n st"
  by (cases st) auto

lemma build_poll_result:
  "build_inv (fst c) (snd c) \<Longrightarrow> build_poll pq cdh cdb ifs clk c = (r, n', st') \<Longrightarrow>
     (r = Ok NotReady \<longrightarrow> build_inv n' st' \<and> build_target st' = build_target (snd c)) \<and>
     (\<forall>s. r = Ok (Ready s) \<longrightarrow> build_result_ok (build_target (snd c)) n' s)"
proof (induction c rule: bm.run_induct [of pq cdh cdb ifs clk])
  case (stop c)
  obtain n st where c: "c = (n, st)" by force
  show ?case
  proof (cases "build_early st")
    case True
    from build_early_step [where pq = pq and cdh = cdh and cdb = cdb and ifs = ifs and clk = clk and n = n, OF True] stop c show ?thesis
      by (auto simp: build_poll_unfold [of _ _ _ _ _ "(n, st)"] build_early_inv split: after.splits prod.splits)
  next
    case False
    with build_late_result stop c show ?thesis by fastforce
  qed
next
  case (goto c c')
  obtain n st n1 st1 where c: "c = (n, st)" "c' = (n1, st1)" by (metis surj_pair)
  show ?case
  proof (cases "build_early st")
    case True
    from build_early_step [where pq = pq and cdh = cdh and cdb = cdb and ifs = ifs and clk = clk and n = n, OF True] goto c show ?thesis
      by (simp add: build_poll_unfold [of _ _ _ _ _ "(n, st)"])
  next
    case False
    with build_late_result goto.prems c show ?thesis by fastforce
  qed
qed

lemma build_run_inv: "build_run pq cdh cdb ifs st0 n st \<Longrightarrow> build_early st0 \<Longrightarrow>
    build_inv n st \<and> build_target st = build_target st0"
proof (induction rule: build_run.induct)
  case (start n)
  then show ?case by (simp add: build_early_inv)
next
  case (poll n st clk n' st')
  then show ?case using build_poll_result [of "(n, st)"] by auto
next
  case (others n st n')
  then show ?case using build_inv_mono by blast
qed

section \<open>Concrete values\<close>

text \<open>A network where every dialled address yields connection 7, and an exchange with one address.\<close>

definition demo_dialer :: picoquic where
  "demo_dialer = demo_picoquic\<lparr>dial := (\<lambda>_ _. [Ok (Ready (cw_con demo_connection))])\<rparr>"

definition demo_exchange :: "build_protocol codec" where
  "demo_exchange = prompt_codec
     [Ok (Ready (Some (InternetAddressInformation (SocketAddrV4 167772161 7000)))),
      Ok (Ready (Some (ExchangeAddressInformation [SocketAddrV4 167772162 8000])))]"

definition demo_empty_node :: "(unit, unit) node" where
  "demo_empty_node = \<lparr>nd_registry = inner_new, nd_auth = \<lparr>incoming_con_pub_keys = Map.empty,
     incoming_certificates = None, outgoing_certificates = None, store_orig_pub_key = True\<rparr>, nd_spawned = []\<rparr>"

lemmas demo_run_defs = demo_dialer_def demo_exchange_def demo_defs demo_con_defs
  build_poll_def run_machine_def build_step_defs eval_nat_numeral build_connection_to_peer_new_def Let_def
  new_stream_poll_def handle_new_stream_def ss_new_def stream_wrapper_new_def new_stream_handle_new_def
  hello_target_def ps_send_prompt new_connection_def handle_new_connection_def connection_wrapper_new_def
  timeout_new_running futures_poll_def node_connection_poll_def new_connection_poll_def connection_new_def
  incoming_con_pub_key_def con_connection_id_def register_peer_def inner_new_def con_new_stream_def
  pqc_stream_handle_def con_wrap_stream_def is_p2p_def pk_deref_def

section \<open>Properties of the initiating peer\<close>

text \<open>
  C20. Whatever the peers and the network do, an attempt to reach a peer that returns a stream
  returns either a direct stream over a connection this node has spawned, labelled with the
  authenticated peer of that connection, or a proxied stream labelled with the requested peer;
  and the handle of the stream agrees with these labels.
\<close>

theorem build_stream_origin:
  assumes "build_run pq cdh cdb ifs (build_connection_to_peer_new pq local peer nch nsh d) n st"
    and "build_poll pq cdh cdb ifs clk (n, st) = (Ok (Ready s), n', st')"
  shows "stream_wf s \<and>
    (if is_p2p s then \<exists>c \<in> set (nd_spawned n'). st_peer_identifier s = cn_peer_identifier c \<and>
         nsh_new_stream_handle (st_new_stream_handle s) = nsh_new_stream_handle (cn_new_stream_handle c)
     else st_peer_identifier s = peer)"
proof -
  have start: "build_early (build_connection_to_peer_new pq local peer nch nsh d)"
    "build_target (build_connection_to_peer_new pq local peer nch nsh d) = peer"
    by (simp_all add: build_connection_to_peer_new_def Let_def)
  from build_run_inv [OF assms(1) start(1)] build_poll_result [of "(n, st)", OF _ assms(2)] start(2)
  show ?thesis by (simp add: build_result_ok_def)
qed

theorem build_stream_origin_witness:
  "\<exists>s n' st'. build_poll demo_dialer (prompt_codec []) demo_exchange [] (documented_clock 0)
      (demo_node [9], build_connection_to_peer_new demo_dialer [1] [2] (demo_con_handle [1]) (demo_handle [3] [1]) 5) =
      (Ok (Ready s), n', st') \<and> stream_wf s \<and> is_p2p s \<and>
      (\<exists>c \<in> set (nd_spawned n'). st_peer_identifier s = cn_peer_identifier c)"
proof -
  obtain s n' st' where poll: "build_poll demo_dialer (prompt_codec []) demo_exchange [] (documented_clock 0)
      (demo_node [9], build_connection_to_peer_new demo_dialer [1] [2] (demo_con_handle [1]) (demo_handle [3] [1]) 5) =
      (Ok (Ready s), n', st')" and p2p: "is_p2p s"
    by (simp add: demo_run_defs)
  from build_stream_origin [OF build_run.start poll] p2p poll show ?thesis by auto
qed

text \<open>
  C29. When no connection came up in time, the next poll finishes with the proxy stream: it
  answers ready, tells the other side with \<open>ProxyConnection\<close> after everything sent before,
  and the stream it returns still holds every byte that was not used.
\<close>

theorem build_deadline:
  assumes "timer_documented clk" "to_delay t \<le> now clk" "prompt_sink (ps_codec ps)"
  shows "\<exists>s st'. build_poll pq cdh cdb ifs clk (n, WaitingForConnection t new_cons ps local peer nsh) =
      (Ok (Ready s), n, st') \<and> \<not> is_p2p s \<and> st_peer_identifier s = peer \<and>
      io_out (st_stream s) = ps_written ps @ [BuildFrame ProxyConnection] \<and>
      st_pending s = ps_pending ps"
  using assms
  by (simp add: build_poll_connection timeout_poll_documented build_poll_proxy ps_send_prompt is_p2p_def
      ps_written_def st_pending_def ps_pending_def)

theorem build_deadline_witness:
  "\<exists>s st'. build_poll demo_picoquic (prompt_codec []) (prompt_codec []) [] (documented_clock 20)
      (demo_node [9], WaitingForConnection (timeout_new (documented_clock 5) 15) [demo_con_future [1] []]
         (pstream_new (prompt_codec []) (demo_stream [Ok (Ready (Some [4, 5]))])) [1] [2] (demo_handle [3] [1])) =
      (Ok (Ready s), demo_node [9], st') \<and> \<not> is_p2p s \<and> st_peer_identifier s = [2] \<and>
      io_out (st_stream s) = [BuildFrame ProxyConnection] \<and> st_pending s = [4, 5]"
proof -
  note deadline = build_deadline [of "documented_clock 20" "timeout_new (documented_clock 5) 15"
      "pstream_new (prompt_codec []) (demo_stream [Ok (Ready (Some [4, 5]))])" demo_picoquic "prompt_codec []"
      "prompt_codec []" "[]" "demo_node [9]" "[demo_con_future [1] []]" "[1]" "[2]" "demo_handle [3] [1]"]
  have "to_delay (timeout_new (documented_clock 5) 15) \<le> now (documented_clock 20)"
    by (simp add: timeout_new_def)
  with deadline show ?thesis
    by (simp add: ps_written_def ps_pending_def demo_defs ss_pending_def ss_new_def stream_wrapper_new_def io_out_def)
qed

text \<open>
  C30. The first connection that comes up wins: the attempt opens a stream on it, greets with the
  local peer and returns it, labelled with the identity the handshake authenticated. That
  identity is not compared with the requested peer.
\<close>

theorem build_first_connection:
  assumes "timeout_poll clk t = Ok NotReady" "node_connection_poll f n = (Ok (Ready c), f', n1)"
    and "con_new_stream pq (cn_con c) = Ok (Ready v) # rest" "prompt_sink cdh"
  shows "\<exists>s st'. build_poll pq cdh cdb ifs clk (n, WaitingForConnection t (f # fs) ps local peer nsh) =
      (Ok (Ready s), spawn_connection c n1, st') \<and> is_p2p s \<and>
      st_peer_identifier s = cn_peer_identifier c \<and>
      io_out (st_stream s) = io_out v @ [HelloFrame (User local)]"
  using assms
  by (simp add: build_poll_connection futures_poll_def build_poll_stream new_stream_poll_def Let_def
      hello_target_def ps_send_prompt is_p2p_def)

text \<open>The requested peer is \<open>[2]\<close>; the stream returned leads to the peer \<open>[9]\<close>.\<close>

theorem build_first_connection_witness:
  "\<exists>s n' st'. build_poll demo_picoquic (prompt_codec []) (prompt_codec []) [] (documented_clock 0)
      (demo_node [9], WaitingForConnection (timeout_new (documented_clock 0) 5)
         [demo_con_future [1] [Ok (Ready demo_connection)]]
         (pstream_new (prompt_codec []) (demo_stream [])) [1] [2] (demo_handle [3] [1])) =
      (Ok (Ready s), n', st') \<and> is_p2p s \<and> st_peer_identifier s = [9]"
proof -
  obtain c f' n1 where con: "node_connection_poll (demo_con_future [1] [Ok (Ready demo_connection)]) (demo_node [9]) =
      (Ok (Ready c), f', n1)" and c: "cn_peer_identifier c = [9]" "cn_con c = demo_connection"
    by (simp add: demo_run_defs)
  have str: "\<exists>v rest. con_new_stream demo_picoquic (cn_con c) = Ok (Ready v) # rest"
    by (simp add: c demo_run_defs)
  have "timeout_poll (documented_clock 0) (timeout_new (documented_clock 0) 5) = Ok NotReady"
    by (simp add: timeout_new_running)
  with build_first_connection [OF _ con] str c(1) prompt_codec_prompt show ?thesis by metis
qed

text \<open>
  C37. One failing connection attempt ends the wait: the attempt falls back to the proxy stream
  at once, although other attempts (here \<open>fs\<close>) are still running and the time is not up.
\<close>

theorem build_first_error:
  assumes "timeout_poll clk t = Ok NotReady" "node_connection_poll f n = (Err e, f', n1)"
    and "prompt_sink (ps_codec ps)"
  shows "\<exists>s st'. build_poll pq cdh cdb ifs clk (n, WaitingForConnection t (f # fs) ps local peer nsh) =
      (Ok (Ready s), n, st') \<and> \<not> is_p2p s \<and> st_peer_identifier s = peer"
proof -
  from assms(2) have "n1 = n" by (auto elim: node_connection_pollE)
  with assms show ?thesis
    by (simp add: build_poll_connection futures_poll_def build_poll_proxy ps_send_prompt is_p2p_def)
qed

theorem build_first_error_witness:
  "\<exists>s st'. build_poll demo_picoquic (prompt_codec []) (prompt_codec []) [] (documented_clock 0)
      (demo_node [9], WaitingForConnection (timeout_new (documented_clock 0) 5)
         [demo_con_future [1] [Err (PicoquicError ''unreachable'')],
          demo_con_future [1] [Ok (Ready demo_connection)]]
         (pstream_new (prompt_codec []) (demo_stream [])) [1] [2] (demo_handle [3] [1])) =
      (Ok (Ready s), demo_node [9], st') \<and> \<not> is_p2p s \<and> st_peer_identifier s = [2]"
proof -
  obtain f' n1 where con:
    "node_connection_poll (demo_con_future [1] [Err (PicoquicError ''unreachable'')]) (demo_node [9]) =
      (Err (PicoquicError ''unreachable''), f', n1)"
    by (simp add: demo_run_defs)
  have "timeout_poll (documented_clock 0) (timeout_new (documented_clock 0) 5) = Ok NotReady"
    by (simp add: timeout_new_running)
  from build_first_error [OF this con] show ?thesis by simp
qed

text \<open>
  A poll of an attempt always comes to an end: six handler calls are enough, from any state.
\<close>

theorem build_poll_terminates:
  "drive (build_step pq cdh cdb ifs clk) 6 c = Some (build_poll pq cdh cdb ifs clk c)"
proof -
  have "build_rank c < 6"
    by (cases c, cases "snd c") auto
  then show ?thesis unfolding build_poll_def by (rule bm.run_drive)
qed

text \<open>
  The address exchange of the initiating peer: told its address by the peer in the middle, it
  sends that address after those of its interfaces; given the addresses of the other side, it
  dials exactly these, in order, and starts the time-out.
\<close>

lemma build_exchange:
  assumes "ps_msgs ps = Ok (Ready (Some (InternetAddressInformation a))) #
      Ok (Ready (Some (ExchangeAddressInformation addrs))) # rest"
    and "prompt_sink (ps_codec ps)"
  shows "\<exists>ps'. build_poll pq cdh cdb ifs clk
        (n, WaitingForInternetAddressInformation ps d nch nsh peer local) =
      build_poll pq cdh cdb ifs clk (n, WaitingForConnection (timeout_new clk d)
        (map (new_connection pq nch) addrs) ps' local peer nsh) \<and>
      ps_msgs ps' = rest \<and>
      ps_written ps' = ps_written ps @ [BuildFrame (ExchangeAddressInformation
        (get_interface_addresses ifs (io_local_addr (ps_io ps)) @ [a]))] \<and> ps_write_buf ps' = []"
  using assms
  apply (simp add: build_poll_unfold [of _ _ _ _ _ "(n, WaitingForInternetAddressInformation ps d nch nsh peer local)"]
      build_poll_unfold [of _ _ _ _ _ "(n, WaitingForExchangeAddressInformation p d nch nsh peer local)" for p]
      poll_waiting_for_internet_address_information_def poll_waiting_for_exchange_address_information_def
      ps_send_prompt ps_written_def)
  apply (rule exI, rule conjI, rule refl)
  apply simp
  done

text \<open>
  An attempt keeps the node consistent: it spawns at most one connection per poll, this
  connection is registered and authenticated like every other one, and the registry, the
  authenticator and the live connections still form a reachable state of the node.
\<close>

theorem build_keeps_node:
  assumes "connections T hs (nd_registry n) (nd_auth n) cs"
    and "build_poll pq cdh cdb ifs clk (n, st) = (r, n', st')"
  shows "\<exists>new. nd_spawned n' = nd_spawned n @ new \<and> length new \<le> 1 \<and>
    connections T hs (nd_registry n') (nd_auth n') (cs + mset new)"
  using build_node_effect [OF assms(2)] assms(1) by (elim node_effect_connections) auto

theorem build_keeps_node_witness:
  "\<exists>new. length new \<le> 1 \<and> connections demo_tls []
     (nd_registry (fst (snd (build_poll demo_dialer (prompt_codec []) demo_exchange [] (documented_clock 0)
       (demo_empty_node, build_connection_to_peer_new demo_dialer [1] [2] (demo_con_handle [1]) (demo_handle [3] [1]) 5)))))
     (nd_auth (fst (snd (build_poll demo_dialer (prompt_codec []) demo_exchange [] (documented_clock 0)
       (demo_empty_node, build_connection_to_peer_new demo_dialer [1] [2] (demo_con_handle [1]) (demo_handle [3] [1]) 5)))))
     ({#} + mset new)"
proof -
  have start: "connections demo_tls [] (nd_registry demo_empty_node) (nd_auth demo_empty_node) {#}"
    by (rule connections.start) (simp_all add: demo_empty_node_def)
  obtain r n' st' where poll: "build_poll demo_dialer (prompt_codec []) demo_exchange [] (documented_clock 0)
     (demo_empty_node, build_connection_to_peer_new demo_dialer [1] [2] (demo_con_handle [1]) (demo_handle [3] [1]) 5) =
     (r, n', st')" by (metis prod_cases3)
  from build_keeps_node [OF start poll] poll show ?thesis by auto
qed

section \<open>Properties of the requested peer and of the peer in the middle\<close>

text \<open>One turn of the loop, by the next answer of the stream.\<close>

lemma build_remote_poll_stop:
  assumes "br_stream b = Some ps" "ps_poll ps = (r, ps1)" "\<nexists>m. r = Ok (Ready (Some m))"
  shows "build_remote_poll pq ifs b =
    (case r of Ok NotReady \<Rightarrow> Ok NotReady | Ok _ \<Rightarrow> Ok (Ready ()) | Err e \<Rightarrow> Err (Raised e),
     b\<lparr>br_stream := Some ps1\<rparr>, no_effects)"
  using assms by (subst build_remote_poll.simps) (auto simp: Let_def split: sum.splits async.splits option.splits)

lemma build_remote_poll_item:
  assumes "br_stream b = Some ps" "ps_poll ps = (Ok (Ready (Some m)), ps1)"
  shows "m = InternetAddressInformation a \<Longrightarrow> build_remote_poll pq ifs b =
      build_remote_poll pq ifs (b\<lparr>br_stream := Some ps1, br_internet_addr := Some a\<rparr>)"
    and "m = ExchangeAddressInformation as \<Longrightarrow> br_internet_addr b = None \<Longrightarrow> build_remote_poll pq ifs b =
      (Err (Panicked ''Internet address should already be set!''), b\<lparr>br_stream := Some ps1\<rparr>, no_effects)"
    and "m = ExchangeAddressInformation as \<Longrightarrow> br_internet_addr b = Some a \<Longrightarrow>
      build_remote_poll pq ifs b =
        (case ps_send BuildFrame (ExchangeAddressInformation
            (get_interface_addresses ifs (io_local_addr (ps_io ps1)) @ [a])) ps1 of
           (Err e, ps2) \<Rightarrow> (Err (Raised e), b\<lparr>br_stream := Some ps2\<rparr>, no_effects)
         | (Ok _, ps2) \<Rightarrow> (case build_remote_poll pq ifs (b\<lparr>br_stream := Some ps2\<rparr>) of
             (p, b', e) \<Rightarrow> (p, b', add_pokes (create_poke_connections pq (br_new_con_handle b) as) e)))"
    and "m = ProxyConnection \<Longrightarrow> build_remote_poll pq ifs b =
      (Ok (Ready ()), b\<lparr>br_stream := None\<rparr>, no_effects\<lparr>be_passed :=
         [stream_new (strat_from_pstream ps1) (br_peer_identifier b) (br_new_stream_handle b) True]\<rparr>)"
  using assms by (subst build_remote_poll.simps; simp add: Let_def split: prod.splits sum.splits)+

text \<open>What holds of every poll, by induction over the messages that have arrived.\<close>

lemma build_remote_induct [consumes 1, case_names stop internet early send_error exchange proxy]:
  assumes "br_stream b = Some ps"
    and stop: "\<And>b ps r ps1. br_stream b = Some ps \<Longrightarrow> ps_poll ps = (r, ps1) \<Longrightarrow>
      \<nexists>m. r = Ok (Ready (Some m)) \<Longrightarrow> P b (case r of Ok NotReady \<Rightarrow> Ok NotReady | Ok _ \<Rightarrow> Ok (Ready ())
        | Err e \<Rightarrow> Err (Raised e)) (b\<lparr>br_stream := Some ps1\<rparr>) no_effects"
    and internet: "\<And>b ps a ps1 p b' e. br_stream b = Some ps \<Longrightarrow>
      ps_poll ps = (Ok (Ready (Some (InternetAddressInformation a))), ps1) \<Longrightarrow>
      P (b\<lparr>br_stream := Some ps1, br_internet_addr := Some a\<rparr>) p b' e \<Longrightarrow> P b p b' e"
    and early: "\<And>b ps as ps1. br_stream b = Some ps \<Longrightarrow>
      ps_poll ps = (Ok (Ready (Some (ExchangeAddressInformation as))), ps1) \<Longrightarrow> br_internet_addr b = None \<Longrightarrow>
      P b (Err (Panicked ''Internet address should already be set!'')) (b\<lparr>br_stream := Some ps1\<rparr>) no_effects"
    and send_error: "\<And>b ps as ps1 a e ps2. br_stream b = Some ps \<Longrightarrow>
      ps_poll ps = (Ok (Ready (Some (ExchangeAddressInformation as))), ps1) \<Longrightarrow> br_internet_addr b = Some a \<Longrightarrow>
      P b (Err (Raised e)) (b\<lparr>br_stream := Some ps2\<rparr>) no_effects"
    and exchange: "\<And>b ps as ps1 a ps2 p b' e. br_stream b = Some ps \<Longrightarrow>
      ps_poll ps = (Ok (Ready (Some (ExchangeAddressInformation as))), ps1) \<Longrightarrow> br_internet_addr b = Some a \<Longrightarrow>
      P (b\<lparr>br_stream := Some ps2\<rparr>) p b' e \<Longrightarrow>
      P b p b' (add_pokes (create_poke_connections pq (br_new_con_handle b) as) e)"
    and proxy: "\<And>b ps ps1. br_stream b = Some ps \<Longrightarrow> ps_poll ps = (Ok (Ready (Some ProxyConnection)), ps1) \<Longrightarrow>
      P b (Ok (Ready ())) (b\<lparr>br_stream := None\<rparr>) (no_effects\<lparr>be_passed :=
         [stream_new (strat_from_pstream ps1) (br_peer_identifier b) (br_new_stream_handle b) True]\<rparr>)"
  shows "case build_remote_poll pq ifs b of (p, b', e) \<Rightarrow> P b p b' e"
  using assms(1)
proof (induction "length (ps_msgs ps)" arbitrary: b ps rule: less_induct)
  case less
  obtain r ps1 where poll: "ps_poll ps = (r, ps1)" by force
  show ?case
  proof (cases "\<exists>m. r = Ok (Ready (Some m))")
    case False
    with less.prems poll stop show ?thesis by (simp add: build_remote_poll_stop)
  next
    case True
    then obtain m where r: "r = Ok (Ready (Some m))" by blast
    have shorter: "length (ps_msgs ps1) < length (ps_msgs ps)" using ps_poll_progress [OF poll] r by simp
    note item = build_remote_poll_item [OF less.prems poll [unfolded r]]
    show ?thesis
    proof (cases m)
      case (InternetAddressInformation a)
      with less.hyps [OF shorter, of "b\<lparr>br_stream := Some ps1, br_internet_addr := Some a\<rparr>"]
        internet [OF less.prems poll [unfolded r InternetAddressInformation]]
      show ?thesis by (auto simp: item(1))
    next
      case (ExchangeAddressInformation as)
      note ex = poll [unfolded r ExchangeAddressInformation]
      show ?thesis
      proof (cases "br_internet_addr b")
        case None
        with early [OF less.prems ex] ExchangeAddressInformation show ?thesis by (simp add: item(2))
      next
        case (Some a)
        obtain q ps2 where send: "ps_send BuildFrame (ExchangeAddressInformation
            (get_interface_addresses ifs (io_local_addr (ps_io ps1)) @ [a])) ps1 = (q, ps2)" by force
        from ps_send_codec [OF send] shorter have "length (ps_msgs ps2) < length (ps_msgs ps)" by simp
        from less.hyps [OF this, of "b\<lparr>br_stream := Some ps2\<rparr>"] send_error [OF less.prems ex Some]
          exchange [OF less.prems ex Some] send ExchangeAddressInformation Some
        show ?thesis by (cases q) (auto simp: item(3))
      qed
    next
      case ProxyConnection
      with proxy [OF less.prems poll [unfolded r ProxyConnection]] show ?thesis by (simp add: item(4))
    qed
  qed
qed

text \<open>
  C36. The requested peer's task panics exactly when the addresses of the other side arrive before
  it was told its own address: the message that triggers it comes from the network.
\<close>

theorem build_remote_panics:
  assumes "br_stream b = Some ps"
  shows "(\<exists>x. fst (build_remote_poll pq ifs b) = Err (Panicked x)) \<longleftrightarrow>
    br_internet_addr b = None \<and> (\<exists>addrs rest. ps_msgs ps = Ok (Ready (Some (ExchangeAddressInformation addrs))) # rest)"
proof -
  have known: "fst (build_remote_poll pq ifs b) \<noteq> Err (Panicked x)"
    if "br_stream b = Some ps" "br_internet_addr b = Some a" for b ps x a
  proof -
    from that(1) have "case build_remote_poll pq ifs b of (p, b', e) \<Rightarrow>
        br_internet_addr b \<noteq> None \<longrightarrow> p \<noteq> Err (Panicked x)"
      by (induction rule: build_remote_induct) (auto split: sum.splits async.splits)
    with that show ?thesis by (auto split: prod.splits)
  qed
  show ?thesis
  proof (cases "br_internet_addr b")
    case (Some a)
    with known [OF assms Some] show ?thesis by auto
  next
    case None
    show ?thesis
    proof (cases "ps_poll ps")
      case (Pair r ps1)
      note poll = Pair
      show ?thesis
      proof (cases "\<exists>m. r = Ok (Ready (Some m))")
        case False
        with assms poll show ?thesis
          by (cases "ps_msgs ps") (auto simp: build_remote_poll_stop split: sum.splits async.splits option.splits)
      next
        case True
        then obtain m where r: "r = Ok (Ready (Some m))" by blast
        note item = build_remote_poll_item [OF assms poll [unfolded r]]
        from poll r have msgs: "ps_msgs ps = Ok (Ready (Some m)) # ps_msgs ps1"
          by (cases "ps_msgs ps") auto
        show ?thesis
        proof (cases m)
          case (InternetAddressInformation a)
          with known [of "b\<lparr>br_stream := Some ps1, br_internet_addr := Some a\<rparr>"] msgs show ?thesis
            by (simp add: item(1))
        qed (use None msgs in \<open>simp_all add: item(2) item(4)\<close>)
      qed
    qed
  qed
qed

theorem build_remote_panics_witness:
  "\<exists>x. fst (build_remote_poll demo_picoquic [] (build_remote_new
      (prompt_codec [Ok (Ready (Some (ExchangeAddressInformation [])))]) (demo_stream []) [2] (demo_handle [3] [1])
      (demo_con_handle [1]))) = Err (Panicked x)"
  using build_remote_panics [of "build_remote_new
      (prompt_codec [Ok (Ready (Some (ExchangeAddressInformation [])))]) (demo_stream []) [2] (demo_handle [3] [1])
      (demo_con_handle [1])"]
  by (simp add: build_remote_new_def)

text \<open>
  A poll of the requested peer's task hands at most one stream to the context. It does so only
  on the request for a proxy connection, as the last thing the task does, and the stream is
  labelled as proxied to the peer that asked.
\<close>

theorem build_remote_passes:
  assumes "br_stream b = Some ps" "build_remote_poll pq ifs b = (r, b', e)"
  shows "be_passed e = [] \<or> (\<exists>s. be_passed e = [s] \<and> r = Ok (Ready ()) \<and> br_stream b' = None \<and>
    st_peer_identifier s = br_peer_identifier b \<and> \<not> is_p2p s \<and> stream_wf s)"
proof -
  from assms(1) have "case build_remote_poll pq ifs b of (r, b', e) \<Rightarrow>
      be_passed e = [] \<or> (\<exists>s. be_passed e = [s] \<and> r = Ok (Ready ()) \<and> br_stream b' = None \<and>
      st_peer_identifier s = br_peer_identifier b \<and> \<not> is_p2p s \<and> stream_wf s)"
    by (induction rule: build_remote_induct) (auto simp: no_effects_def add_pokes_def is_p2p_def)
  with assms(2) show ?thesis by simp
qed

theorem build_remote_passes_witness:
  "\<exists>r b' e. build_remote_poll demo_picoquic [] (build_remote_new
      (prompt_codec [Ok (Ready (Some ProxyConnection))]) (demo_stream []) [2] (demo_handle [3] [1])
      (demo_con_handle [1])) = (r, b', e) \<and> (be_passed e = [] \<or> (\<exists>s. be_passed e = [s] \<and> r = Ok (Ready ()) \<and>
      br_stream b' = None \<and> st_peer_identifier s = [2] \<and> \<not> is_p2p s \<and> stream_wf s))"
proof -
  let ?b = "build_remote_new (prompt_codec [Ok (Ready (Some ProxyConnection))]) (demo_stream []) [2]
      (demo_handle [3] [1]) (demo_con_handle [1])"
  obtain r b' e where poll: "build_remote_poll demo_picoquic [] ?b = (r, b', e)" by (metis prod_cases3)
  have "br_stream ?b = Some (pstream_new (prompt_codec [Ok (Ready (Some ProxyConnection))]) (demo_stream []))"
    "br_peer_identifier ?b = [2]"
    by (simp_all add: build_remote_new_def)
  with build_remote_passes [OF _ poll] poll show ?thesis by auto
qed

text \<open>
  The address exchange of the requested peer: told its address and given the addresses of the
  other side, it answers with the addresses of its interfaces and its own address, and pokes
  exactly the addresses it was given, in order.
\<close>

lemma build_remote_exchange:
  assumes "br_stream b = Some ps" "prompt_sink (ps_codec ps)"
    and "ps_msgs ps = [Ok (Ready (Some (InternetAddressInformation a))),
      Ok (Ready (Some (ExchangeAddressInformation addrs)))]"
  shows "\<exists>b' e ps'. build_remote_poll pq ifs b = (Ok NotReady, b', e) \<and>
    be_pokes e = map (\<lambda>x. (x, new_connection pq (br_new_con_handle b) x)) addrs \<and> be_passed e = [] \<and>
    br_stream b' = Some ps' \<and> ps_write_buf ps' = [] \<and>
    io_out (ps_io ps') = ps_written ps @ [BuildFrame (ExchangeAddressInformation
      (get_interface_addresses ifs (io_local_addr (ps_io ps)) @ [a]))]"
  using assms
  by (simp add: build_remote_poll_item(1) build_remote_poll_item(3) build_remote_poll_stop ps_send_prompt
      create_poke_connections_def add_pokes_def no_effects_def ps_written_def)

text \<open>
  The peer in the middle tells each side the address it sees that side under, once, and the
  two streams it then joins still hold every byte they held before.
\<close>

lemma prepare_streams_addresses:
  assumes "prompt_sink cd0" "prompt_sink cd1"
  shows "\<exists>s0' s1'. prepare_streams_for_building cd0 cd1 s0 s1 = Ok (s0', s1') \<and>
    io_out s0' = io_out s0 @ [BuildFrame (InternetAddressInformation (io_peer_addr s0))] \<and>
    io_out s1' = io_out s1 @ [BuildFrame (InternetAddressInformation (io_peer_addr s1))] \<and>
    ss_pending s0' = ss_pending s0 \<and> ss_pending s1' = ss_pending s1"
  using assms
  by (simp add: prepare_streams_for_building_def prepare_stream_for_building_def ps_send_prompt ps_pending_def)

end
