(* ===== verification/Remote.thy ===== *)
theory Remote
  imports Connect
begin

text \<open>
  \<^verbatim>\<open>registries/remote.rs\<close>: the registry that asks a remote peer. One side (\<open>outgoing_stream\<close>)
  sends requests and pings, collects the answers and hands them to those who asked; the other
  side (\<open>registry_stream\<close>) answers from its own table of connected peers. A one-shot sender is
  its number and whether its receiver is gone; the answers handed to senders are returned as a
  list, in order.
\<close>

section \<open>Requests with a time limit\<close>

record result_sender =
  rs_id :: nat
  rs_canceled :: bool

record timeout_request =
  tr_timeout :: timeout
  tr_result_recv :: "(registry_result, unit) tape"

definition timeout_request_new :: "clock \<Rightarrow> (registry_result, unit) tape \<Rightarrow> duration \<Rightarrow> timeout_request" where
  "timeout_request_new clk recv d = \<lparr>tr_timeout = timeout_new clk d, tr_result_recv = recv\<rparr>"

definition timeout_request_poll ::
  "clock \<Rightarrow> timeout_request \<Rightarrow> (registry_result, unit) poll \<times> timeout_request" where
  "timeout_request_poll clk r =
     (if \<not> is_ok (timeout_poll clk (tr_timeout r)) then (Err (), r)
      else case poll_tape (tr_result_recv r) of (p, t) \<Rightarrow> (p, r\<lparr>tr_result_recv := t\<rparr>))"

text \<open>
  The registry itself holds the sending end of a channel; \<open>None\<close> is the panic when the handler
  at the other end is gone.
\<close>

record remote_registry =
  rr_find_peer_request :: "(peer_id \<times> result_sender) list"
  rr_handler_alive :: bool

definition remote_find_peer ::
  "clock \<Rightarrow> (registry_result, unit) tape \<Rightarrow> peer_id \<Rightarrow> result_sender \<Rightarrow> remote_registry \<Rightarrow>
     (timeout_request \<times> remote_registry) option" where
  "remote_find_peer clk receiver peer sender r =
     (if rr_handler_alive r
      then Some (timeout_request_new clk receiver (from_secs 10),
                 r\<lparr>rr_find_peer_request := rr_find_peer_request r @ [(peer, sender)]\<rparr>)
      else None)"

section \<open>The requesting side\<close>

text \<open>Tokio's \<^verbatim>\<open>Interval\<close>: the instant of the next tick and the period.\<close>

record interval =
  iv_next :: instant
  iv_period :: duration

definition interval_poll :: "clock \<Rightarrow> interval \<Rightarrow> (instant option, string) poll \<times> interval" where
  "interval_poll clk i = (case timer_answer clk (iv_next i) of
     Err e \<Rightarrow> (Err e, i)
   | Ok NotReady \<Rightarrow> (Ok NotReady, i)
   | Ok (Ready _) \<Rightarrow> (Ok (Ready (Some (iv_next i))), i\<lparr>iv_next := iv_next i + iv_period i\<rparr>))"

record outgoing_stream =
  os_stream :: "registry_protocol pstream"
  os_requests :: "peer_id \<rightharpoonup> result_sender list"
  os_new_stream_handle :: new_stream_handle
  os_find_peer_request :: "((peer_id \<times> result_sender) option, unit) tape"
  os_ping_interval :: interval
  os_pong_timeout :: instant
  os_pong_timeout_duration :: duration
  os_peer_identifier :: peer_id

definition outgoing_stream_new ::
  "registry_protocol codec \<Rightarrow> clock \<Rightarrow> strat_stream \<Rightarrow> new_stream_handle \<Rightarrow>
     ((peer_id \<times> result_sender) option, unit) tape \<Rightarrow> duration \<Rightarrow> peer_id \<Rightarrow> outgoing_stream" where
  "outgoing_stream_new cdr clk stream nsh requests ping_interval peer_identifier =
     (let pong_timeout_duration = ping_interval * 3 in
      \<lparr>os_stream = pstream_new cdr stream, os_requests = Map.empty, os_new_stream_handle = nsh,
       os_find_peer_request = requests, os_ping_interval = \<lparr>iv_next = now clk, iv_period = ping_interval\<rparr>,
       os_pong_timeout = now clk + pong_timeout_duration, os_pong_timeout_duration = pong_timeout_duration,
       os_peer_identifier = peer_identifier\<rparr>)"

text \<open>
  The panics of \<^verbatim>\<open>OutgoingStream::new\<close>: of \<^verbatim>\<open>Interval::new\<close> for a period of zero, of the multiplication
  and of the addition when the result is not a duration or an instant.
\<close>

definition outgoing_stream_panics :: "clock \<Rightarrow> duration \<Rightarrow> bool" where
  "outgoing_stream_panics clk ping_interval \<longleftrightarrow>
     ping_interval = 0 \<or> max_duration < ping_interval * 3 \<or> instant_add clk (ping_interval * 3) = None"

type_synonym answers = "(nat \<times> registry_result) list"

text \<open>Taking the requests out of the channel.\<close>

function poll_find_peer_request ::
  "outgoing_stream \<Rightarrow> (unit, error) poll \<times> outgoing_stream \<times> answers" where
  "poll_find_peer_request s = (case poll_tape (os_find_peer_request s) of (r, t) \<Rightarrow>
     let s1 = s\<lparr>os_find_peer_request := t\<rparr> in
     (case r of
        Err _ \<Rightarrow> (Err (error_from_str ''poll_find_peer_request: Unknown error''), s1, [])
      | Ok NotReady \<Rightarrow> (Ok NotReady, s1, [])
      | Ok (Ready None) \<Rightarrow> (Ok (Ready ()), s1, [])
      | Ok (Ready (Some (peer, sender))) \<Rightarrow>
          (if rs_canceled sender then poll_find_peer_request s1
           else if peer = os_peer_identifier s then
             (case poll_find_peer_request s1 of (p, s2, a) \<Rightarrow>
                (p, s2, (rs_id sender, FoundWithHandle (os_new_stream_handle s)) # a))
           else (case os_requests s peer of
             Some waiting \<Rightarrow>
               poll_find_peer_request (s1\<lparr>os_requests := (os_requests s)(peer \<mapsto> waiting @ [sender])\<rparr>)
           | None \<Rightarrow>
               (let s2 = s1\<lparr>os_requests := (os_requests s)(peer \<mapsto> [sender])\<rparr> in
                case ps_send RegistryFrame (Find peer) (os_stream s) of
                  (Err e, ps) \<Rightarrow> (Err e, s2\<lparr>os_stream := ps\<rparr>, [])
                | (Ok _, ps) \<Rightarrow> poll_find_peer_request (s2\<lparr>os_stream := ps\<rparr>))))))"
  by pat_completeness auto
termination
  by (relation "measure (\<lambda>s. length (os_find_peer_request s))") (auto dest!: poll_tapeD [OF sym])

declare poll_find_peer_request.simps [simp del]

definition poll_ping_and_pong :: "clock \<Rightarrow> outgoing_stream \<Rightarrow> (error + unit) \<times> outgoing_stream" where
  "poll_ping_and_pong clk s =
     (let (tick, iv) = interval_poll clk (os_ping_interval s); s1 = s\<lparr>os_ping_interval := iv\<rparr> in
      case (case tick of
          Err e \<Rightarrow> (Err (error_from_timer e), s1)
        | Ok (Ready (Some _)) \<Rightarrow> (case ps_send RegistryFrame Ping (os_stream s1) of
            (r, ps) \<Rightarrow> (r, s1\<lparr>os_stream := ps\<rparr>))
        | Ok _ \<Rightarrow> (Ok (), s1)) of
        (Err e, s2) \<Rightarrow> (Err e, s2)
      | (Ok _, s2) \<Rightarrow> (case timer_answer clk (os_pong_timeout s2) of
            Err e \<Rightarrow> (Err (error_from_timer e), s2)
          | Ok (Ready _) \<Rightarrow> (bail ''OutgoingStream timeout'', s2)
          | Ok NotReady \<Rightarrow> (Ok (), s2)))"

text \<open>\<^verbatim>\<open>self.requests.remove(&peer)\<close> and the answer to everyone who waits for that peer.\<close>

definition answer_requests ::
  "peer_id \<Rightarrow> registry_result \<Rightarrow> outgoing_stream \<Rightarrow> outgoing_stream \<times> answers" where
  "answer_requests peer res s = (case os_requests s peer of
     Some requests \<Rightarrow> (s\<lparr>os_requests := (os_requests s)(peer := None)\<rparr>, map (\<lambda>req. (rs_id req, res)) requests)
   | None \<Rightarrow> (s, []))"

lemma answer_requests_stream: "answer_requests p r s = (s', a) \<Longrightarrow> os_stream s' = os_stream s"
  by (auto simp: answer_requests_def split: option.splits)

text \<open>The loop over the messages of the remote peer.\<close>

function outgoing_messages :: "clock \<Rightarrow> outgoing_stream \<Rightarrow> (unit, fault) poll \<times> outgoing_stream \<times> answers" where
  "outgoing_messages clk s = (case ps_poll (os_stream s) of (r, ps) \<Rightarrow>
     let s1 = s\<lparr>os_stream := ps\<rparr> in
     (case r of
        Err e \<Rightarrow> (Err (Raised e), s1, [])
      | Ok NotReady \<Rightarrow> (Ok NotReady, s1, [])
      | Ok (Ready None) \<Rightarrow> (Ok (Ready ()), s1, [])
      | Ok (Ready (Some (Found peer))) \<Rightarrow>
          (case answer_requests peer (FoundRemote (os_new_stream_handle s)) s1 of (s2, a) \<Rightarrow>
           case outgoing_messages clk s2 of (p, s3, b) \<Rightarrow> (p, s3, a @ b))
      | Ok (Ready (Some (NotFound peer))) \<Rightarrow>
          (case answer_requests peer RNotFound s1 of (s2, a) \<Rightarrow>
           case outgoing_messages clk s2 of (p, s3, b) \<Rightarrow> (p, s3, a @ b))
      | Ok (Ready (Some Pong)) \<Rightarrow>
          (let s2 = s1\<lparr>os_pong_timeout := now clk + os_pong_timeout_duration s\<rparr> in
           case timer_answer clk (os_pong_timeout s2) of
             Err e \<Rightarrow> (Err (Raised (error_from_timer e)), s2, [])
           | Ok (Ready _) \<Rightarrow> (Err (Panicked ''OugoingStream pong timeout instantly elapsed!''), s2, [])
           | Ok NotReady \<Rightarrow> outgoing_messages clk s2)
      | Ok (Ready (Some _)) \<Rightarrow> outgoing_messages clk s1))"
  by pat_completeness auto
termination
proof (relation "measure (\<lambda>(clk, s). length (ps_msgs (os_stream s)))")
qed (auto dest!: ps_poll_progress [OF sym] answer_requests_stream [OF sym])

declare outgoing_messages.simps [simp del]

definition outgoing_poll ::
  "clock \<Rightarrow> outgoing_stream \<Rightarrow> (unit, fault) poll \<times> outgoing_stream \<times> answers" where
  "outgoing_poll clk s = (case poll_find_peer_request s of
     (Err e, s1, a) \<Rightarrow> (Err (Raised e), s1, a)
   | (Ok _, s1, a) \<Rightarrow> (case poll_ping_and_pong clk s1 of
       (Err e, s2) \<Rightarrow> (Err (Raised e), s2, a)
     | (Ok _, s2) \<Rightarrow> (case outgoing_messages clk s2 of (p, s3, b) \<Rightarrow> (p, s3, a @ b))))"

definition into_find_peer_request ::
  "outgoing_stream \<Rightarrow> ((peer_id \<times> result_sender) option, unit) tape" where
  "into_find_peer_request s = os_find_peer_request s"

section \<open>The answering side\<close>

record registry_stream =
  ris_stream :: "registry_protocol pstream"

definition registry_stream_new :: "registry_protocol codec \<Rightarrow> strat_stream \<Rightarrow> registry_stream" where
  "registry_stream_new cdr stream = \<lparr>ris_stream = pstream_new cdr stream\<rparr>"

function registry_stream_poll ::
  "'prov inner \<Rightarrow> registry_stream \<Rightarrow> (unit, error) poll \<times> registry_stream" where
  "registry_stream_poll reg s = (case ps_poll (ris_stream s) of (r, ps) \<Rightarrow>
     let s1 = s\<lparr>ris_stream := ps\<rparr> in
     (case r of
        Err e \<Rightarrow> (Err e, s1)
      | Ok NotReady \<Rightarrow> (Ok NotReady, s1)
      | Ok (Ready None) \<Rightarrow> (Ok (Ready ()), s1)
      | Ok (Ready (Some (Find peer))) \<Rightarrow>
          (let answer = (if has_peer reg peer then Found peer else NotFound peer) in
           case ps_send RegistryFrame answer ps of
             (Err e, ps') \<Rightarrow> (Err e, s1\<lparr>ris_stream := ps'\<rparr>)
           | (Ok _, ps') \<Rightarrow> registry_stream_poll reg (s1\<lparr>ris_stream := ps'\<rparr>))
      | Ok (Ready (Some Ping)) \<Rightarrow>
          (case ps_send RegistryFrame Pong ps of
             (Err e, ps') \<Rightarrow> (Err e, s1\<lparr>ris_stream := ps'\<rparr>)
           | (Ok _, ps') \<Rightarrow> registry_stream_poll reg (s1\<lparr>ris_stream := ps'\<rparr>))
      | Ok (Ready (Some _)) \<Rightarrow> registry_stream_poll reg s1))"
  by pat_completeness auto
termination
proof (relation "measure (\<lambda>(reg, s). length (ps_msgs (ris_stream s)))")
qed (auto dest!: ps_poll_progress [OF sym] ps_send_codec [OF sym])

declare registry_stream_poll.simps [simp del]

section \<open>The answering side, as a function of the messages\<close>

fun registry_answer :: "'prov inner \<Rightarrow> registry_protocol \<Rightarrow> frame list" where
  "registry_answer reg (Find p) = [RegistryFrame (if has_peer reg p then Found p else NotFound p)]"
| "registry_answer reg Ping = [RegistryFrame Pong]"
| "registry_answer reg _ = []"

lemma registry_stream_step:
  assumes "ps_msgs (ris_stream s) = Ok (Ready (Some m)) # rest" "prompt_sink (ps_codec (ris_stream s))"
  shows "\<exists>s'. registry_stream_poll reg s = registry_stream_poll reg s' \<and> ps_msgs (ris_stream s') = rest \<and>
    ps_codec (ris_stream s') = ps_codec (ris_stream s) \<and>
    ps_written (ris_stream s') = ps_written (ris_stream s) @ registry_answer reg m \<and>
    (ps_write_buf (ris_stream s) = [] \<longrightarrow> ps_write_buf (ris_stream s') = [])"
  using assms
  by (cases m; subst registry_stream_poll.simps)
    (auto simp: Let_def ps_send_prompt ps_written_def intro!: exI [of _ "s\<lparr>ris_stream := x\<rparr>" for x])

lemma registry_stream_done:
  "ps_msgs (ris_stream s) = [] \<Longrightarrow> registry_stream_poll reg s =
     (Ok NotReady, s\<lparr>ris_stream := ps_advance (ris_stream s)\<rparr>)"
  by (subst registry_stream_poll.simps) (simp add: Let_def)

lemma registry_stream_answers:
  "ps_msgs (ris_stream s) = items_tape ms \<Longrightarrow> prompt_sink (ps_codec (ris_stream s)) \<Longrightarrow>
     ps_write_buf (ris_stream s) = [] \<Longrightarrow>
     \<exists>s'. registry_stream_poll reg s = (Ok NotReady, s') \<and>
       io_out (ps_io (ris_stream s')) = io_out (ps_io (ris_stream s)) @ concat (map (registry_answer reg) ms)"
proof (induction ms arbitrary: s)
  case Nil
  then show ?case by (simp add: registry_stream_done)
next
  case (Cons m ms)
  obtain s1 where step: "registry_stream_poll reg s = registry_stream_poll reg s1"
    "ps_msgs (ris_stream s1) = items_tape ms" "prompt_sink (ps_codec (ris_stream s1))"
    "ps_written (ris_stream s1) = ps_written (ris_stream s) @ registry_answer reg m"
    "ps_write_buf (ris_stream s1) = []"
    using registry_stream_step [of s m "items_tape ms" reg] Cons.prems by auto
  from Cons.IH [OF step(2,3,5)] step(1,4,5) Cons.prems(3) show ?case by (auto simp: ps_written_def)
qed

section \<open>No request is lost or answered twice\<close>

text \<open>
  The senders the requesting side has to account for: those of the requests still in the
  channel and those that wait for an answer of the remote peer.
\<close>

definition pending_ids :: "outgoing_stream \<Rightarrow> nat multiset" where
  "pending_ids s = mset (map (rs_id \<circ> snd) (filter (\<lambda>q. \<not> rs_canceled (snd q)) (tape_items (os_find_peer_request s))))"

definition waiting_ids :: "(peer_id \<rightharpoonup> result_sender list) \<Rightarrow> nat multiset" where
  "waiting_ids m = (\<Sum>p \<in> dom m. mset (map rs_id (the (m p))))"

definition open_ids :: "outgoing_stream \<Rightarrow> nat multiset" where
  "open_ids s = pending_ids s + waiting_ids (os_requests s)"

lemma waiting_ids_remove:
  assumes "finite (dom m)" "m p = Some w"
  shows "waiting_ids m = mset (map rs_id w) + waiting_ids (m(p := None))"
proof -
  have "waiting_ids m = mset (map rs_id (the (m p))) + (\<Sum>q \<in> dom m - {p}. mset (map rs_id (the (m q))))"
    unfolding waiting_ids_def using assms by (subst sum.remove [of _ p]) auto
  also have "(\<Sum>q \<in> dom m - {p}. mset (map rs_id (the (m q)))) = waiting_ids (m(p := None))"
    unfolding waiting_ids_def by (intro sum.cong) auto
  finally show ?thesis using assms by simp
qed

lemma waiting_ids_upd:
  assumes "finite (dom m)"
  shows "waiting_ids (m(p \<mapsto> w)) = mset (map rs_id w) + waiting_ids (m(p := None))"
  using waiting_ids_remove [of "m(p \<mapsto> w)" p w] assms by simp

lemma waiting_ids_add:
  assumes "finite (dom m)"
  shows "waiting_ids (m(p \<mapsto> (case m p of None \<Rightarrow> [] | Some w \<Rightarrow> w) @ [x])) = add_mset (rs_id x) (waiting_ids m)"
proof (cases "m p")
  case None
  then have "m(p := None) = m" by auto
  with None assms show ?thesis by (simp add: waiting_ids_upd)
next
  case (Some w)
  with assms show ?thesis by (simp add: waiting_ids_upd waiting_ids_remove [of m p w])
qed

text \<open>One turn of the loop over the channel.\<close>

lemma find_request_step:
  assumes "os_find_peer_request s = Ok (Ready (Some (peer, x))) # t"
  defines "s1 \<equiv> s\<lparr>os_find_peer_request := t\<rparr>"
  shows "rs_canceled x \<Longrightarrow> poll_find_peer_request s = poll_find_peer_request s1"
    and "\<not> rs_canceled x \<Longrightarrow> peer = os_peer_identifier s \<Longrightarrow> poll_find_peer_request s =
      (case poll_find_peer_request s1 of (r, s2, a) \<Rightarrow>
         (r, s2, (rs_id x, FoundWithHandle (os_new_stream_handle s)) # a))"
    and "\<not> rs_canceled x \<Longrightarrow> peer \<noteq> os_peer_identifier s \<Longrightarrow> os_requests s peer = Some w \<Longrightarrow>
      poll_find_peer_request s =
        poll_find_peer_request (s1\<lparr>os_requests := (os_requests s)(peer \<mapsto> w @ [x])\<rparr>)"
    and "\<not> rs_canceled x \<Longrightarrow> peer \<noteq> os_peer_identifier s \<Longrightarrow> os_requests s peer = None \<Longrightarrow>
      ps_send RegistryFrame (Find peer) (os_stream s) = (Ok u, ps) \<Longrightarrow> poll_find_peer_request s =
        poll_find_peer_request (s1\<lparr>os_requests := (os_requests s)(peer \<mapsto> [x]), os_stream := ps\<rparr>)"
    and "\<not> rs_canceled x \<Longrightarrow> peer \<noteq> os_peer_identifier s \<Longrightarrow> os_requests s peer = None \<Longrightarrow>
      ps_send RegistryFrame (Find peer) (os_stream s) = (Err e, ps) \<Longrightarrow> poll_find_peer_request s =
        (Err e, s1\<lparr>os_requests := (os_requests s)(peer \<mapsto> [x]), os_stream := ps\<rparr>, [])"
  using assms by (subst poll_find_peer_request.simps; simp add: Let_def)+

lemma find_request_stop:
  assumes "\<nexists>q t. os_find_peer_request s = Ok (Ready (Some q)) # t" "poll_find_peer_request s = (r, s', a)"
  shows "a = [] \<and> s' = s\<lparr>os_find_peer_request := tl (os_find_peer_request s)\<rparr>"
  using assms
  by (cases "os_find_peer_request s")
    (auto simp: poll_find_peer_request.simps [of s] Let_def split: sum.splits async.splits option.splits)

lemma find_requests_conserve:
  "finite (dom (os_requests s)) \<Longrightarrow> poll_find_peer_request s = (r, s', a) \<Longrightarrow>
     finite (dom (os_requests s')) \<and> open_ids s = open_ids s' + mset (map fst a)"
proof (induction "os_find_peer_request s" arbitrary: s r s' a)
  case Nil
  then show ?case using find_request_stop [of s r s' a]
    by (auto simp: open_ids_def pending_ids_def simp flip: Nil.hyps)
next
  case (Cons q t)
  note tape = Cons.hyps(2) [symmetric]
  show ?case
  proof (cases "\<exists>req. q = Ok (Ready (Some req))")
    case False
    then have "tape_items (os_find_peer_request s) = tape_items t"
      by (cases q rule: stream_poll_cases) (simp_all add: tape)
    with False find_request_stop [of s r s' a] tape Cons.prems show ?thesis
      by (auto simp: open_ids_def pending_ids_def)
  next
    case True
    then obtain peer x where q: "q = Ok (Ready (Some (peer, x)))" by auto
    let ?s = "s\<lparr>os_find_peer_request := t\<rparr>"
    note step = find_request_step [OF tape [unfolded q]]
    have pend: "pending_ids s = (if rs_canceled x then {#} else {#rs_id x#}) + pending_ids ?s"
      by (simp add: pending_ids_def tape q)
    note add = waiting_ids_add [OF Cons.prems(1), of peer x]
    consider "rs_canceled x" | "\<not> rs_canceled x" "peer = os_peer_identifier s"
      | w where "\<not> rs_canceled x" "peer \<noteq> os_peer_identifier s" "os_requests s peer = Some w"
      | "\<not> rs_canceled x" "peer \<noteq> os_peer_identifier s" "os_requests s peer = None"
      by (cases "os_requests s peer") auto
    then show ?thesis
    proof cases
      case 1
      with Cons.hyps(1) [of ?s] Cons.prems pend show ?thesis by (simp add: step(1) open_ids_def)
    next
      case 2
      with Cons.hyps(1) [of ?s] Cons.prems pend show ?thesis
        by (auto simp: step(2) open_ids_def split: prod.splits)
    next
      case (3 w)
      with Cons.hyps(1) [of "?s\<lparr>os_requests := (os_requests s)(peer \<mapsto> w @ [x])\<rparr>"] Cons.prems pend add
      show ?thesis by (simp add: step(3) open_ids_def pending_ids_def)
    next
      case 4
      obtain e ps where send: "ps_send RegistryFrame (Find peer) (os_stream s) = (e, ps)" by force
      with 4 Cons.hyps(1) [of "?s\<lparr>os_requests := (os_requests s)(peer \<mapsto> [x]), os_stream := ps\<rparr>"]
        Cons.prems pend add show ?thesis
        by (cases e) (auto simp: step(4,5) open_ids_def pending_ids_def)
    qed
  qed
qed

lemma ping_pong_keeps:
  "poll_ping_and_pong clk s = (r, s') \<Longrightarrow>
     os_requests s' = os_requests s \<and> os_find_peer_request s' = os_find_peer_request s"
  by (auto simp: poll_ping_and_pong_def Let_def split: prod.splits sum.splits async.splits option.splits)

lemma answer_requests_conserve:
  assumes "finite (dom (os_requests s))" "answer_requests p res s = (s', a)"
  shows "finite (dom (os_requests s')) \<and> open_ids s = open_ids s' + mset (map fst a)"
  using assms
  by (auto simp: answer_requests_def open_ids_def pending_ids_def waiting_ids_remove o_def multiset.map_comp split: option.splits)

lemma outgoing_messages_step:
  assumes "ps_msgs (os_stream s) = Ok (Ready (Some m)) # rest"
  defines "s1 \<equiv> s\<lparr>os_stream := (ps_advance (os_stream s))\<lparr>ps_msgs := rest\<rparr>\<rparr>"
  shows "m = Found p \<Longrightarrow> outgoing_messages clk s =
      (case answer_requests p (FoundRemote (os_new_stream_handle s)) s1 of (s2, a) \<Rightarrow>
       case outgoing_messages clk s2 of (r, s3, b) \<Rightarrow> (r, s3, a @ b))"
    and "m = NotFound p \<Longrightarrow> outgoing_messages clk s =
      (case answer_requests p RNotFound s1 of (s2, a) \<Rightarrow>
       case outgoing_messages clk s2 of (r, s3, b) \<Rightarrow> (r, s3, a @ b))"
    and "m = Find p \<Longrightarrow> outgoing_messages clk s = outgoing_messages clk s1"
    and "m = Ping \<Longrightarrow> outgoing_messages clk s = outgoing_messages clk s1"
    and "m = Pong \<Longrightarrow> outgoing_messages clk s =
      (let s2 = s1\<lparr>os_pong_timeout := now clk + os_pong_timeout_duration s\<rparr> in
       case timer_answer clk (os_pong_timeout s2) of
         Err e \<Rightarrow> (Err (Raised (error_from_timer e)), s2, [])
       | Ok (Ready _) \<Rightarrow> (Err (Panicked ''OugoingStream pong timeout instantly elapsed!''), s2, [])
       | Ok NotReady \<Rightarrow> outgoing_messages clk s2)"
  using assms by (subst outgoing_messages.simps; simp add: Let_def)+

lemma outgoing_messages_stop:
  assumes "\<nexists>m rest. ps_msgs (os_stream s) = Ok (Ready (Some m)) # rest" "outgoing_messages clk s = (r, s', a)"
  shows "a = [] \<and> os_requests s' = os_requests s \<and> os_find_peer_request s' = os_find_peer_request s"
  using assms
  by (cases "ps_msgs (os_stream s)")
    (auto simp: outgoing_messages.simps [of clk s] Let_def split: sum.splits async.splits option.splits)

lemma outgoing_messages_conserve:
  "finite (dom (os_requests s)) \<Longrightarrow> outgoing_messages clk s = (r, s', a) \<Longrightarrow>
     finite (dom (os_requests s')) \<and> open_ids s = open_ids s' + mset (map fst a)"
proof (induction "ps_msgs (os_stream s)" arbitrary: s r s' a)
  case Nil
  then show ?case using outgoing_messages_stop [of s clk r s' a] by (auto simp: open_ids_def pending_ids_def)
next
  case (Cons q t)
  note tape = Cons.hyps(2) [symmetric]
  show ?case
  proof (cases "\<exists>m. q = Ok (Ready (Some m))")
    case False
    with tape outgoing_messages_stop [of s clk r s' a] Cons.prems show ?thesis
      by (auto simp: open_ids_def pending_ids_def)
  next
    case True
    then obtain m where m: "q = Ok (Ready (Some m))" by blast
    let ?s = "s\<lparr>os_stream := (ps_advance (os_stream s))\<lparr>ps_msgs := t\<rparr>\<rparr>"
    note step = outgoing_messages_step [where clk = clk, OF tape [unfolded m]]
    have ids: "open_ids ?s = open_ids s" by (simp add: open_ids_def pending_ids_def)
    have answered: ?thesis if "(case answer_requests p res ?s of (s2, b) \<Rightarrow>
       case outgoing_messages clk s2 of (r, s3, c) \<Rightarrow> (r, s3, b @ c)) = (r, s', a)" for p res
    proof -
      obtain s2 b where ans: "answer_requests p res ?s = (s2, b)" by force
      with that obtain c where rest: "outgoing_messages clk s2 = (r, s', c)" "a = b @ c"
        by (auto split: prod.splits)
      from answer_requests_conserve [OF _ ans] Cons.prems(1) have b: "finite (dom (os_requests s2))"
        "open_ids s = open_ids s2 + mset (map fst b)" by (simp_all add: ids)
      from Cons.hyps(1) [of s2, OF _ b(1) rest(1)] answer_requests_stream [OF ans] b(2) rest(2)
      show ?thesis by (simp add: ac_simps)
    qed
    show ?thesis
    proof (cases m)
      case (Find p)
      with Cons.hyps(1) [of ?s] Cons.prems step(3) ids show ?thesis by simp
    next
      case (NotFound p)
      with Cons.prems step(2) answered show ?thesis by simp
    next
      case (Found p)
      with Cons.prems step(1) answered show ?thesis by simp
    next
      case Ping
      with Cons.hyps(1) [of ?s] Cons.prems step(4) ids show ?thesis by simp
    next
      case Pong
      let ?s2 = "?s\<lparr>os_pong_timeout := now clk + os_pong_timeout_duration s\<rparr>"
      have "open_ids ?s2 = open_ids s" by (simp add: open_ids_def pending_ids_def)
      with Pong Cons.hyps(1) [of ?s2] Cons.prems show ?thesis
        by (auto simp: step(5) Let_def split: sum.splits async.splits)
    qed
  qed
qed

lemma outgoing_poll_conserve:
  assumes "finite (dom (os_requests s))" "outgoing_poll clk s = (r, s', a)"
  shows "finite (dom (os_requests s')) \<and> open_ids s = open_ids s' + mset (map fst a)"
proof -
  obtain r1 s1 a1 where find: "poll_find_peer_request s = (r1, s1, a1)" by (metis prod_cases3)
  obtain r2 s2 where ping: "poll_ping_and_pong clk s1 = (r2, s2)" by force
  obtain r3 s3 a3 where msgs: "outgoing_messages clk s2 = (r3, s3, a3)" by (metis prod_cases3)
  note f = find_requests_conserve [OF assms(1) find]
  note p = ping_pong_keeps [OF ping]
  have "finite (dom (os_requests s2))" using f p by simp
  note m = outgoing_messages_conserve [OF this msgs]
  have "open_ids s2 = open_ids s1" using p by (simp add: open_ids_def pending_ids_def)
  with f p m assms(2) find ping msgs show ?thesis
    by (auto simp: outgoing_poll_def ac_simps split: sum.splits)
qed

text \<open>The polls of one stream, at the given times, and everything answered on the way.\<close>

fun outgoing_polls :: "clock list \<Rightarrow> outgoing_stream \<Rightarrow> outgoing_stream \<times> answers" where
  "outgoing_polls [] s = (s, [])"
| "outgoing_polls (clk # clks) s = (case outgoing_poll clk s of (r, s1, a) \<Rightarrow>
     case outgoing_polls clks s1 of (s2, b) \<Rightarrow> (s2, a @ b))"

lemma outgoing_polls_conserve:
  "finite (dom (os_requests s)) \<Longrightarrow> outgoing_polls clks s = (s', a) \<Longrightarrow> open_ids s = open_ids s' + mset (map fst a)"
proof (induction clks arbitrary: s a)
  case Nil
  then show ?case by simp
next
  case (Cons clk clks)
  obtain r s1 b where poll: "outgoing_poll clk s = (r, s1, b)" by (metis prod_cases3)
  with Cons.prems obtain c where rest: "outgoing_polls clks s1 = (s', c)" "a = b @ c"
    by (auto split: prod.splits)
  note first = outgoing_poll_conserve [OF Cons.prems(1) poll]
  from Cons.IH [OF conjunct1 [OF first] rest(1)] first rest(2) show ?case by (simp add: ac_simps)
qed

text \<open>The requests a poll takes out of the channel, and who waits for a peer.\<close>

definition new_requests :: "outgoing_stream \<Rightarrow> (peer_id \<times> result_sender) list" where
  "new_requests s = filter (\<lambda>q. \<not> rs_canceled (snd q)) (ready_items (os_find_peer_request s))"

definition waiting_for :: "outgoing_stream \<Rightarrow> peer_id \<Rightarrow> result_sender list" where
  "waiting_for s p = (case os_requests s p of None \<Rightarrow> [] | Some w \<Rightarrow> w)"

definition finds :: "peer_id list \<Rightarrow> frame list" where
  "finds ps = map (\<lambda>p. RegistryFrame (Find p)) ps"

lemma new_requests_step:
  "os_find_peer_request s = Ok (Ready (Some (peer, x))) # t \<Longrightarrow> new_requests s =
     (if rs_canceled x then [] else [(peer, x)]) @ new_requests (s\<lparr>os_find_peer_request := t\<rparr>)"
  by (simp add: new_requests_def)

lemma new_requests_stop:
  "\<nexists>q t. os_find_peer_request s = Ok (Ready (Some q)) # t \<Longrightarrow> new_requests s = []"
  by (simp add: new_requests_def ready_items_other)

lemma new_requests_upd [simp]:
  "new_requests (s\<lparr>os_requests := m\<rparr>) = new_requests s" "new_requests (s\<lparr>os_stream := p\<rparr>) = new_requests s"
  by (simp_all add: new_requests_def)

lemma find_requests_spec:
  "prompt_sink (ps_codec (os_stream s)) \<Longrightarrow> poll_find_peer_request s = (r, s', a) \<Longrightarrow>
     (\<exists>ps. ps_written (os_stream s') = ps_written (os_stream s) @ finds ps \<and> distinct ps \<and>
        set ps = {p \<in> fst ` set (new_requests s). p \<noteq> os_peer_identifier s \<and> os_requests s p = None}) \<and>
     (\<forall>p. p \<noteq> os_peer_identifier s \<longrightarrow>
        waiting_for s' p = waiting_for s p @ map snd (filter (\<lambda>q. fst q = p) (new_requests s))) \<and>
     a = map (\<lambda>q. (rs_id (snd q), FoundWithHandle (os_new_stream_handle s)))
       (filter (\<lambda>q. fst q = os_peer_identifier s) (new_requests s))"
proof (induction "os_find_peer_request s" arbitrary: s r s' a)
  case Nil
  then show ?case using find_request_stop [of s r s' a] new_requests_stop [of s]
    by (auto simp: waiting_for_def finds_def simp flip: Nil.hyps)
next
  case (Cons q t)
  note tape = Cons.hyps(2) [symmetric]
  show ?case
  proof (cases "\<exists>req. q = Ok (Ready (Some req))")
    case False
    with find_request_stop [of s r s' a] new_requests_stop [of s] tape Cons.prems show ?thesis
      by (auto simp: waiting_for_def finds_def)
  next
    case True
    then obtain peer x where q: "q = Ok (Ready (Some (peer, x)))" by auto
    let ?s = "s\<lparr>os_find_peer_request := t\<rparr>"
    note step = find_request_step [OF tape [unfolded q]]
    note reqs = new_requests_step [OF tape [unfolded q]]
    consider "rs_canceled x" | "\<not> rs_canceled x" "peer = os_peer_identifier s"
      | w where "\<not> rs_canceled x" "peer \<noteq> os_peer_identifier s" "os_requests s peer = Some w"
      | "\<not> rs_canceled x" "peer \<noteq> os_peer_identifier s" "os_requests s peer = None"
      by (cases "os_requests s peer") auto
    then show ?thesis
    proof cases
      case 1
      with Cons.hyps(1) [of ?s] Cons.prems show ?thesis by (simp add: step(1) reqs waiting_for_def)
    next
      case 2
      obtain b where rest: "poll_find_peer_request ?s = (r, s', b)"
        and a: "a = (rs_id x, FoundWithHandle (os_new_stream_handle s)) # b"
        using Cons.prems(2) 2 by (auto simp: step(2) split: prod.splits)
      have "{p \<in> fst ` set (new_requests s). p \<noteq> os_peer_identifier s \<and> os_requests s p = None} =
          {p \<in> fst ` set (new_requests ?s). p \<noteq> os_peer_identifier s \<and> os_requests s p = None}"
        using 2 by (auto simp: reqs)
      with Cons.hyps(1) [of ?s, OF _ _ rest] Cons.prems(1) 2 a show ?thesis
        by (auto simp: reqs waiting_for_def)
    next
      case (3 w)
      let ?s2 = "?s\<lparr>os_requests := (os_requests s)(peer \<mapsto> w @ [x])\<rparr>"
      have "{p \<in> fst ` set (new_requests s). p \<noteq> os_peer_identifier s \<and> os_requests s p = None} =
          {p \<in> fst ` set (new_requests ?s2). p \<noteq> os_peer_identifier ?s2 \<and> os_requests ?s2 p = None}"
        using 3 by (auto simp: reqs)
      with Cons.hyps(1) [of ?s2 r s' a] Cons.prems 3 show ?thesis
        by (auto simp: step(3) reqs waiting_for_def)
    next
      case 4
      let ?ps = "snd (ps_send RegistryFrame (Find peer) (os_stream s))"
      let ?s2 = "?s\<lparr>os_requests := (os_requests s)(peer \<mapsto> [x]), os_stream := ?ps\<rparr>"
      have send: "ps_send RegistryFrame (Find peer) (os_stream s) = (Ok (), ?ps)"
        and wr: "ps_written ?ps = ps_written (os_stream s) @ finds [peer]"
        and cd: "ps_codec ?ps = ps_codec (os_stream s)"
        using Cons.prems(1) by (simp_all add: ps_send_prompt ps_written_def finds_def)
      have rest: "poll_find_peer_request ?s2 = (r, s', a)" using Cons.prems(2) 4 send by (simp add: step(4))
      from Cons.hyps(1) [of ?s2, OF _ _ rest] Cons.prems(1) cd
      obtain ps where ps: "ps_written (os_stream s') = ps_written ?ps @ finds ps" "distinct ps"
          "set ps = {p \<in> fst ` set (new_requests ?s). p \<noteq> os_peer_identifier s \<and> os_requests ?s2 p = None}"
        and others: "\<And>p. p \<noteq> os_peer_identifier s \<Longrightarrow>
          waiting_for s' p = waiting_for ?s2 p @ map snd (filter (\<lambda>q. fst q = p) (new_requests ?s))"
          "a = map (\<lambda>q. (rs_id (snd q), FoundWithHandle (os_new_stream_handle s)))
             (filter (\<lambda>q. fst q = os_peer_identifier s) (new_requests ?s))"
        by auto
      have "set (peer # ps) = {p \<in> fst ` set (new_requests s). p \<noteq> os_peer_identifier s \<and> os_requests s p = None}"
        using ps(3) 4 by (auto simp: reqs split: if_splits)
      moreover have "distinct (peer # ps)" using ps(2,3) by auto
      moreover have "ps_written (os_stream s') = ps_written (os_stream s) @ finds (peer # ps)"
        using ps(1) wr by (simp add: finds_def)
      moreover have "\<forall>p. p \<noteq> os_peer_identifier s \<longrightarrow>
          waiting_for s' p = waiting_for s p @ map snd (filter (\<lambda>q. fst q = p) (new_requests s))"
        using others(1) 4 by (auto simp: reqs waiting_for_def)
      moreover have "a = map (\<lambda>q. (rs_id (snd q), FoundWithHandle (os_new_stream_handle s)))
          (filter (\<lambda>q. fst q = os_peer_identifier s) (new_requests s))"
        using others(2) 4 by (simp add: reqs)
      ultimately show ?thesis by blast
    qed
  qed
qed

section \<open>Properties\<close>

text \<open>
  The answering side answers every request of the registry protocol, in order: \<open>Find\<close>
  by \<open>Found\<close> exactly when the peer is connected to this node and by \<open>NotFound\<close> otherwise,
  \<open>Ping\<close> by \<open>Pong\<close>; it says nothing else and keeps listening.
\<close>

theorem registry_stream_responds:
  assumes "ps_msgs (ris_stream s) = items_tape ms" "prompt_sink (ps_codec (ris_stream s))"
    and "ps_write_buf (ris_stream s) = []"
  shows "\<exists>s'. registry_stream_poll reg s = (Ok NotReady, s') \<and>
    io_out (ps_io (ris_stream s')) = io_out (ps_io (ris_stream s)) @ concat (map (\<lambda>m. case m of
      Find p \<Rightarrow> [RegistryFrame (if inner_peer reg p = None then NotFound p else Found p)]
    | Ping \<Rightarrow> [RegistryFrame Pong] | _ \<Rightarrow> []) ms)"
proof -
  have "registry_answer reg = (\<lambda>m. case m of
      Find p \<Rightarrow> [RegistryFrame (if inner_peer reg p = None then NotFound p else Found p)]
    | Ping \<Rightarrow> [RegistryFrame Pong] | _ \<Rightarrow> [])"
    by (rule ext) (auto simp: has_peer_iff split: registry_protocol.splits)
  with registry_stream_answers [OF assms, of reg] show ?thesis by simp
qed

theorem registry_stream_responds_witness:
  "\<exists>s'. registry_stream_poll (snd (register_peer [2] (demo_handle [2] [1]) (inner_new :: unit inner)))
      (registry_stream_new (prompt_codec (items_tape [Find [2], Ping, Find [5]])) (demo_stream [])) = (Ok NotReady, s') \<and>
    io_out (ps_io (ris_stream s')) = [RegistryFrame (Found [2]), RegistryFrame Pong, RegistryFrame (NotFound [5])]"
  using registry_stream_responds [of "registry_stream_new (prompt_codec (items_tape [Find [2], Ping, Find [5]])) (demo_stream [])"
      "[Find [2], Ping, Find [5]]" "snd (register_peer [2] (demo_handle [2] [1]) (inner_new :: unit inner))"]
  by (simp add: registry_stream_new_def io_out_def demo_defs ss_new_def stream_wrapper_new_def inner_peer_def
      register_entry inner_new_def)

text \<open>
  C21. Nobody who asks is forgotten and nobody is answered twice: over any number of polls, with
  any behaviour of the remote peer, the timers and the sink, the senders of the requests that
  were open at the start are those that were answered and those that are still open.
\<close>

theorem outgoing_exactly_once:
  assumes "finite (dom (os_requests s))" "outgoing_polls clks s = (s', a)"
  shows "open_ids s = open_ids s' + mset (map fst a)"
  using assms by (rule outgoing_polls_conserve)

theorem outgoing_exactly_once_witness:
  "open_ids (outgoing_stream_new (prompt_codec [Ok (Ready (Some (Found [2])))]) (documented_clock 0) (demo_stream [])
      (demo_handle [3] [1]) (items_tape [([2], \<lparr>rs_id = 0, rs_canceled = False\<rparr>)]) 5 [3]) =
   open_ids (fst (outgoing_polls [documented_clock 1] (outgoing_stream_new (prompt_codec [Ok (Ready (Some (Found [2])))])
      (documented_clock 0) (demo_stream []) (demo_handle [3] [1])
      (items_tape [([2], \<lparr>rs_id = 0, rs_canceled = False\<rparr>)]) 5 [3]))) +
   mset (map fst (snd (outgoing_polls [documented_clock 1] (outgoing_stream_new (prompt_codec [Ok (Ready (Some (Found [2])))])
      (documented_clock 0) (demo_stream []) (demo_handle [3] [1])
      (items_tape [([2], \<lparr>rs_id = 0, rs_canceled = False\<rparr>)]) 5 [3]))))"
  by (rule outgoing_exactly_once [OF _ surjective_pairing]) (simp add: outgoing_stream_new_def Let_def)

text \<open>
  A poll sends one \<open>Find\<close> for each newly requested peer that nobody waits for yet, and
  no more; the requests for a peer queue up in the order they were made; a request for the
  connected peer itself is answered at once with the handle of the connection.
\<close>

theorem find_requests_once:
  assumes "prompt_sink (ps_codec (os_stream s))" "poll_find_peer_request s = (r, s', a)"
  shows "(\<exists>ps. ps_written (os_stream s') = ps_written (os_stream s) @ finds ps \<and> distinct ps \<and>
      set ps = {p \<in> fst ` set (new_requests s). p \<noteq> os_peer_identifier s \<and> os_requests s p = None}) \<and>
    (\<forall>p. p \<noteq> os_peer_identifier s \<longrightarrow>
      waiting_for s' p = waiting_for s p @ map snd (filter (\<lambda>q. fst q = p) (new_requests s))) \<and>
    a = map (\<lambda>q. (rs_id (snd q), FoundWithHandle (os_new_stream_handle s)))
      (filter (\<lambda>q. fst q = os_peer_identifier s) (new_requests s))"
  using assms by (rule find_requests_spec)

definition demo_requests :: "(peer_id \<times> result_sender) list" where
  "demo_requests = [([2], \<lparr>rs_id = 0, rs_canceled = False\<rparr>), ([2], \<lparr>rs_id = 1, rs_canceled = False\<rparr>),
     ([3], \<lparr>rs_id = 2, rs_canceled = False\<rparr>), ([4], \<lparr>rs_id = 3, rs_canceled = True\<rparr>)]"

definition demo_outgoing :: "(registry_protocol option, error) tape \<Rightarrow> outgoing_stream" where
  "demo_outgoing msgs = outgoing_stream_new (prompt_codec msgs) (documented_clock 0) (demo_stream [])
     (demo_handle [3] [1]) (items_tape demo_requests) 5 [3]"

theorem find_requests_once_witness:
  "\<exists>r s' a. poll_find_peer_request (demo_outgoing []) = (r, s', a) \<and>
     a = [(2, FoundWithHandle (demo_handle [3] [1]))] \<and> map rs_id (waiting_for s' [2]) = [0, 1]"
proof -
  obtain r s' a where poll: "poll_find_peer_request (demo_outgoing []) = (r, s', a)" by (metis prod_cases3)
  have "prompt_sink (ps_codec (os_stream (demo_outgoing [])))"
    by (simp add: demo_outgoing_def outgoing_stream_new_def Let_def)
  from find_requests_once [OF this poll] poll show ?thesis
    by (simp add: demo_outgoing_def outgoing_stream_new_def Let_def new_requests_def demo_requests_def waiting_for_def)
qed

text \<open>
  An answer of the remote peer reaches exactly those who wait for that peer, in the order
  in which they asked, and they are no longer waiting afterwards; whoever waits for another
  peer is not affected.
\<close>

theorem found_reaches_waiting:
  assumes "ps_msgs (os_stream s) = [Ok (Ready (Some m))]"
    and "m = Found p \<and> res = FoundRemote (os_new_stream_handle s) \<or> m = NotFound p \<and> res = RNotFound"
  shows "\<exists>s'. outgoing_messages clk s = (Ok NotReady, s', map (\<lambda>x. (rs_id x, res)) (waiting_for s p)) \<and>
    waiting_for s' p = [] \<and> (\<forall>q. q \<noteq> p \<longrightarrow> waiting_for s' q = waiting_for s q)"
proof -
  have idle: "outgoing_messages clk s' = (Ok NotReady, s'\<lparr>os_stream := ps_advance (os_stream s')\<rparr>, [])"
    if "ps_msgs (os_stream s') = []" for s'
    using that by (simp add: outgoing_messages.simps [of clk s'] Let_def)
  show ?thesis
    using assms(2) outgoing_messages_step(1,2) [OF assms(1)]
    by (cases "os_requests s p") (auto simp: answer_requests_def idle waiting_for_def)
qed

theorem found_reaches_waiting_witness:
  "\<exists>s'. outgoing_messages (documented_clock 1) ((demo_outgoing [Ok (Ready (Some (Found [2])))])
        \<lparr>os_requests := [[2] \<mapsto> [\<lparr>rs_id = 4, rs_canceled = False\<rparr>]]\<rparr>) =
     (Ok NotReady, s', [(4, FoundRemote (demo_handle [3] [1]))]) \<and> waiting_for s' [2] = []"
  using found_reaches_waiting [of "(demo_outgoing [Ok (Ready (Some (Found [2])))])
        \<lparr>os_requests := [[2] \<mapsto> [\<lparr>rs_id = 4, rs_canceled = False\<rparr>]]\<rparr>" "Found [2]" "[2]"
        "FoundRemote (demo_handle [3] [1])" "documented_clock 1"]
  by (auto simp: demo_outgoing_def outgoing_stream_new_def Let_def waiting_for_def)

text \<open>
  The connection to the remote peer is given up when no \<open>Pong\<close> arrives within three ping
  intervals: a stream made at one instant and polled at or after the deadline, with no message
  in between, fails with the time-out error, after one more \<open>Ping\<close>.
\<close>

theorem outgoing_pong_timeout:
  assumes "timer_documented clk" "now clk0 + 3 * ping_interval \<le> now clk" "prompt_sink cdr"
  shows "\<exists>s'. outgoing_poll clk (outgoing_stream_new cdr clk0 stream nsh [] ping_interval peer) = (Err (Raised (CustomError ''OutgoingStream timeout'')), s', []) \<and>
    io_out (ps_io (os_stream s')) = io_out stream @ [RegistryFrame Ping]"
proof -
  let ?s = "outgoing_stream_new cdr clk0 stream nsh [] ping_interval peer"
  have "poll_find_peer_request ?s = (Ok NotReady, ?s, [])"
    by (simp add: poll_find_peer_request.simps [of ?s]) (simp add: outgoing_stream_new_def Let_def)
  then show ?thesis
    using assms
    by (simp add: outgoing_poll_def poll_ping_and_pong_def interval_poll_def timer_documentedD
        Let_def ps_send_prompt bail_def error_from_failure_def)
      (simp add: outgoing_stream_new_def Let_def ps_send_prompt timer_documentedD bail_def error_from_failure_def
        mult.commute)
qed

theorem outgoing_pong_timeout_witness:
  "\<exists>s'. outgoing_poll (documented_clock 15) (outgoing_stream_new (prompt_codec []) (documented_clock 0)
      (demo_stream []) (demo_handle [3] [1]) [] 5 [3]) =
      (Err (Raised (CustomError ''OutgoingStream timeout'')), s', [])"
  using outgoing_pong_timeout [of "documented_clock 15" "documented_clock 0" 5 "prompt_codec []" "demo_stream []"
      "demo_handle [3] [1]" "[3]"]
  by auto

text \<open>
  A request is forgotten when the sink is not ready for it: the answer of the sink is
  ignored, the peer counts as asked for although nothing was written, and every later request
  for it only joins the queue. Nothing but an answer to a question that was never asked, or the
  end of the connection, releases them.
\<close>

theorem find_request_dropped:
  assumes "os_find_peer_request s = items_tape [(p, x), (p, y)]" "\<not> rs_canceled x" "\<not> rs_canceled y"
    and "p \<noteq> os_peer_identifier s" "os_requests s p = None"
    and "cd_accepts (ps_codec (os_stream s)) (ps_calls (os_stream s)) = Ok False"
    and "cd_flushes (ps_codec (os_stream s)) (ps_calls (os_stream s) + 1) = Ok f"
  shows "\<exists>s'. poll_find_peer_request s = (Ok NotReady, s', []) \<and> waiting_for s' p = [x, y] \<and>
    ps_written (os_stream s') = ps_written (os_stream s)"
proof -
  let ?s1 = "s\<lparr>os_find_peer_request := items_tape [(p, y)]\<rparr>"
  obtain ps where send: "ps_send RegistryFrame (Find p) (os_stream s) = (Ok (), ps)"
    and wr: "ps_written ps = ps_written (os_stream s)"
    using assms(6,7) by (cases f) (simp_all add: ps_send_def ps_start_send_def ps_poll_complete_def Let_def ps_written_def)
  let ?s2 = "?s1\<lparr>os_requests := (os_requests s)(p \<mapsto> [x]), os_stream := ps\<rparr>"
  let ?s3 = "?s2\<lparr>os_find_peer_request := [], os_requests := (os_requests s)(p \<mapsto> [x, y])\<rparr>"
  have "poll_find_peer_request s = poll_find_peer_request ?s2"
    using find_request_step(4) [of s p x "items_tape [(p, y)]"] assms send by simp
  also have "\<dots> = poll_find_peer_request ?s3"
    using find_request_step(3) [of ?s2 p y "[]"] assms by simp
  also have "\<dots> = (Ok NotReady, ?s3, [])"
    by (subst poll_find_peer_request.simps) (simp add: Let_def)
  finally show ?thesis using wr by (simp add: waiting_for_def)
qed

theorem find_request_dropped_witness:
  "\<exists>s'. poll_find_peer_request (outgoing_stream_new ((prompt_codec [])\<lparr>cd_accepts := \<lambda>_. Ok False\<rparr>)
      (documented_clock 0) (demo_stream []) (demo_handle [3] [1])
      (items_tape [([2], \<lparr>rs_id = 0, rs_canceled = False\<rparr>), ([2], \<lparr>rs_id = 1, rs_canceled = False\<rparr>)]) 5 [3]) =
     (Ok NotReady, s', []) \<and> map rs_id (waiting_for s' [2]) = [0, 1] \<and> ps_written (os_stream s') = []"
  using find_request_dropped [of "outgoing_stream_new ((prompt_codec [])\<lparr>cd_accepts := \<lambda>_. Ok False\<rparr>)
      (documented_clock 0) (demo_stream []) (demo_handle [3] [1])
      (items_tape [([2], \<lparr>rs_id = 0, rs_canceled = False\<rparr>), ([2], \<lparr>rs_id = 1, rs_canceled = False\<rparr>)]) 5 [3]"
      "[2]" "\<lparr>rs_id = 0, rs_canceled = False\<rparr>" "\<lparr>rs_id = 1, rs_canceled = False\<rparr>" "Ready ()"]
  by (auto simp: outgoing_stream_new_def Let_def prompt_codec_def ps_written_def demo_defs io_out_def ss_new_def
      stream_wrapper_new_def)

end
