(* ===== verification/Handler.thy ===== *)
theory Handler
  imports Remote
begin

text \<open>
  The second half of \<^verbatim>\<open>registries/remote.rs\<close>: the resolvers of remote addresses, the stream of
  addresses to try (\<open>get_next_addr\<close>) and the state machine that keeps a connection to one
  remote peer (\<open>handler_step\<close>).
\<close>

section \<open>Resolving addresses\<close>

text \<open>
  \<^verbatim>\<open>impl Resolve\<close> for a socket address: a stream of this address; for a host name and a port: the
  stream of the addresses a look-up of the name yields (third-party, an argument).
\<close>

definition resolve_socket_addr :: "socket_addr \<Rightarrow> (socket_addr option, unit) tape" where
  "resolve_socket_addr a = [Ok (Ready (Some a)), Ok (Ready None)]"

definition resolve_host ::
  "(string \<Rightarrow> (ip_addr option, unit) tape) \<Rightarrow> string \<times> u16 \<Rightarrow> (socket_addr option, unit) tape" where
  "resolve_host lookup_ip hp = (case hp of (host, port) \<Rightarrow>
     map (map_poll (map_option (\<lambda>ip. socket_addr_new ip port)) (\<lambda>_. ())) (lookup_ip (host @ ''.'')))"

text \<open>
  What the handler needs of a resolver: its answers to the \<open>k\<close>-th call of \<^verbatim>\<open>resolve\<close>. The
  combinator \<^verbatim>\<open>select\<close> of two streams is third-party.
\<close>

record 'r resolving =
  rsv_resolve :: "nat \<Rightarrow> 'r \<Rightarrow> (socket_addr option, unit) tape"
  rsv_select :: "(socket_addr option, unit) tape \<Rightarrow> (socket_addr option, unit) tape \<Rightarrow>
    (socket_addr option, unit) tape"

text \<open>A \<^verbatim>\<open>Fuse\<close>d stream: after the end it keeps answering that it has ended.\<close>

record fused =
  fuse_tape :: "(socket_addr option, unit) tape"
  fuse_done :: bool

definition fuse_poll :: "fused \<Rightarrow> (socket_addr option, unit) poll \<times> fused" where
  "fuse_poll f = (if fuse_done f then (Ok (Ready None), f)
     else case poll_tape (fuse_tape f) of (p, t) \<Rightarrow>
       (p, \<lparr>fuse_tape = t, fuse_done = (p = Ok (Ready None))\<rparr>))"

text \<open>\<open>None\<close> is the panic on an empty list of resolvers.\<close>

definition resolvers_to_stream :: "'r resolving \<Rightarrow> nat \<Rightarrow> 'r list \<Rightarrow> fused option" where
  "resolvers_to_stream R k resolvers = (case resolvers of
     [] \<Rightarrow> None
   | r # rs \<Rightarrow> Some \<lparr>fuse_tape = fold (\<lambda>c acc. rsv_select R acc (rsv_resolve R k c)) rs (rsv_resolve R k r),
       fuse_done = False\<rparr>)"

record 'r get_next_addr =
  gna_resolvers :: "'r list"
  gna_resolve_addrs :: fused
  gna_wait_duration :: duration
  gna_wait :: instant
  gna_resolutions :: nat

text \<open>\<open>None\<close> is a panic: there is no resolver, or the end of the first pause is not an instant.\<close>

definition get_next_addr_new ::
  "'r resolving \<Rightarrow> clock \<Rightarrow> 'r list \<Rightarrow> duration \<Rightarrow> 'r get_next_addr option" where
  "get_next_addr_new R clk resolvers d = (case resolvers_to_stream R 0 resolvers of
     None \<Rightarrow> None
   | Some f \<Rightarrow> (case instant_add clk d of
         None \<Rightarrow> None
       | Some wait \<Rightarrow> Some \<lparr>gna_resolvers = resolvers, gna_resolve_addrs = f, gna_wait_duration = d,
           gna_wait = wait, gna_resolutions = 1\<rparr>))"

text \<open>The loop may run forever (\<open>None\<close>): with no pause between two resolutions that yield nothing.\<close>

partial_function (option) get_next_addr_poll ::
  "'r resolving \<Rightarrow> clock \<Rightarrow> 'r get_next_addr \<Rightarrow> ((socket_addr option, fault) poll \<times> 'r get_next_addr) option" where
  "get_next_addr_poll R clk g = (case fuse_poll (gna_resolve_addrs g) of (p, f) \<Rightarrow>
     (case p of
        Ok (Ready (Some addr)) \<Rightarrow> Some (Ok (Ready (Some addr)), g\<lparr>gna_resolve_addrs := f\<rparr>)
      | Ok (Ready None) \<Rightarrow>
          (if timer_answer clk (gna_wait g) = Ok NotReady then Some (Ok NotReady, g\<lparr>gna_resolve_addrs := f\<rparr>)
           else (case resolvers_to_stream R (gna_resolutions g) (gna_resolvers g) of
             None \<Rightarrow> Some (Err (Panicked ''resolvers need to contain at least one element''), g\<lparr>gna_resolve_addrs := f\<rparr>)
           | Some f' \<Rightarrow> (case instant_add clk (gna_wait_duration g) of
                 None \<Rightarrow> Some (Err (Panicked ''overflow when adding duration to instant''), g\<lparr>gna_resolve_addrs := f'\<rparr>)
               | Some wait \<Rightarrow> get_next_addr_poll R clk (g\<lparr>gna_resolve_addrs := f',
                   gna_wait := wait, gna_resolutions := gna_resolutions g + 1\<rparr>))))
      | Err _ \<Rightarrow> get_next_addr_poll R clk (g\<lparr>gna_resolve_addrs := f\<rparr>)
      | Ok NotReady \<Rightarrow> Some (Ok NotReady, g\<lparr>gna_resolve_addrs := f\<rparr>)))"

section \<open>The connection handler\<close>

record 'r handler_context =
  hc_next_peer_addr :: "'r get_next_addr"
  hc_strategies :: "new_connection_handle list"
  hc_ping_interval :: duration
  hc_remote_registry_handle :: "(unit, unit) tape"

definition remote_registry_dropped :: "'r handler_context \<Rightarrow> (error + unit) \<times> 'r handler_context" where
  "remote_registry_dropped ctx = (case poll_tape (hc_remote_registry_handle ctx) of (p, t) \<Rightarrow>
     (if ready_or_err p then bail ''Remote registry dropped'' else Ok (),
      ctx\<lparr>hc_remote_registry_handle := t\<rparr>))"

datatype handler_state =
    RequestNextPeerAddr "((peer_id \<times> result_sender) option, unit) tape"
  | ConnectToPeer connect_with_strategies "((peer_id \<times> result_sender) option, unit) tape"
  | HandleConnection outgoing_stream

text \<open>The node, the context of the machine, the answers given so far and the state.\<close>

record ('r, 'prov, 'store) handler =
  h_node :: "('prov, 'store) node"
  h_ctx :: "'r handler_context"
  h_answers :: answers
  h_state :: handler_state

definition handler_new ::
  "'r resolving \<Rightarrow> clock \<Rightarrow> 'r list \<Rightarrow> new_connection_handle list \<Rightarrow> ((peer_id \<times> result_sender) option, unit) tape \<Rightarrow>
     duration \<Rightarrow> duration \<Rightarrow> (unit, unit) tape \<Rightarrow> ('prov, 'store) node \<Rightarrow> ('r, 'prov, 'store) handler option" where
  "handler_new R clk resolvers strategies requests ping_interval resolve_timeout handle n =
     map_option (\<lambda>g. \<lparr>h_node = n, h_ctx = \<lparr>hc_next_peer_addr = g, hc_strategies = strategies,
         hc_ping_interval = ping_interval, hc_remote_registry_handle = handle\<rparr>,
       h_answers = [], h_state = RequestNextPeerAddr requests\<rparr>)
       (get_next_addr_new R clk resolvers resolve_timeout)"

text \<open>
  \<^verbatim>\<open>RemoteRegistry::new\<close>: the handler, which is spawned, and the registry at the other end of its
  channels.
\<close>

definition remote_registry_new ::
  "'r resolving \<Rightarrow> clock \<Rightarrow> 'r list \<Rightarrow> duration \<Rightarrow> duration \<Rightarrow> new_connection_handle list \<Rightarrow>
     ((peer_id \<times> result_sender) option, unit) tape \<Rightarrow> (unit, unit) tape \<Rightarrow> ('prov, 'store) node \<Rightarrow>
     (('r, 'prov, 'store) handler \<times> remote_registry) option" where
  "remote_registry_new R clk resolvers ping_interval resolve_timeout strategies requests handle n =
     map_option (\<lambda>h. (h, \<lparr>rr_find_peer_request = [], rr_handler_alive = True\<rparr>))
       (handler_new R clk resolvers strategies requests ping_interval resolve_timeout handle n)"

type_synonym ('r, 'prov, 'store) handler_after = "(('r, 'prov, 'store) handler, unit, fault) after"

text \<open>A poll of the addresses that does not return makes the machine spin.\<close>

definition poll_request_next_peer_addr ::
  "'r resolving \<Rightarrow> clock \<Rightarrow> ((peer_id \<times> result_sender) option, unit) tape \<Rightarrow> ('r, 'prov, 'store) handler \<Rightarrow>
     ('r, 'prov, 'store) handler_after" where
  "poll_request_next_peer_addr R clk requests h =
     (case get_next_addr_poll R clk (hc_next_peer_addr (h_ctx h)) of
        None \<Rightarrow> Goto h
      | Some (p, g) \<Rightarrow>
          (let h1 = h\<lparr>h_ctx := (h_ctx h)\<lparr>hc_next_peer_addr := g\<rparr>\<rparr> in
           (case p of
              Err e \<Rightarrow> Fail e h1
            | Ok NotReady \<Rightarrow> Stay h1
            | Ok (Ready None) \<Rightarrow> Fail (Panicked ''GetNextAddr always returns an address.'') h1
            | Ok (Ready (Some addr)) \<Rightarrow>
                (case remote_registry_dropped (h_ctx h1) of
                   (Err e, ctx) \<Rightarrow> Fail (Raised e) (h1\<lparr>h_ctx := ctx\<rparr>)
                 | (Ok _, ctx) \<Rightarrow>
                     (case connect_with_strategies_new (hc_strategies ctx) addr RegistryHello of
                        None \<Rightarrow> Fail (Panicked ''no strategy'') (h1\<lparr>h_ctx := ctx\<rparr>)
                      | Some connect \<Rightarrow>
                          Goto (h1\<lparr>h_ctx := ctx, h_state := ConnectToPeer connect requests\<rparr>))))))"

definition poll_connect_to_peer ::
  "picoquic \<Rightarrow> stream_hello codec \<Rightarrow> registry_protocol codec \<Rightarrow> clock \<Rightarrow> connect_with_strategies \<Rightarrow>
     ((peer_id \<times> result_sender) option, unit) tape \<Rightarrow> ('r, 'prov, 'store) handler \<Rightarrow>
     ('r, 'prov, 'store) handler_after" where
  "poll_connect_to_peer pq cdh cdr clk connect requests h =
     (case remote_registry_dropped (h_ctx h) of
        (Err e, ctx) \<Rightarrow> Fail (Raised e) (h\<lparr>h_ctx := ctx\<rparr>)
      | (Ok _, ctx) \<Rightarrow>
          (case connect_with_strategies_poll pq cdh clk (h_node h) connect of (p, n, connect') \<Rightarrow>
             let h1 = h\<lparr>h_ctx := ctx, h_node := n, h_state := ConnectToPeer connect' requests\<rparr> in
             (case p of
                Err (Panicked m) \<Rightarrow> Fail (Panicked m) h1
              | Err (Raised e) \<Rightarrow> Goto (h1\<lparr>h_state := RequestNextPeerAddr requests\<rparr>)
              | Ok NotReady \<Rightarrow> Stay h1
              | Ok (Ready stream) \<Rightarrow>
                  if outgoing_stream_panics clk (hc_ping_interval ctx)
                  then Fail (Panicked ''OutgoingStream::new'') h1
                  else Goto (h1\<lparr>h_state := HandleConnection (outgoing_stream_new cdr clk (st_stream stream)
                    (st_new_stream_handle stream) requests (hc_ping_interval ctx) (st_peer_identifier stream))\<rparr>))))"

definition poll_handle_connection ::
  "clock \<Rightarrow> outgoing_stream \<Rightarrow> ('r, 'prov, 'store) handler \<Rightarrow> ('r, 'prov, 'store) handler_after" where
  "poll_handle_connection clk connection h =
     (case remote_registry_dropped (h_ctx h) of
        (Err e, ctx) \<Rightarrow> Fail (Raised e) (h\<lparr>h_ctx := ctx\<rparr>)
      | (Ok _, ctx) \<Rightarrow>
          (case outgoing_poll clk connection of (p, connection', a) \<Rightarrow>
             let h1 = h\<lparr>h_ctx := ctx, h_answers := h_answers h @ a, h_state := HandleConnection connection'\<rparr> in
             (case p of
                Err (Panicked m) \<Rightarrow> Fail (Panicked m) h1
              | Ok NotReady \<Rightarrow> Stay h1
              | _ \<Rightarrow> Goto (h1\<lparr>h_state := RequestNextPeerAddr (into_find_peer_request connection')\<rparr>))))"

definition handler_step ::
  "'r resolving \<Rightarrow> picoquic \<Rightarrow> stream_hello codec \<Rightarrow> registry_protocol codec \<Rightarrow> clock \<Rightarrow>
     ('r, 'prov, 'store) handler \<Rightarrow> ('r, 'prov, 'store) handler_after" where
  "handler_step R pq cdh cdr clk h = (case h_state h of
     RequestNextPeerAddr requests \<Rightarrow> poll_request_next_peer_addr R clk requests h
   | ConnectToPeer connect requests \<Rightarrow> poll_connect_to_peer pq cdh cdr clk connect requests h
   | HandleConnection connection \<Rightarrow> poll_handle_connection clk connection h)"

text \<open>The generated \<^verbatim>\<open>poll\<close>, with fuel for its transitions.\<close>

definition handler_poll ::
  "'r resolving \<Rightarrow> picoquic \<Rightarrow> stream_hello codec \<Rightarrow> registry_protocol codec \<Rightarrow> clock \<Rightarrow> nat \<Rightarrow>
     ('r, 'prov, 'store) handler \<Rightarrow> ((unit, fault) poll \<times> ('r, 'prov, 'store) handler) option" where
  "handler_poll R pq cdh cdr clk fuel h = drive (handler_step R pq cdh cdr clk) fuel h"

section \<open>The stream of addresses comes to an end in every poll\<close>

text \<open>How many answers of the resolvers one poll can still see.\<close>

definition gna_budget :: "'r resolving \<Rightarrow> clock \<Rightarrow> 'r get_next_addr \<Rightarrow> nat" where
  "gna_budget R clk g =
     (if fuse_done (gna_resolve_addrs g) then 0 else length (fuse_tape (gna_resolve_addrs g))) +
     (if timer_answer clk (gna_wait g) = Ok NotReady then 0
      else 1 + (case resolvers_to_stream R (gna_resolutions g) (gna_resolvers g) of
        None \<Rightarrow> 0 | Some f \<Rightarrow> length (fuse_tape f)))"

lemma fuse_poll_cases:
  obtains (ended) f' where "fuse_poll f = (Ok (Ready None), f')" "fuse_done f'"
    | (waiting) f' where "fuse_poll f = (Ok NotReady, f')"
    | (addr) a f' where "fuse_poll f = (Ok (Ready (Some a)), f')" "\<not> fuse_done f" "\<not> fuse_done f'"
        "fuse_tape f = Ok (Ready (Some a)) # fuse_tape f'"
    | (error) f' where "fuse_poll f = (Err (), f')" "\<not> fuse_done f" "\<not> fuse_done f'"
        "fuse_tape f = Err () # fuse_tape f'"
proof (cases "fuse_done f")
  case True
  with ended show ?thesis by (simp add: fuse_poll_def)
next
  case False
  show ?thesis
  proof (cases "fuse_tape f")
    case Nil
    with False waiting show ?thesis by (simp add: fuse_poll_def)
  next
    case (Cons p t)
    let ?f = "\<lparr>fuse_tape = t, fuse_done = False\<rparr>"
    show ?thesis
    proof (cases p rule: stream_poll_cases)
      case (item a)
      with False Cons show ?thesis by (intro addr [of a ?f]) (simp_all add: fuse_poll_def)
    next
      case (error e)
      with False Cons show ?thesis by (intro that(4) [of ?f]) (simp_all add: fuse_poll_def)
    qed (use False Cons ended waiting in \<open>simp_all add: fuse_poll_def\<close>)
  qed
qed

lemma resolvers_to_stream_fresh: "resolvers_to_stream R k rs = Some f \<Longrightarrow> \<not> fuse_done f"
  by (auto simp: resolvers_to_stream_def split: list.splits)

lemma get_next_addr_returns:
  assumes clk: "timer_documented clk"
  shows "0 < gna_wait_duration g \<Longrightarrow> \<exists>p g'. get_next_addr_poll R clk g = Some (p, g') \<and>
    gna_wait_duration g' = gna_wait_duration g \<and> gna_resolvers g' = gna_resolvers g \<and>
    p \<noteq> Ok (Ready None) \<and>
    (\<forall>a. p = Ok (Ready (Some a)) \<longrightarrow> gna_budget R clk g' < gna_budget R clk g)"
proof (induction g rule: measure_induct_rule [of "gna_budget R clk"])
  case (less g)
  show ?case
  proof (cases rule: fuse_poll_cases [of "gna_resolve_addrs g"])
    case (ended f')
    show ?thesis
    proof (cases "timer_answer clk (gna_wait g) = Ok NotReady")
      case True
      with ended show ?thesis by (simp add: get_next_addr_poll.simps [of R clk g])
    next
      case late: False
      show ?thesis
      proof (cases "resolvers_to_stream R (gna_resolutions g) (gna_resolvers g)")
        case None
        with ended late show ?thesis by (simp add: get_next_addr_poll.simps [of R clk g])
      next
        case (Some f2)
        show ?thesis
        proof (cases "instant_add clk (gna_wait_duration g)")
          case None
          with ended late Some show ?thesis by (simp add: get_next_addr_poll.simps [of R clk g])
        next
          case wait: (Some w)
          let ?g = "g\<lparr>gna_resolve_addrs := f2, gna_wait := w, gna_resolutions := gna_resolutions g + 1\<rparr>"
          have "timer_answer clk (gna_wait ?g) = Ok NotReady"
            using less.prems wait by (auto simp: timer_documentedD [OF clk] instant_add_def split: if_splits)
          then have lt: "gna_budget R clk ?g < gna_budget R clk g"
            using late Some resolvers_to_stream_fresh [OF Some] by (simp add: gna_budget_def)
          have "get_next_addr_poll R clk g = get_next_addr_poll R clk ?g"
            using ended late Some wait by (simp add: get_next_addr_poll.simps [of R clk g])
          with less.IH [OF lt] less.prems lt show ?thesis by fastforce
        qed
      qed
    qed
  next
    case (waiting f')
    then show ?thesis by (simp add: get_next_addr_poll.simps [of R clk g])
  next
    case (addr a f')
    then show ?thesis by (simp add: get_next_addr_poll.simps [of R clk g] gna_budget_def)
  next
    case (error f')
    let ?g = "g\<lparr>gna_resolve_addrs := f'\<rparr>"
    have lt: "gna_budget R clk ?g < gna_budget R clk g" using error by (simp add: gna_budget_def)
    have "get_next_addr_poll R clk g = get_next_addr_poll R clk ?g"
      using error by (simp add: get_next_addr_poll.simps [of R clk g])
    with less.IH [OF lt] less.prems lt show ?thesis by fastforce
  qed
qed

text \<open>Without a pause, resolvers that yield nothing make the poll run forever.\<close>

definition gna_spinning :: "'r resolving \<Rightarrow> clock \<Rightarrow> 'r get_next_addr \<Rightarrow> bool" where
  "gna_spinning R clk g \<longleftrightarrow> timer_documented clk \<and> gna_wait_duration g = 0 \<and> gna_wait g \<le> now clk \<and> now clk \<le> last_instant clk \<and>
     fst (fuse_poll (gna_resolve_addrs g)) = Ok (Ready None) \<and>
     (\<forall>k. \<exists>f. resolvers_to_stream R k (gna_resolvers g) = Some f \<and> fuse_tape f = [Ok (Ready None)])"

lemma get_next_addr_spins:
  assumes "get_next_addr_poll R clk g = Some r"
  shows "\<not> gna_spinning R clk g"
proof (rule get_next_addr_poll.raw_induct [of "\<lambda>R clk g r. \<not> gna_spinning R clk g", OF _ assms], goal_cases)
  case (1 poll R clk g r)
  show ?case
  proof
    assume spin: "gna_spinning R clk g"
    then obtain f where f: "resolvers_to_stream R (gna_resolutions g) (gna_resolvers g) = Some f"
      "fuse_tape f = [Ok (Ready None)]" by (auto simp: gna_spinning_def)
    let ?g = "g\<lparr>gna_resolve_addrs := f, gna_wait := now clk + gna_wait_duration g,
        gna_resolutions := gna_resolutions g + 1\<rparr>"
    have "poll R clk ?g = Some r"
      using 1(2) spin f
      by (cases "fuse_poll (gna_resolve_addrs g)") (simp add: gna_spinning_def timer_documentedD instant_add_def)
    moreover have "gna_spinning R clk ?g"
      using spin f resolvers_to_stream_fresh [OF f(1)] by (simp add: gna_spinning_def fuse_poll_def)
    ultimately show False using 1(1) by blast
  qed
qed

section \<open>The handler comes to an end in every poll\<close>

fun handler_state_rank :: "handler_state \<Rightarrow> nat" where
  "handler_state_rank (RequestNextPeerAddr requests) = 0"
| "handler_state_rank (ConnectToPeer connect requests) = 2"
| "handler_state_rank (HandleConnection connection) = 1"

definition handler_rank :: "'r resolving \<Rightarrow> clock \<Rightarrow> ('r, 'prov, 'store) handler \<Rightarrow> nat" where
  "handler_rank R clk h = 3 * gna_budget R clk (hc_next_peer_addr (h_ctx h)) + handler_state_rank (h_state h)"

text \<open>The timers work and there is a pause between two resolutions.\<close>

definition handler_ok :: "clock \<Rightarrow> ('r, 'prov, 'store) handler \<Rightarrow> bool" where
  "handler_ok clk h \<longleftrightarrow> timer_documented clk \<and> 0 < gna_wait_duration (hc_next_peer_addr (h_ctx h))"

lemma remote_registry_dropped_next:
  "remote_registry_dropped ctx = (r, ctx') \<Longrightarrow> hc_next_peer_addr ctx' = hc_next_peer_addr ctx"
  by (auto simp: remote_registry_dropped_def split: prod.splits)

lemma handler_goto_request:
  assumes "handler_ok clk h" "poll_request_next_peer_addr R clk requests h = Goto h'"
    "h_state h = RequestNextPeerAddr requests"
  shows "handler_ok clk h' \<and> handler_rank R clk h' < handler_rank R clk h"
proof -
  obtain p g where nxt: "get_next_addr_poll R clk (hc_next_peer_addr (h_ctx h)) = Some (p, g)"
    "gna_wait_duration g = gna_wait_duration (hc_next_peer_addr (h_ctx h))"
    "\<And>a. p = Ok (Ready (Some a)) \<Longrightarrow> gna_budget R clk g < gna_budget R clk (hc_next_peer_addr (h_ctx h))"
    using get_next_addr_returns [of clk "hc_next_peer_addr (h_ctx h)" R] assms(1) by (auto simp: handler_ok_def)
  with assms show ?thesis
    by (auto simp: poll_request_next_peer_addr_def handler_ok_def handler_rank_def Let_def
        dest!: remote_registry_dropped_next split: sum.splits async.splits option.splits prod.splits)
qed

interpretation hm: guarded_machine "handler_step R pq cdh cdr clk" "handler_rank R clk" "handler_ok clk"
  for R :: "'r resolving" and pq cdh cdr clk
proof unfold_locales
  fix h h' :: "('r, 'a, 'b) handler"
  assume ok: "handler_ok clk h" and goto: "handler_step R pq cdh cdr clk h = Goto h'"
  show "handler_ok clk h' \<and> handler_rank R clk h' < handler_rank R clk h"
  proof (cases "h_state h")
    case (RequestNextPeerAddr requests)
    with goto handler_goto_request [OF ok _ RequestNextPeerAddr] show ?thesis by (simp add: handler_step_def)
  next
    case (ConnectToPeer connect requests)
    with ok goto show ?thesis
      by (auto simp: handler_step_def poll_connect_to_peer_def handler_ok_def handler_rank_def Let_def
          dest!: remote_registry_dropped_next split: if_splits sum.splits async.splits fault.splits prod.splits)
  next
    case (HandleConnection connection)
    with ok goto show ?thesis
      by (auto simp: handler_step_def poll_handle_connection_def handler_ok_def handler_rank_def Let_def
          dest!: remote_registry_dropped_next split: sum.splits async.splits fault.splits prod.splits)
  qed
qed

section \<open>Concrete values\<close>

text \<open>A resolver for a socket address, resolved anew each time; addresses of two resolvers follow each other.\<close>

definition demo_resolving :: "socket_addr option resolving" where
  "demo_resolving = \<lparr>rsv_resolve = (\<lambda>_ r. case r of None \<Rightarrow> [Ok (Ready None)] | Some a \<Rightarrow> resolve_socket_addr a),
     rsv_select = (\<lambda>a b. butlast a @ b)\<rparr>"

definition demo_next_addr :: "socket_addr option list \<Rightarrow> duration \<Rightarrow> socket_addr option get_next_addr" where
  "demo_next_addr rs d = \<lparr>gna_resolvers = rs, gna_resolve_addrs = \<lparr>fuse_tape = [Ok (Ready None)], fuse_done = False\<rparr>,
     gna_wait_duration = d, gna_wait = 0, gna_resolutions = 1\<rparr>"

definition demo_handler ::
  "socket_addr option list \<Rightarrow> duration \<Rightarrow> (unit, unit) tape \<Rightarrow> handler_state \<Rightarrow> (socket_addr option, unit, unit) handler" where
  "demo_handler rs d dropped st = \<lparr>h_node = demo_node [9], h_ctx = \<lparr>hc_next_peer_addr = demo_next_addr rs d,
     hc_strategies = [demo_con_handle [1]], hc_ping_interval = 5, hc_remote_registry_handle = dropped\<rparr>,
     h_answers = [], h_state = st\<rparr>"

section \<open>Properties\<close>

text \<open>
  C31. With working timers and a pause between two resolutions, every poll of the handler comes
  to an end: the machine makes at most as many transitions as its rank says.
\<close>

theorem handler_poll_terminates:
  assumes "timer_documented clk" "0 < gna_wait_duration (hc_next_peer_addr (h_ctx h))"
    and "handler_rank R clk h < fuel"
  shows "\<exists>r. handler_poll R pq cdh cdr clk fuel h = Some r"
  unfolding handler_poll_def
  by (rule hm.guarded_fuel [OF _ assms(3)]) (simp add: handler_ok_def assms)

theorem handler_poll_terminates_witness:
  "\<exists>r. handler_poll demo_resolving demo_picoquic (prompt_codec []) (prompt_codec []) (documented_clock 1) 13
     (demo_handler [Some (SocketAddrV4 167772162 8000)] 2 [] (RequestNextPeerAddr [])) = Some r"
proof (rule handler_poll_terminates)
  have "timer_answer (documented_clock 1) 0 = Ok (Ready ())" by (simp add: documented_clock_def)
  then show "handler_rank demo_resolving (documented_clock 1)
      (demo_handler [Some (SocketAddrV4 167772162 8000)] 2 [] (RequestNextPeerAddr [])) < 13"
    by (simp add: demo_handler_def demo_next_addr_def handler_rank_def gna_budget_def resolvers_to_stream_def
        demo_resolving_def resolve_socket_addr_def)
qed (simp_all add: demo_handler_def demo_next_addr_def)

text \<open>
  The pause is needed: with a pause of zero and resolvers that yield no address, a poll for
  the next address does not return.
\<close>

theorem get_next_addr_hot_loop:
  assumes "timer_documented clk" "gna_wait_duration g = 0" "gna_wait g \<le> now clk" "now clk \<le> last_instant clk"
    and "fst (fuse_poll (gna_resolve_addrs g)) = Ok (Ready None)"
    and "\<forall>k. \<exists>f. resolvers_to_stream R k (gna_resolvers g) = Some f \<and> fuse_tape f = [Ok (Ready None)]"
  shows "get_next_addr_poll R clk g = None"
proof (cases "get_next_addr_poll R clk g")
  case (Some r)
  from get_next_addr_spins [OF Some] assms show ?thesis by (simp add: gna_spinning_def)
qed

theorem get_next_addr_hot_loop_witness:
  "get_next_addr_poll demo_resolving (documented_clock 1) (demo_next_addr [None] 0) = None"
  by (rule get_next_addr_hot_loop)
    (simp_all add: demo_next_addr_def resolvers_to_stream_def demo_resolving_def fuse_poll_def)

text \<open>
  While it connects or is connected, the handler ends with the next poll after its registry
  was dropped.
\<close>

theorem handler_drop_noticed:
  assumes "hc_remote_registry_handle (h_ctx h) = p # t" "ready_or_err p"
    and "\<forall>requests. h_state h \<noteq> RequestNextPeerAddr requests"
  shows "\<exists>h'. handler_poll R pq cdh cdr clk (Suc fuel) h =
    Some (Err (Raised (CustomError ''Remote registry dropped'')), h')"
  using assms
  by (cases "h_state h") (simp_all add: handler_poll_def handler_step_def poll_connect_to_peer_def
      poll_handle_connection_def remote_registry_dropped_def bail_def error_from_failure_def)

theorem handler_drop_noticed_witness:
  "\<exists>h'. handler_poll demo_resolving demo_picoquic (prompt_codec []) (prompt_codec []) (documented_clock 1) (Suc 0)
     (demo_handler [None] 2 [Ok (Ready ())] (HandleConnection (outgoing_stream_new (prompt_codec [])
        (documented_clock 0) (demo_stream []) (demo_handle [3] [1]) [] 5 [3]))) =
     Some (Err (Raised (CustomError ''Remote registry dropped'')), h')"
  by (rule handler_drop_noticed [of _ "Ok (Ready ())" "[]"]) (simp_all add: demo_handler_def)

text \<open>
  While it looks for an address and none is at hand, the handler does not ask whether its
  registry was dropped: it stays, whatever the answer would be.
\<close>

theorem handler_drop_unnoticed:
  assumes "h_state h = RequestNextPeerAddr requests"
    and "get_next_addr_poll R clk (hc_next_peer_addr (h_ctx h)) = Some (Ok NotReady, g)"
  shows "handler_poll R pq cdh cdr clk (Suc fuel) h =
    Some (Ok NotReady, h\<lparr>h_ctx := (h_ctx h)\<lparr>hc_next_peer_addr := g\<rparr>\<rparr>)"
  using assms by (simp add: handler_poll_def handler_step_def poll_request_next_peer_addr_def Let_def)

theorem handler_drop_unnoticed_witness:
  "\<exists>g. handler_poll demo_resolving demo_picoquic (prompt_codec []) (prompt_codec []) (documented_clock 1) (Suc 0)
     (demo_handler [None] 2 [Ok (Ready ())] (RequestNextPeerAddr [])) =
     Some (Ok NotReady, (demo_handler [None] 2 [Ok (Ready ())] (RequestNextPeerAddr []))
       \<lparr>h_ctx := (h_ctx (demo_handler [None] 2 [Ok (Ready ())] (RequestNextPeerAddr [])))\<lparr>hc_next_peer_addr := g\<rparr>\<rparr>)"
proof -
  let ?h = "demo_handler [None] 2 [Ok (Ready ())] (RequestNextPeerAddr [])"
  have addr: "\<exists>g. get_next_addr_poll demo_resolving (documented_clock 1) (hc_next_peer_addr (h_ctx ?h)) =
      Some (Ok NotReady, g)"
    by (simp add: demo_handler_def demo_next_addr_def demo_resolving_def
        get_next_addr_poll.simps [of _ _ "get_next_addr.make a b c d e" for a b c d e, unfolded get_next_addr.defs]
        fuse_poll_def resolvers_to_stream_def documented_clock_def instant_add_def)
  have "h_state ?h = RequestNextPeerAddr []" by (simp add: demo_handler_def)
  with addr handler_drop_unnoticed [of ?h "[]" demo_resolving "documented_clock 1"] show ?thesis by blast
qed

end
