(* ===== verification/Incoming.thy ===== *)
theory Incoming
  imports Build Handler
begin

text \<open>
  \<^verbatim>\<open>incoming_stream.rs\<close>: what a node does with a stream another peer opened, by the stream's first
  message: hand it to the user, serve the registry protocol, take part in the hole punching
  exchange, or relay it to a third peer. Spawned tasks and streams handed to the context are
  returned.
\<close>

section \<open>Dispatching an incoming stream\<close>

text \<open>
  A relay that waits for its second stream; \<open>px_building\<close> says whether the streams are prepared
  for the hole punching exchange (\<open>prepare_streams_for_building\<close>) or taken as they are.
\<close>

record proxy_task =
  px_stream :: strat_stream
  px_new_stream :: new_stream_future
  px_building :: bool

datatype spawned_task =
    TaskRegistry registry_stream
  | TaskBuildRemote build_remote
  | TaskProxy proxy_task

record incoming_effects =
  ie_passed :: "hp_stream list"
  ie_spawned :: "spawned_task list"

definition no_incoming_effects :: incoming_effects where
  "no_incoming_effects = \<lparr>ie_passed = [], ie_spawned = []\<rparr>"

definition handle_proxy_stream ::
  "picoquic \<Rightarrow> peer_id \<Rightarrow> strat_stream \<Rightarrow> 'prov inner \<Rightarrow> stream_hello \<Rightarrow> bool \<Rightarrow> spawned_task list" where
  "handle_proxy_stream pq target_peer_identifier stream reg hello_msg building =
     (case inner_peer reg target_peer_identifier of
        Some peer_new_stream_handle \<Rightarrow> [TaskProxy \<lparr>px_stream = stream,
          px_new_stream = new_stream_with_hello pq peer_new_stream_handle hello_msg, px_building = building\<rparr>]
      | None \<Rightarrow> [])"

text \<open>The codecs for the protocol an incoming stream switches to.\<close>

record codecs =
  co_registry :: "registry_protocol codec"
  co_build :: "build_protocol codec"

fun incoming_dispatch ::
  "picoquic \<Rightarrow> codecs \<Rightarrow> 'prov inner \<Rightarrow> incoming_stream \<Rightarrow> stream_hello pstream \<Rightarrow> stream_hello \<Rightarrow> incoming_effects" where
  "incoming_dispatch pq co reg i ps (User peer) = no_incoming_effects\<lparr>ie_passed :=
     [stream_new (strat_from_pstream ps) peer (is_new_stream_handle i) (peer \<noteq> is_peer_identifier i)]\<rparr>"
| "incoming_dispatch pq co reg i ps (UserProxy peer) = no_incoming_effects\<lparr>ie_spawned :=
     handle_proxy_stream pq peer (strat_from_pstream ps) reg (User (is_peer_identifier i)) False\<rparr>"
| "incoming_dispatch pq co reg i ps RegistryHello = no_incoming_effects\<lparr>ie_spawned :=
     [TaskRegistry (registry_stream_new (co_registry co) (strat_from_pstream ps))]\<rparr>"
| "incoming_dispatch pq co reg i ps (BuildConnectionToPeerHello peer) = no_incoming_effects\<lparr>ie_spawned :=
     [TaskBuildRemote (build_remote_new (co_build co) (strat_from_pstream ps) peer (is_new_stream_handle i)
        (is_new_con_handle i))]\<rparr>"
| "incoming_dispatch pq co reg i ps (ProxyBuildConnectionToPeer peer) = no_incoming_effects\<lparr>ie_spawned :=
     handle_proxy_stream pq peer (strat_from_pstream ps) reg (BuildConnectionToPeerHello (is_peer_identifier i)) True\<rparr>"

definition incoming_poll ::
  "picoquic \<Rightarrow> codecs \<Rightarrow> clock \<Rightarrow> 'prov inner \<Rightarrow> incoming_stream \<Rightarrow>
     (unit, fault) poll \<times> incoming_stream \<times> incoming_effects" where
  "incoming_poll pq co clk reg i =
     (if \<not> is_ok (timeout_poll clk (is_timeout i))
      then (Err (Raised (error_from_failure ''timeout at IncomingStream::poll()'')), i, no_incoming_effects)
      else (case is_stream i of
        None \<Rightarrow> (Err (Panicked ''Can not be polled twice!''), i, no_incoming_effects)
      | Some ps \<Rightarrow> (case ps_poll ps of (r, ps1) \<Rightarrow>
          (case r of
             Err e \<Rightarrow> (Err (Raised e), i\<lparr>is_stream := Some ps1\<rparr>, no_incoming_effects)
           | Ok NotReady \<Rightarrow> (Ok NotReady, i\<lparr>is_stream := Some ps1\<rparr>, no_incoming_effects)
           | Ok (Ready None) \<Rightarrow> (Ok (Ready ()), i\<lparr>is_stream := Some ps1\<rparr>, no_incoming_effects)
           | Ok (Ready (Some msg)) \<Rightarrow>
               (Ok (Ready ()), i\<lparr>is_stream := None\<rparr>, incoming_dispatch pq co reg i ps1 msg)))))"

section \<open>Relaying\<close>

text \<open>
  The task of \<open>handle_proxy_stream\<close>: once the stream to the target is there, the two streams are
  prepared and joined. \<open>None\<close> is a panic while sending the hello; \<open>dbg\<close> renders an error.
\<close>

definition proxy_poll ::
  "(error \<Rightarrow> string) \<Rightarrow> stream_hello codec \<Rightarrow> build_protocol codec \<Rightarrow> build_protocol codec \<Rightarrow> proxy_task \<Rightarrow>
     ((strat_stream \<times> strat_stream, error) poll \<times> proxy_task) option" where
  "proxy_poll dbg cdh cd0 cd1 t = (case new_stream_poll cdh (px_new_stream t) of
     None \<Rightarrow> None
   | Some (Err e, f) \<Rightarrow> Some (Err e, t\<lparr>px_new_stream := f\<rparr>)
   | Some (Ok NotReady, f) \<Rightarrow> Some (Ok NotReady, t\<lparr>px_new_stream := f\<rparr>)
   | Some (Ok (Ready stream2), f) \<Rightarrow>
       Some (case (if px_building t then prepare_streams_for_building cd0 cd1 (px_stream t) (st_stream stream2)
                   else Ok (px_stream t, st_stream stream2)) of
           Ok pair \<Rightarrow> Ok (Ready pair)
         | Err e \<Rightarrow> bail (''error preparing stream: '' @ dbg e),
         t\<lparr>px_new_stream := f\<rparr>))"

section \<open>Concrete values\<close>

definition demo_codecs :: codecs where
  "demo_codecs = \<lparr>co_registry = prompt_codec [], co_build = prompt_codec []\<rparr>"

definition demo_incoming :: "stream_hello list \<Rightarrow> peer_id \<Rightarrow> incoming_stream" where
  "demo_incoming ms peer = incoming_stream_new (prompt_codec (items_tape ms)) (documented_clock 0)
     (demo_stream [Ok (Ready (Some [4, 5]))]) 10 peer (demo_handle peer [1]) (demo_con_handle [1])"

lemmas demo_incoming_defs = demo_incoming_def incoming_stream_new_def timeout_new_def

lemma incoming_running:
  "timer_documented clk \<Longrightarrow> now clk < to_delay (is_timeout i) \<Longrightarrow> is_ok (timeout_poll clk (is_timeout i))"
  by (simp add: timeout_poll_documented)

lemma incoming_poll_hello:
  assumes "is_ok (timeout_poll clk (is_timeout i))" "is_stream i = Some ps" "ps_msgs ps = Ok (Ready (Some m)) # rest"
  shows "incoming_poll pq co clk reg i = (Ok (Ready ()), i\<lparr>is_stream := None\<rparr>,
    incoming_dispatch pq co reg i ((ps_advance ps)\<lparr>ps_msgs := rest\<rparr>) m)"
  using assms by (simp add: incoming_poll_def)

section \<open>Properties\<close>

text \<open>
  C19. A stream handed to the user as a direct one belongs to the peer that the handshake of its
  connection authenticated; any other name the remote side gives makes it a proxied stream with
  that name. The handle of the stream agrees with its labels, and every poll hands over at most
  one stream.
\<close>

theorem incoming_direct_authentic:
  assumes "incoming_poll pq co clk reg i = (r, i', e)" "s \<in> set (ie_passed e)"
  shows "ie_passed e = [s] \<and> stream_wf s \<and> (is_p2p s \<longleftrightarrow> st_peer_identifier s = is_peer_identifier i) \<and>
    nsh_new_stream_handle (st_new_stream_handle s) = nsh_new_stream_handle (is_new_stream_handle i)"
proof -
  have "\<exists>ps m. e = incoming_dispatch pq co reg i ps m"
    using assms by (auto simp: incoming_poll_def no_incoming_effects_def
        split: if_splits option.splits prod.splits sum.splits async.splits)
  then obtain ps m where e: "e = incoming_dispatch pq co reg i ps m" by blast
  with assms(2) show ?thesis by (cases m) (auto simp: no_incoming_effects_def is_p2p_def)
qed

theorem incoming_direct_authentic_witness:
  "\<exists>r i' e s. incoming_poll demo_picoquic demo_codecs (documented_clock 1) (inner_new :: unit inner)
      (demo_incoming [User [2]] [2]) = (r, i', e) \<and> ie_passed e = [s] \<and>
      (is_p2p s \<longleftrightarrow> st_peer_identifier s = [2])"
proof -
  let ?i = "demo_incoming [User [2]] [2]"
  obtain r i' e where poll: "incoming_poll demo_picoquic demo_codecs (documented_clock 1) (inner_new :: unit inner) ?i =
      (r, i', e)" by (metis prod_cases3)
  have "is_ok (timeout_poll (documented_clock 1) (is_timeout ?i))"
    by (rule incoming_running) (simp_all add: demo_incoming_defs)
  with poll obtain s where s: "s \<in> set (ie_passed e)"
    by (auto simp: incoming_poll_def demo_incoming_defs)
  have "is_peer_identifier ?i = [2]" by (simp add: demo_incoming_defs)
  with incoming_direct_authentic [OF poll s] poll show ?thesis by auto
qed

text \<open>
  A user stream loses nothing on its way to the user: the bytes that followed the hello
  message and were already read by the framing are delivered first, in order.
\<close>

theorem incoming_user_bytes:
  assumes "timer_documented clk" "now clk < to_delay (is_timeout i)"
    and "is_stream i = Some ps" "ps_msgs ps = Ok (Ready (Some (User peer))) # rest"
  shows "\<exists>s e. incoming_poll pq co clk reg i = (Ok (Ready ()), i\<lparr>is_stream := None\<rparr>, e) \<and> ie_passed e = [s] \<and>
    ie_spawned e = [] \<and> st_peer_identifier s = peer \<and> ps_pending ps = ps_used ps @ st_pending s"
proof -
  have "ps_pending ps = ps_used ps @ ps_pending ((ps_advance ps)\<lparr>ps_msgs := rest\<rparr>)"
    by (rule ps_poll_pending [of ps "Ok (Ready (Some (User peer)))"]) (simp add: assms(4))
  then show ?thesis
    by (simp add: incoming_poll_hello [OF incoming_running [OF assms(1,2)] assms(3,4)] no_incoming_effects_def
        st_pending_def)
qed

theorem incoming_user_bytes_witness:
  "\<exists>s e. incoming_poll demo_picoquic demo_codecs (documented_clock 1) (inner_new :: unit inner)
      (demo_incoming [User [2]] [2]) = (Ok (Ready ()), (demo_incoming [User [2]] [2])\<lparr>is_stream := None\<rparr>, e) \<and>
      ie_passed e = [s] \<and> st_peer_identifier s = [2]"
  using incoming_user_bytes [of "documented_clock 1" "demo_incoming [User [2]] [2]"
      "pstream_new (prompt_codec (items_tape [User [2]])) (demo_stream [Ok (Ready (Some [4, 5]))])" "[2]" "[]"
      demo_picoquic demo_codecs "inner_new :: unit inner"]
  by (auto simp: demo_incoming_defs)

text \<open>
  C22. A node relays only to peers it is connected to, and it introduces the requesting side to
  the target under the identity it authenticated itself, never under a name the requesting side
  chose: a request for a proxied user stream becomes \<open>User\<close>, a request to build a connection
  becomes \<open>BuildConnectionToPeer\<close>. A request for an unknown peer is dropped.
\<close>

theorem incoming_proxy:
  assumes "is_ok (timeout_poll clk (is_timeout i))" "is_stream i = Some ps" "ps_msgs ps = Ok (Ready (Some m)) # rest"
    and "m = UserProxy peer \<and> hello = User (is_peer_identifier i) \<and> \<not> building \<or>
      m = ProxyBuildConnectionToPeer peer \<and> hello = BuildConnectionToPeerHello (is_peer_identifier i) \<and> building"
  shows "\<exists>e. incoming_poll pq co clk reg i = (Ok (Ready ()), i\<lparr>is_stream := None\<rparr>, e) \<and> ie_passed e = [] \<and>
    (case inner_peer reg peer of
       None \<Rightarrow> ie_spawned e = []
     | Some h \<Rightarrow> \<exists>t. ie_spawned e = [TaskProxy t] \<and> px_building t = building \<and>
         nsf_stream_hello (px_new_stream t) = hello \<and>
         nsf_new_stream (px_new_stream t) = handle_new_stream pq (nsh_new_stream_handle h) \<and>
         ps_pending ps = ps_used ps @ ss_pending (px_stream t))"
proof -
  have "ps_pending ps = ps_used ps @ ps_pending ((ps_advance ps)\<lparr>ps_msgs := rest\<rparr>)"
    by (rule ps_poll_pending [of ps "Ok (Ready (Some m))"]) (simp add: assms(3))
  then show ?thesis
    using assms(4)
    by (cases "inner_peer reg peer")
      (auto simp: incoming_poll_hello [OF assms(1-3)] no_incoming_effects_def handle_proxy_stream_def)
qed

theorem incoming_proxy_witness:
  "\<exists>e t. incoming_poll demo_picoquic demo_codecs (documented_clock 1)
      (snd (register_peer [7] (demo_handle [7] [1]) (inner_new :: unit inner)))
      (demo_incoming [UserProxy [7]] [2]) = (Ok (Ready ()), (demo_incoming [UserProxy [7]] [2])\<lparr>is_stream := None\<rparr>, e) \<and>
      ie_spawned e = [TaskProxy t] \<and> nsf_stream_hello (px_new_stream t) = User [2]"
proof -
  let ?i = "demo_incoming [UserProxy [7]] [2]"
  have run: "is_ok (timeout_poll (documented_clock 1) (is_timeout ?i))"
    by (rule incoming_running) (simp_all add: demo_incoming_defs)
  have st: "is_stream ?i = Some (pstream_new (prompt_codec (items_tape [UserProxy [7]]))
      (demo_stream [Ok (Ready (Some [4, 5]))]))" "is_peer_identifier ?i = [2]"
    by (simp_all add: demo_incoming_defs)
  have "inner_peer (snd (register_peer [7] (demo_handle [7] [1]) (inner_new :: unit inner))) [7] = Some (demo_handle [7] [1])"
    by (simp add: inner_peer_def register_entry)
  with incoming_proxy [OF run st(1), of "UserProxy [7]" "[]" "[7]" "User [2]" False demo_picoquic demo_codecs
      "snd (register_peer [7] (demo_handle [7] [1]) (inner_new :: unit inner))"] st(2)
  show ?thesis by auto
qed

end
