(* ===== verification/Mdns.thy ===== *)
theory Mdns
  imports Handler
begin

text \<open>
  \<^verbatim>\<open>registries/mdns.rs\<close>: finding peers on the local network. The registry queues requests for the
  task \<open>discovery\<close>, which collects the announcements of other peers and connects to those that are
  asked for; the state machine \<open>responder_step\<close> keeps this peer announced. The mDNS libraries, the
  LRU cache, the hex encoding and \<^verbatim>\<open>select_ok\<close> are third-party and arguments. The requests leave
  the task in one of two ways, both returned: inside a spawned task that connects, or dropped,
  which the other end sees as a cancelled request.
\<close>

section \<open>Strings\<close>

definition starts_with :: "string \<Rightarrow> string \<Rightarrow> bool" where
  "starts_with s p = (take (length p) s = p)"

definition ends_with :: "string \<Rightarrow> string \<Rightarrow> bool" where
  "ends_with s p = starts_with (rev s) (rev p)"

text \<open>\<^verbatim>\<open>str::find\<close>: the position of the first occurrence.\<close>

fun str_find :: "string \<Rightarrow> string \<Rightarrow> nat option" where
  "str_find p [] = (if starts_with [] p then Some 0 else None)"
| "str_find p (c # s) = (if starts_with (c # s) p then Some 0 else map_option Suc (str_find p s))"

section \<open>Third-party operations\<close>

text \<open>The cache of known peers and the combinator \<^verbatim>\<open>select_ok\<close>; \<open>None\<close> is a panic.\<close>

record ('c, 'k, 'v) lru =
  lru_new :: "duration \<Rightarrow> nat \<Rightarrow> 'c"
  lru_insert :: "instant \<Rightarrow> 'k \<Rightarrow> 'v \<Rightarrow> 'c \<Rightarrow> 'c"
  lru_get :: "instant \<Rightarrow> 'k \<Rightarrow> 'c \<Rightarrow> 'v option \<times> 'c"

type_synonym 'sel select_ok = "connect_with_strategies list \<Rightarrow> 'sel option"

text \<open>The parts of an mDNS record the code looks at.\<close>

datatype record_kind = RecordA u32 | RecordAAAA u128 | RecordSRV u16 | RecordPTR string | RecordOther

record mdns_record =
  mrec_name :: string
  mrec_kind :: record_kind

section \<open>The registry\<close>

definition MAX_QUEUED_REQUESTS :: nat where
  "MAX_QUEUED_REQUESTS = 10"

text \<open>The sending end of the request channel: what was sent, as long as the receiver is there.\<close>

record mdns_registry =
  mr_requests :: "(result_sender \<times> peer_id) list"
  mr_receiver_alive :: bool

definition mdns_find_peer ::
  "(registry_result, unit) tape \<Rightarrow> peer_id \<Rightarrow> result_sender \<Rightarrow> mdns_registry \<Rightarrow>
     (registry_result, unit) tape \<times> mdns_registry" where
  "mdns_find_peer recv peer sender r =
     (recv, if mr_receiver_alive r then r\<lparr>mr_requests := mr_requests r @ [(sender, peer)]\<rparr> else r)"

section \<open>Discovery results\<close>

record discovery_result =
  dr_peer :: peer_id
  dr_ports :: "u16 list"
  dr_ip_addresses :: "ip_addr list"

text \<open>\<^verbatim>\<open>PubKeyHash::from_hashed_hex(..).ok()\<close>.\<close>

definition peer_of_hex :: "(string \<Rightarrow> string + bytes) \<Rightarrow> string \<Rightarrow> peer_id option" where
  "peer_of_hex hex_decode s = (case from_hashed_hex hex_decode s of
     Some (Ok k) \<Rightarrow> Some (pk_deref k)
   | _ \<Rightarrow> None)"

fun try_from_records ::
  "(string \<Rightarrow> string + bytes) \<Rightarrow> string \<Rightarrow> mdns_record list \<Rightarrow> peer_id option \<Rightarrow> u16 list \<Rightarrow> ip_addr list \<Rightarrow>
     discovery_result option" where
  "try_from_records hex_decode service_name [] peer ports ips =
     map_option (\<lambda>p. \<lparr>dr_peer = p, dr_ports = ports, dr_ip_addresses = ips\<rparr>) peer"
| "try_from_records hex_decode service_name (r # rs) peer ports ips = (case mrec_kind r of
     RecordA addr \<Rightarrow> try_from_records hex_decode service_name rs peer ports (ips @ [IpV4 addr])
   | RecordAAAA addr \<Rightarrow> try_from_records hex_decode service_name rs peer ports (ips @ [IpV6 addr])
   | RecordSRV port \<Rightarrow> try_from_records hex_decode service_name rs peer (ports @ [port]) ips
   | RecordPTR hash \<Rightarrow>
       if \<not> starts_with (mrec_name r) service_name then None
       else (case str_find (''.'' @ mrec_name r) hash of
          Some pos \<Rightarrow> try_from_records hex_decode service_name rs
            (peer_of_hex hex_decode (filter (\<lambda>c. c \<noteq> CHR ''.'') (take pos hash))) ports ips
        | None \<Rightarrow> try_from_records hex_decode service_name rs peer ports ips)
   | RecordOther \<Rightarrow> try_from_records hex_decode service_name rs peer ports ips)"

definition discovery_try_from ::
  "(string \<Rightarrow> string + bytes) \<Rightarrow> mdns_record list \<Rightarrow> string \<Rightarrow> discovery_result option" where
  "discovery_try_from hex_decode resp service_name =
     try_from_records hex_decode service_name resp None [] []"

section \<open>The discovery task\<close>

record 'c discovery =
  ds_service_name :: string
  ds_discovery :: "(mdns_record list option, string) tape"
  ds_request_recv :: "((result_sender \<times> peer_id) option, unit) tape"
  ds_local_peer_identifier :: peer_id
  ds_known_peers :: 'c
  ds_strategies :: "new_connection_handle list"
  ds_queued_requests :: "peer_id \<rightharpoonup> result_sender"
  ds_queued_requests_timeouts :: "(instant \<times> peer_id) list"

definition discovery_new ::
  "('c, peer_id, discovery_result) lru \<Rightarrow> (string \<Rightarrow> duration \<Rightarrow> string + (mdns_record list option, string) tape) \<Rightarrow>
     string \<Rightarrow> duration \<Rightarrow> ((result_sender \<times> peer_id) option, unit) tape \<Rightarrow> peer_id \<Rightarrow> new_connection_handle list \<Rightarrow>
     error + 'c discovery" where
  "discovery_new L discover_all service_name interval request_recv local_id strategies =
     (let service_name = (if ends_with service_name ''.local'' then service_name else service_name @ ''.local'') in
      case discover_all service_name interval of
        Err e \<Rightarrow> Err (error_from_mdns e)
      | Ok found \<Rightarrow> Ok \<lparr>ds_service_name = service_name, ds_discovery = found, ds_request_recv = request_recv,
          ds_local_peer_identifier = local_id, ds_known_peers = lru_new L (from_secs 60) 20,
          ds_strategies = strategies, ds_queued_requests = Map.empty, ds_queued_requests_timeouts = []\<rparr>)"

text \<open>
  \<^verbatim>\<open>fulfill_request\<close>: a task that connects to every address of the peer and answers with the first
  stream. \<open>None\<close> is a panic: of \<^verbatim>\<open>select_ok\<close>, or of a connection attempt without strategies.
\<close>

record 'sel fulfill_task =
  ft_connections :: 'sel
  ft_sender :: result_sender

definition fulfill_addrs :: "discovery_result \<Rightarrow> socket_addr list" where
  "fulfill_addrs r = concat (map (\<lambda>p. map (\<lambda>ip. socket_addr_new ip p) (dr_ip_addresses r)) (dr_ports r))"

definition fulfill_request ::
  "'sel select_ok \<Rightarrow> 'c discovery \<Rightarrow> result_sender \<Rightarrow> discovery_result \<Rightarrow> 'sel fulfill_task option" where
  "fulfill_request sel d sender r =
     (case those (map (\<lambda>a. connect_with_strategies_new (ds_strategies d) a
                   (User (ds_local_peer_identifier d))) (fulfill_addrs r)) of
        None \<Rightarrow> None
      | Some attempts \<Rightarrow> map_option (\<lambda>s. \<lparr>ft_connections = s, ft_sender = sender\<rparr>) (sel attempts))"

text \<open>What the spawned task sends when \<^verbatim>\<open>select_ok\<close> has answered; the other attempts are dropped.\<close>

definition fulfill_answers :: "(hp_stream, error) poll \<Rightarrow> 'sel fulfill_task \<Rightarrow> answers" where
  "fulfill_answers r t = (case r of Ok (Ready s) \<Rightarrow> [(rs_id (ft_sender t), RFound s)] | _ \<Rightarrow> [])"

text \<open>How the task ends: with its error, which carries nothing, or with a panic.\<close>

datatype task_end = Failed | Aborted string

record 'sel discovery_effects =
  de_spawned :: "'sel fulfill_task list"
  de_dropped :: "result_sender list"

definition no_discovery_effects :: "'sel discovery_effects" where
  "no_discovery_effects = \<lparr>de_spawned = [], de_dropped = []\<rparr>"

definition add_spawned :: "'sel fulfill_task \<Rightarrow> 'sel discovery_effects \<Rightarrow> 'sel discovery_effects" where
  "add_spawned t e = e\<lparr>de_spawned := t # de_spawned e\<rparr>"

definition add_dropped :: "result_sender list \<Rightarrow> 'sel discovery_effects \<Rightarrow> 'sel discovery_effects" where
  "add_dropped xs e = e\<lparr>de_dropped := xs @ de_dropped e\<rparr>"

function poll_results ::
  "(string \<Rightarrow> string + bytes) \<Rightarrow> ('c, peer_id, discovery_result) lru \<Rightarrow> 'sel select_ok \<Rightarrow> clock \<Rightarrow> 'c discovery \<Rightarrow>
     (unit, task_end) poll \<times> 'c discovery \<times> 'sel discovery_effects" where
  "poll_results hex L sel clk d = (case poll_tape (ds_discovery d) of (p, t) \<Rightarrow>
     let d1 = d\<lparr>ds_discovery := t\<rparr> in
     (case p of
        Err _ \<Rightarrow> (Err Failed, d1, no_discovery_effects)
      | Ok NotReady \<Rightarrow> (Ok NotReady, d1, no_discovery_effects)
      | Ok (Ready None) \<Rightarrow> (Err Failed, d1, no_discovery_effects)
      | Ok (Ready (Some res)) \<Rightarrow>
          (case discovery_try_from hex res (ds_service_name d) of
             None \<Rightarrow> poll_results hex L sel clk d1
           | Some r \<Rightarrow>
               if dr_peer r = ds_local_peer_identifier d then poll_results hex L sel clk d1
               else (let d2 = d1\<lparr>ds_queued_requests := (ds_queued_requests d)(dr_peer r := None)\<rparr>;
                         d3 = d2\<lparr>ds_known_peers := lru_insert L (now clk) (dr_peer r) r (ds_known_peers d)\<rparr> in
                 (case ds_queued_requests d (dr_peer r) of
                    None \<Rightarrow> poll_results hex L sel clk d3
                  | Some request \<Rightarrow>
                      (case fulfill_request sel d2 request r of
                         None \<Rightarrow> (Err (Aborted ''fulfill_request''), d2, add_dropped [request] no_discovery_effects)
                       | Some task \<Rightarrow> (case poll_results hex L sel clk d3 of (q, d', e) \<Rightarrow>
                           (q, d', add_spawned task e))))))))"
  by pat_completeness auto
termination
proof (relation "measure (\<lambda>(hex, L, sel, clk, d). length (ds_discovery d))")
qed (auto dest!: poll_tapeD [OF sym])

declare poll_results.simps [simp del]

text \<open>The timers of the queued requests: a \<^verbatim>\<open>FuturesUnordered\<close> of delays that yield their peer.\<close>

definition request_timer_poll ::
  "clock \<Rightarrow> instant \<times> peer_id \<Rightarrow> unit \<Rightarrow> (peer_id, unit) poll \<times> (instant \<times> peer_id) \<times> unit" where
  "request_timer_poll clk f u = (map_poll (\<lambda>_. snd f) (\<lambda>_. ()) (timer_answer clk (fst f)), f, u)"

lemma futures_scan_length:
  "futures_scan poll fs s = (p, fs', s') \<Longrightarrow> length fs = length fs' + (if p = Ok NotReady then 0 else 1)"
proof (induction fs arbitrary: s fs')
  case (Cons f fs)
  show ?case
  proof (cases "fst (poll f s) = Ok NotReady")
    case True
    then obtain f1 s1 where "poll f s = (Ok NotReady, f1, s1)" by (metis fst_conv prod.exhaust_sel)
    with Cons show ?thesis by (auto split: prod.splits)
  next
    case False
    with Cons.prems show ?thesis
      by (cases "poll f s") (auto split: sum.splits async.splits)
  qed
qed simp

lemma futures_poll_length:
  assumes "futures_poll poll fs s = (p, fs', s')" "p \<noteq> Ok NotReady" "p \<noteq> Ok (Ready None)"
  shows "length fs' < length fs"
proof -
  obtain q where "futures_scan poll fs s = (q, fs', s')" "p = map_ok (map_async Some) q"
    using assms(1,3) by (auto simp: futures_poll_def split: if_splits prod.splits)
  with futures_scan_length [of poll fs s q fs' s'] assms(2) show ?thesis by auto
qed

function poll_queued_requests_timeouts ::
  "clock \<Rightarrow> 'c discovery \<Rightarrow> 'c discovery \<times> result_sender list" where
  "poll_queued_requests_timeouts clk d =
     (case futures_poll (request_timer_poll clk) (ds_queued_requests_timeouts d) () of (p, fs, _) \<Rightarrow>
        let d1 = d\<lparr>ds_queued_requests_timeouts := fs\<rparr> in
        (case p of
           Ok (Ready (Some request)) \<Rightarrow>
             (case poll_queued_requests_timeouts clk
                     (d1\<lparr>ds_queued_requests := (ds_queued_requests d)(request := None)\<rparr>) of (d', xs) \<Rightarrow>
                (d', (case ds_queued_requests d request of Some x \<Rightarrow> [x] | None \<Rightarrow> []) @ xs))
         | Ok NotReady \<Rightarrow> (d1, [])
         | Ok (Ready None) \<Rightarrow> (d1, [])
         | Err _ \<Rightarrow> poll_queued_requests_timeouts clk d1))"
  by pat_completeness auto
termination
proof (relation "measure (\<lambda>(clk, d). length (ds_queued_requests_timeouts d))")
qed (auto dest!: futures_poll_length [OF sym])

declare poll_queued_requests_timeouts.simps [simp del]

text \<open>The loop over the requests.\<close>

function poll_requests ::
  "('c, peer_id, discovery_result) lru \<Rightarrow> 'sel select_ok \<Rightarrow> clock \<Rightarrow> 'c discovery \<Rightarrow>
     (unit, task_end) poll \<times> 'c discovery \<times> 'sel discovery_effects" where
  "poll_requests L sel clk d = (case poll_tape (ds_request_recv d) of (p, t) \<Rightarrow>
     let d1 = d\<lparr>ds_request_recv := t\<rparr> in
     (case p of
        Err _ \<Rightarrow> (Err Failed, d1, no_discovery_effects)
      | Ok NotReady \<Rightarrow> (Ok NotReady, d1, no_discovery_effects)
      | Ok (Ready None) \<Rightarrow> (Err Failed, d1, no_discovery_effects)
      | Ok (Ready (Some (sender, peer))) \<Rightarrow>
          (case lru_get L (now clk) peer (ds_known_peers d) of
             (Some result, known) \<Rightarrow>
               (let d2 = d1\<lparr>ds_known_peers := known\<rparr> in
                case fulfill_request sel d2 sender result of
                  None \<Rightarrow> (Err (Aborted ''fulfill_request''), d2, add_dropped [sender] no_discovery_effects)
                | Some task \<Rightarrow> (case poll_requests L sel clk d2 of (q, d', e) \<Rightarrow> (q, d', add_spawned task e)))
           | (None, known) \<Rightarrow>
               (let d2 = d1\<lparr>ds_known_peers := known\<rparr> in
                if ds_queued_requests d peer \<noteq> None \<or> MAX_QUEUED_REQUESTS \<le> length (ds_queued_requests_timeouts d)
                then (case poll_requests L sel clk d2 of (q, d', e) \<Rightarrow> (q, d', add_dropped [sender] e))
                else poll_requests L sel clk (d2\<lparr>ds_queued_requests := (ds_queued_requests d)(peer \<mapsto> sender),
                  ds_queued_requests_timeouts := ds_queued_requests_timeouts d @ [(now clk + from_secs 10, peer)]\<rparr>)))))"
  by pat_completeness auto
termination
proof (relation "measure (\<lambda>(L, sel, clk, d). length (ds_request_recv d))")
qed (auto dest!: poll_tapeD [OF sym])

declare poll_requests.simps [simp del]

definition discovery_poll ::
  "(string \<Rightarrow> string + bytes) \<Rightarrow> ('c, peer_id, discovery_result) lru \<Rightarrow> 'sel select_ok \<Rightarrow> clock \<Rightarrow> 'c discovery \<Rightarrow>
     (unit, task_end) poll \<times> 'c discovery \<times> 'sel discovery_effects" where
  "discovery_poll hex L sel clk d = (case poll_results hex L sel clk d of (r, d1, e1) \<Rightarrow>
     (case r of
        Err x \<Rightarrow> (Err x, d1, e1)
      | Ok _ \<Rightarrow> (case poll_queued_requests_timeouts clk d1 of (d2, timed_out) \<Rightarrow>
          (case poll_requests L sel clk d2 of (q, d3, e3) \<Rightarrow>
             (q, d3, \<lparr>de_spawned = de_spawned e1 @ de_spawned e3,
                      de_dropped = de_dropped e1 @ timed_out @ de_dropped e3\<rparr>)))))"

section \<open>The responder\<close>

record responder_context =
  rc_wait_before_retry :: duration
  rc_local_peer_identifier :: string
  rc_service_name :: string
  rc_shutdown_signal :: "(unit, unit) tape"
  rc_listen_port :: u16

text \<open>The name of this peer, in two labels because it is too long for one.\<close>

definition responder_name :: "string \<Rightarrow> string" where
  "responder_name s = take (length s div 2) s @ ''.'' @ drop (length s div 2) s"

definition responder_context_create ::
  "(bytes \<Rightarrow> string) \<Rightarrow> string \<Rightarrow> duration \<Rightarrow> pub_key_hash \<Rightarrow> u16 \<Rightarrow> (unit, unit) tape \<Rightarrow> responder_context" where
  "responder_context_create hex_encode_upper service_name wait local_id listen_port shutdown_signal =
     \<lparr>rc_wait_before_retry = wait, rc_local_peer_identifier = responder_name (pk_display hex_encode_upper local_id),
      rc_service_name = service_name, rc_shutdown_signal = shutdown_signal, rc_listen_port = listen_port\<rparr>"

definition is_shutdown :: "responder_context \<Rightarrow> bool \<times> responder_context" where
  "is_shutdown ctx = (case poll_tape (rc_shutdown_signal ctx) of (p, t) \<Rightarrow>
     (ready_or_err p, ctx\<lparr>rc_shutdown_signal := t\<rparr>))"

datatype responder_state =
    RegisterResponder
  | PollResponder "(unit, string) tape"
  | WaitForRetry instant

text \<open>
  The machine with its context, how often a responder was created, and the services that were
  registered (service, name, port). \<open>create k\<close> is the answer to the \<open>k\<close>-th call of
  \<^verbatim>\<open>Responder::create\<close>: an error, or the task of the responder.
\<close>

record responder =
  rp_ctx :: responder_context
  rp_created :: nat
  rp_registered :: "(string \<times> string \<times> u16) list"
  rp_state :: responder_state

type_synonym responder_after = "(responder, unit, unit) after"

definition poll_register_responder ::
  "(nat \<Rightarrow> (unit, string) tape option) \<Rightarrow> clock \<Rightarrow> responder \<Rightarrow> responder_after" where
  "poll_register_responder create clk m = (case is_shutdown (rp_ctx m) of (down, ctx) \<Rightarrow>
     let m1 = m\<lparr>rp_ctx := ctx\<rparr> in
     if down then Finish () m1
     else (case create (rp_created m) of
        Some task \<Rightarrow> Goto (m1\<lparr>rp_created := rp_created m + 1, rp_registered := rp_registered m @
            [(rc_service_name ctx, rc_local_peer_identifier ctx, rc_listen_port ctx)], rp_state := PollResponder task\<rparr>)
      | None \<Rightarrow> Goto (m1\<lparr>rp_created := rp_created m + 1,
            rp_state := WaitForRetry (now clk + rc_wait_before_retry ctx)\<rparr>)))"

definition poll_poll_responder :: "clock \<Rightarrow> (unit, string) tape \<Rightarrow> responder \<Rightarrow> responder_after" where
  "poll_poll_responder clk task m = (case is_shutdown (rp_ctx m) of (down, ctx) \<Rightarrow>
     let m1 = m\<lparr>rp_ctx := ctx\<rparr> in
     if down then Finish () m1
     else (case poll_tape task of (p, task') \<Rightarrow>
       if ready_or_err p then Goto (m1\<lparr>rp_state := WaitForRetry (now clk + rc_wait_before_retry ctx)\<rparr>)
       else Stay (m1\<lparr>rp_state := PollResponder task'\<rparr>)))"

definition poll_wait_for_retry :: "clock \<Rightarrow> instant \<Rightarrow> responder \<Rightarrow> responder_after" where
  "poll_wait_for_retry clk delay m = (case is_shutdown (rp_ctx m) of (down, ctx) \<Rightarrow>
     let m1 = m\<lparr>rp_ctx := ctx\<rparr> in
     if down then Finish () m1
     else if ready_or_err (timer_answer clk delay) then Goto (m1\<lparr>rp_state := RegisterResponder\<rparr>)
     else Stay m1)"

definition responder_step ::
  "(nat \<Rightarrow> (unit, string) tape option) \<Rightarrow> clock \<Rightarrow> responder \<Rightarrow> responder_after" where
  "responder_step create clk m = (case rp_state m of
     RegisterResponder \<Rightarrow> poll_register_responder create clk m
   | PollResponder task \<Rightarrow> poll_poll_responder clk task m
   | WaitForRetry delay \<Rightarrow> poll_wait_for_retry clk delay m)"

text \<open>The generated \<^verbatim>\<open>start\<close> and \<^verbatim>\<open>poll\<close>, with fuel for the transitions.\<close>

definition responder_start :: "responder_context \<Rightarrow> responder" where
  "responder_start ctx = \<lparr>rp_ctx = ctx, rp_created = 0, rp_registered = [], rp_state = RegisterResponder\<rparr>"

definition responder_poll ::
  "(nat \<Rightarrow> (unit, string) tape option) \<Rightarrow> clock \<Rightarrow> nat \<Rightarrow> responder \<Rightarrow> ((unit, unit) poll \<times> responder) option" where
  "responder_poll create clk fuel m = drive (responder_step create clk) fuel m"

section \<open>Starting the registry\<close>

definition mdns_service_name :: "string \<Rightarrow> string" where
  "mdns_service_name service_name = (if starts_with service_name ''_'' then service_name else ''_'' @ service_name)"

text \<open>The registry and the two tasks it spawns; the responder is spawned before the discovery can fail.\<close>

definition mdns_registry_new ::
  "(bytes \<Rightarrow> string) \<Rightarrow> ('c, peer_id, discovery_result) lru \<Rightarrow>
     (string \<Rightarrow> duration \<Rightarrow> string + (mdns_record list option, string) tape) \<Rightarrow> pub_key_hash \<Rightarrow>
     new_connection_handle list \<Rightarrow> string \<Rightarrow> u16 \<Rightarrow> (unit, unit) tape \<Rightarrow> ((result_sender \<times> peer_id) option, unit) tape \<Rightarrow>
     responder \<times> (error + mdns_registry \<times> 'c discovery)" where
  "mdns_registry_new hex_encode_upper L discover_all local_id strategies service_name listen_port shutdown_signal request_recv =
     (let name = mdns_service_name service_name in
      (responder_start (responder_context_create hex_encode_upper name (from_secs 5) local_id listen_port shutdown_signal),
       case discovery_new L discover_all name (from_secs 5) request_recv (pk_deref local_id) strategies of
         Err e \<Rightarrow> Err e
       | Ok d \<Rightarrow> Ok (\<lparr>mr_requests = [], mr_receiver_alive = True\<rparr>, d)))"

section \<open>Reading announcements\<close>

lemma starts_with_append [simp]: "starts_with (p @ s) p"
  by (simp add: starts_with_def)

lemma starts_with_Cons [simp]: "starts_with (c # s) (d # p) \<longleftrightarrow> c = d \<and> starts_with s p"
  by (auto simp: starts_with_def)

lemma starts_with_Nil [simp]: "starts_with s []" "starts_with [] (c # p) = False"
  by (simp_all add: starts_with_def)

text \<open>A label that begins with an underscore is found behind any text without one.\<close>

lemma str_find_label:
  "CHR ''_'' \<notin> set xs \<Longrightarrow>
     str_find (CHR ''.'' # CHR ''_'' # r) (xs @ CHR ''.'' # CHR ''_'' # r) = Some (length xs)"
proof (induction xs)
  case Nil
  then show ?case using starts_with_append [of r "[]"] by simp
next
  case (Cons c xs)
  then show ?case by (cases xs) auto
qed

text \<open>The records as three lists: foreign announcements, ports and addresses, and the names read.\<close>

definition foreign_ptr :: "string \<Rightarrow> mdns_record \<Rightarrow> bool" where
  "foreign_ptr service_name r = (case mrec_kind r of RecordPTR _ \<Rightarrow> \<not> starts_with (mrec_name r) service_name | _ \<Rightarrow> False)"

definition srv_ports :: "mdns_record list \<Rightarrow> u16 list" where
  "srv_ports rs = concat (map (\<lambda>r. case mrec_kind r of RecordSRV p \<Rightarrow> [p] | _ \<Rightarrow> []) rs)"

definition record_ips :: "mdns_record list \<Rightarrow> ip_addr list" where
  "record_ips rs = concat (map (\<lambda>r. case mrec_kind r of
     RecordA a \<Rightarrow> [IpV4 a] | RecordAAAA a \<Rightarrow> [IpV6 a] | _ \<Rightarrow> []) rs)"

definition ptr_peers :: "(string \<Rightarrow> string + bytes) \<Rightarrow> mdns_record list \<Rightarrow> peer_id option list" where
  "ptr_peers hex rs = concat (map (\<lambda>r. case mrec_kind r of
     RecordPTR h \<Rightarrow> (case str_find (''.'' @ mrec_name r) h of
         Some pos \<Rightarrow> [peer_of_hex hex (filter (\<lambda>c. c \<noteq> CHR ''.'') (take pos h))] | None \<Rightarrow> [])
   | _ \<Rightarrow> []) rs)"

lemma try_from_records_spec:
  "try_from_records hex svc rs peer ports ips =
     (if list_ex (foreign_ptr svc) rs then None
      else map_option (\<lambda>p. \<lparr>dr_peer = p, dr_ports = ports @ srv_ports rs, dr_ip_addresses = ips @ record_ips rs\<rparr>)
        (last (peer # ptr_peers hex rs)))"
proof (induction rs arbitrary: peer ports ips)
  case Nil
  then show ?case by (simp add: srv_ports_def record_ips_def ptr_peers_def)
next
  case (Cons r rs)
  show ?case
    by (cases "mrec_kind r")
      (simp_all add: Cons.IH srv_ports_def record_ips_def ptr_peers_def foreign_ptr_def split: option.split)
qed

section \<open>What the polls do to the queue of requests\<close>

lemma discovery_effects_simps [simp]:
  "de_spawned no_discovery_effects = []" "de_dropped no_discovery_effects = []"
  "de_spawned (add_spawned t e) = t # de_spawned e" "de_dropped (add_spawned t e) = de_dropped e"
  "de_spawned (add_dropped xs e) = de_spawned e" "de_dropped (add_dropped xs e) = xs @ de_dropped e"
  by (simp_all add: no_discovery_effects_def add_spawned_def add_dropped_def)

text \<open>What the polls leave alone; it decides what \<^verbatim>\<open>fulfill_request\<close> does.\<close>

definition ds_static :: "'c discovery \<Rightarrow> string \<times> peer_id \<times> new_connection_handle list" where
  "ds_static d = (ds_service_name d, ds_local_peer_identifier d, ds_strategies d)"

text \<open>The task: one attempt for each address and port, with the last strategy first.\<close>

lemma fulfill_request_task:
  assumes "ds_strategies d = strats @ [strat]"
    and "sel (map (\<lambda>a. \<lparr>cws_strategies = strats, cws_connect = Some (InitConnect strat a (User (ds_local_peer_identifier d))),
        cws_addr = a, cws_hello_msg = User (ds_local_peer_identifier d)\<rparr>)
      (concat (map (\<lambda>p. map (\<lambda>ip. socket_addr_new ip p) (dr_ip_addresses r)) (dr_ports r)))) = Some s"
  shows "fulfill_request sel d x r = Some \<lparr>ft_connections = s, ft_sender = x\<rparr>"
proof -
  have those_Some: "those (map (\<lambda>a. Some (f a)) as) = Some (map f as)" for f :: "socket_addr \<Rightarrow> connect_with_strategies" and as
    by (induction as) simp_all
  show ?thesis
    using assms by (simp add: fulfill_request_def connect_with_strategies_new_def those_Some fulfill_addrs_def)
qed

lemma ds_static_fulfill: "ds_static d' = ds_static d \<Longrightarrow> fulfill_request sel d' x r = fulfill_request sel d x r"
  by (simp add: ds_static_def fulfill_request_def)

lemma fulfill_request_update [simp]:
  "fulfill_request sel (d\<lparr>ds_discovery := a\<rparr>) = fulfill_request sel d"
  "fulfill_request sel (d\<lparr>ds_request_recv := b\<rparr>) = fulfill_request sel d"
  "fulfill_request sel (d\<lparr>ds_known_peers := c\<rparr>) = fulfill_request sel d"
  "fulfill_request sel (d\<lparr>ds_queued_requests := q\<rparr>) = fulfill_request sel d"
  by (simp_all add: fulfill_request_def fun_eq_iff)

lemma poll_results_stop:
  assumes "\<nexists>res t. ds_discovery d = Ok (Ready (Some res)) # t" "poll_results hex L sel clk d = (r, d', e)"
  shows "e = no_discovery_effects \<and> d' = d\<lparr>ds_discovery := tl (ds_discovery d)\<rparr> \<and> r \<noteq> Err (Aborted m)"
  using assms
  by (cases "ds_discovery d")
    (auto simp: poll_results.simps [of _ _ _ _ d] Let_def split: sum.splits async.splits option.splits)

text \<open>One announcement.\<close>

lemma poll_results_step:
  assumes "ds_discovery d = Ok (Ready (Some res)) # t"
  defines "d1 \<equiv> d\<lparr>ds_discovery := t\<rparr>"
  shows "poll_results hex L sel clk d = (case discovery_try_from hex res (ds_service_name d) of
     None \<Rightarrow> poll_results hex L sel clk d1
   | Some r \<Rightarrow>
       if dr_peer r = ds_local_peer_identifier d then poll_results hex L sel clk d1
       else (let d2 = d1\<lparr>ds_queued_requests := (ds_queued_requests d)(dr_peer r := None)\<rparr>;
                 d3 = d2\<lparr>ds_known_peers := lru_insert L (now clk) (dr_peer r) r (ds_known_peers d)\<rparr> in
         (case ds_queued_requests d (dr_peer r) of
            None \<Rightarrow> poll_results hex L sel clk d3
          | Some request \<Rightarrow>
              (case fulfill_request sel d2 request r of
                 None \<Rightarrow> (Err (Aborted ''fulfill_request''), d2, add_dropped [request] no_discovery_effects)
               | Some task \<Rightarrow> (case poll_results hex L sel clk d3 of (q, d', e) \<Rightarrow>
                   (q, d', add_spawned task e))))))"
  using assms(1) unfolding d1_def by (subst poll_results.simps) (simp add: Let_def)

definition announced ::
  "('c, peer_id, discovery_result) lru \<Rightarrow> clock \<Rightarrow> (mdns_record list option, string) tape \<Rightarrow> discovery_result \<Rightarrow>
     'c discovery \<Rightarrow> 'c discovery" where
  "announced L clk t a d = d\<lparr>ds_discovery := t, ds_queued_requests := (ds_queued_requests d)(dr_peer a := None),
     ds_known_peers := lru_insert L (now clk) (dr_peer a) a (ds_known_peers d)\<rparr>"

lemma poll_resultsE:
  assumes "poll_results hex L sel clk d = (r, d', e)"
  obtains (stop) "e = no_discovery_effects" "d' = d\<lparr>ds_discovery := tl (ds_discovery d)\<rparr>"
  | (skip) p t where "ds_discovery d = p # t" "poll_results hex L sel clk (d\<lparr>ds_discovery := t\<rparr>) = (r, d', e)"
  | (known) res t a where "ds_discovery d = Ok (Ready (Some res)) # t"
      "discovery_try_from hex res (ds_service_name d) = Some a" "ds_queued_requests d (dr_peer a) = None"
      "poll_results hex L sel clk (announced L clk t a d) = (r, d', e)"
  | (panic) res t a x where "ds_discovery d = Ok (Ready (Some res)) # t"
      "discovery_try_from hex res (ds_service_name d) = Some a" "ds_queued_requests d (dr_peer a) = Some x"
      "fulfill_request sel d x a = None" "e = add_dropped [x] no_discovery_effects"
      "d' = d\<lparr>ds_discovery := t, ds_queued_requests := (ds_queued_requests d)(dr_peer a := None)\<rparr>"
  | (served) res t a x task e' where "ds_discovery d = Ok (Ready (Some res)) # t"
      "discovery_try_from hex res (ds_service_name d) = Some a" "ds_queued_requests d (dr_peer a) = Some x"
      "fulfill_request sel d x a = Some task" "poll_results hex L sel clk (announced L clk t a d) = (r, d', e')"
      "e = add_spawned task e'"
proof (cases "\<exists>res t. ds_discovery d = Ok (Ready (Some res)) # t")
  case False
  with poll_results_stop [OF _ assms] stop show ?thesis by blast
next
  case True
  then obtain res t where tape: "ds_discovery d = Ok (Ready (Some res)) # t" by blast
  note step = assms [unfolded poll_results_step [OF tape]]
  show ?thesis
  proof (cases "\<exists>a. discovery_try_from hex res (ds_service_name d) = Some a \<and> dr_peer a \<noteq> ds_local_peer_identifier d")
    case False
    with step show ?thesis by (intro skip [OF tape]) (auto split: option.splits if_splits)
  next
    case True
    then obtain a where a: "discovery_try_from hex res (ds_service_name d) = Some a" "dr_peer a \<noteq> ds_local_peer_identifier d"
      by blast
    with step tape show ?thesis
      by (auto simp: Let_def split: option.splits prod.splits
          intro: known [OF tape a(1)] panic [OF tape a(1)] served [OF tape a(1)] simp flip: announced_def)
  qed
qed

lemma announced_simps [simp]:
  "ds_discovery (announced L clk t a d) = t" "ds_static (announced L clk t a d) = ds_static d"
  "ds_service_name (announced L clk t a d) = ds_service_name d"
  "ds_queued_requests_timeouts (announced L clk t a d) = ds_queued_requests_timeouts d"
  "ds_queued_requests (announced L clk t a d) = (ds_queued_requests d)(dr_peer a := None)"
  by (simp_all add: announced_def ds_static_def)

text \<open>The announcements only take requests out of the queue.\<close>

lemma poll_results_frame:
  "poll_results hex L sel clk d = (r, d', e) \<Longrightarrow>
     ds_static d' = ds_static d \<and> ds_queued_requests_timeouts d' = ds_queued_requests_timeouts d \<and>
     set (ds_discovery d') \<subseteq> set (ds_discovery d) \<and> dom (ds_queued_requests d') \<subseteq> dom (ds_queued_requests d)"
proof (induction "length (ds_discovery d)" arbitrary: d e rule: less_induct)
  case less
  show ?case
    using less.prems
  proof (cases rule: poll_resultsE)
    case stop
    then show ?thesis by (cases "ds_discovery d") (auto simp: ds_static_def)
  next
    case (skip p t)
    with less.hyps [of "d\<lparr>ds_discovery := t\<rparr>" e] show ?thesis by (auto simp: ds_static_def)
  next
    case (known res t a)
    with less.hyps [of "announced L clk t a d" e] show ?thesis by auto
  next
    case (panic res t a x)
    then show ?thesis by (auto simp: ds_static_def)
  next
    case (served res t a x task e')
    with less.hyps [of "announced L clk t a d" e'] show ?thesis by auto
  qed
qed

text \<open>
  What serves the request of \<open>x\<close> for the peer \<open>p\<close>: one of the announcements names \<open>p\<close>, and \<open>x\<close> went into
  the task that connects to the announced addresses. It was dropped instead only when making the
  task panicked.
\<close>

definition served_by ::
  "(string \<Rightarrow> string + bytes) \<Rightarrow> 'sel select_ok \<Rightarrow> 'c discovery \<Rightarrow> peer_id \<Rightarrow> result_sender \<Rightarrow> 'sel discovery_effects \<Rightarrow>
     bool" where
  "served_by hex sel d p x e \<longleftrightarrow> (\<exists>res r. Ok (Ready (Some res)) \<in> set (ds_discovery d) \<and>
     discovery_try_from hex res (ds_service_name d) = Some r \<and> dr_peer r = p \<and>
     (case fulfill_request sel d x r of
        Some task \<Rightarrow> task \<in> set (de_spawned e)
      | None \<Rightarrow> x \<in> set (de_dropped e)))"

lemma served_by_later:
  assumes "served_by hex sel d' p x e'" "ds_static d' = ds_static d" "set (ds_discovery d') \<subseteq> set (ds_discovery d)"
    and "set (de_spawned e') \<subseteq> set (de_spawned e)" "set (de_dropped e') \<subseteq> set (de_dropped e)"
  shows "served_by hex sel d p x e"
proof -
  have name: "ds_service_name d' = ds_service_name d" using assms(2) by (simp add: ds_static_def)
  from assms(1) obtain res r where r: "Ok (Ready (Some res)) \<in> set (ds_discovery d')"
    "discovery_try_from hex res (ds_service_name d) = Some r" "dr_peer r = p"
    "case fulfill_request sel d x r of Some task \<Rightarrow> task \<in> set (de_spawned e') | None \<Rightarrow> x \<in> set (de_dropped e')"
    unfolding served_by_def name ds_static_fulfill [OF assms(2)] by blast
  with assms(4,5) have "case fulfill_request sel d x r of Some task \<Rightarrow> task \<in> set (de_spawned e) | None \<Rightarrow> x \<in> set (de_dropped e)"
    by (auto split: option.splits)
  with r assms(3) show ?thesis unfolding served_by_def by blast
qed

lemma poll_results_waits:
  "poll_results hex L sel clk d = (r, d', e) \<Longrightarrow> ds_queued_requests d p = Some x \<Longrightarrow>
     ds_queued_requests d' p = Some x \<or> served_by hex sel d p x e"
proof (induction "length (ds_discovery d)" arbitrary: d e rule: less_induct)
  case less
  show ?case
    using less.prems(1)
  proof (cases rule: poll_resultsE)
    case stop
    with less.prems(2) show ?thesis by simp
  next
    case (skip q t)
    with less.hyps [of "d\<lparr>ds_discovery := t\<rparr>" e] less.prems(2) show ?thesis
      by (auto intro: served_by_later simp: ds_static_def)
  next
    case (known res t a)
    then have "dr_peer a \<noteq> p" using less.prems(2) by auto
    with known less.hyps [of "announced L clk t a d" e] less.prems(2) show ?thesis
      by (auto intro: served_by_later)
  next
    case (panic res t a y)
    with less.prems(2) show ?thesis by (cases "dr_peer a = p") (auto simp: served_by_def)
  next
    case (served res t a y task e')
    then show ?thesis
    proof (cases "dr_peer a = p")
      case True
      with served less.prems(2) show ?thesis by (force simp: served_by_def)
    next
      case False
      with served less.hyps [of "announced L clk t a d" e'] less.prems(2) show ?thesis
        by (auto intro: served_by_later)
    qed
  qed
qed

lemma request_timer_scan:
  "timer_documented clk \<Longrightarrow> futures_scan (request_timer_poll clk) fs u = (p, fs', u') \<Longrightarrow>
     (p = Ok NotReady \<and> fs' = fs) \<or> (\<exists>t q. p = Ok (Ready q) \<and> t \<le> now clk \<and> mset fs = add_mset (t, q) (mset fs'))"
proof (induction fs arbitrary: fs')
  case Nil
  then show ?case by simp
next
  case (Cons f fs)
  then show ?case
    by (cases f; cases "fst f \<le> now clk")
      (auto simp: request_timer_poll_def timer_documentedD split: prod.splits)
qed

lemma poll_timeouts_step:
  assumes "timer_documented clk"
  obtains (stop) "poll_queued_requests_timeouts clk d = (d, [])"
  | (expired) t q fs where "t \<le> now clk" "mset (ds_queued_requests_timeouts d) = add_mset (t, q) (mset fs)"
      "poll_queued_requests_timeouts clk d =
         (case poll_queued_requests_timeouts clk (d\<lparr>ds_queued_requests_timeouts := fs,
              ds_queued_requests := (ds_queued_requests d)(q := None)\<rparr>) of (d', xs) \<Rightarrow>
            (d', (case ds_queued_requests d q of Some x \<Rightarrow> [x] | None \<Rightarrow> []) @ xs))"
proof -
  obtain p fs where scan: "futures_scan (request_timer_poll clk) (ds_queued_requests_timeouts d) () = (p, fs, ())"
    by (metis prod_cases3 unit.exhaust)
  consider "ds_queued_requests_timeouts d = []" | "ds_queued_requests_timeouts d \<noteq> []" "p = Ok NotReady" "fs = ds_queued_requests_timeouts d"
    | t q where "ds_queued_requests_timeouts d \<noteq> []" "p = Ok (Ready q)" "t \<le> now clk"
      "mset (ds_queued_requests_timeouts d) = add_mset (t, q) (mset fs)"
    using request_timer_scan [OF assms scan] by auto
  then show ?thesis
  proof cases
    case 1
    then have "poll_queued_requests_timeouts clk d = (d, [])"
      by (subst poll_queued_requests_timeouts.simps) (simp add: futures_poll_def Let_def)
    then show ?thesis by (rule stop)
  next
    case 2
    with scan have "poll_queued_requests_timeouts clk d = (d, [])"
      by (subst poll_queued_requests_timeouts.simps) (simp add: futures_poll_def Let_def)
    then show ?thesis by (rule stop)
  next
    case 3
    with scan show ?thesis
      by (intro expired [OF 3(3,4)], subst poll_queued_requests_timeouts.simps) (simp add: futures_poll_def Let_def)
  qed
qed

text \<open>The timers of the peer are later than now.\<close>

definition not_timed_out :: "clock \<Rightarrow> peer_id \<Rightarrow> 'c discovery \<Rightarrow> bool" where
  "not_timed_out clk p d \<longleftrightarrow> (\<forall>t. (t, p) \<in> set (ds_queued_requests_timeouts d) \<longrightarrow> now clk < t)"

lemma poll_timeouts_queue:
  assumes "timer_documented clk"
  shows "dom (ds_queued_requests d) \<subseteq> snd ` set (ds_queued_requests_timeouts d) \<Longrightarrow>
     poll_queued_requests_timeouts clk d = (d', xs) \<Longrightarrow>
     dom (ds_queued_requests d') \<subseteq> snd ` set (ds_queued_requests_timeouts d') \<and>
     length (ds_queued_requests_timeouts d') \<le> length (ds_queued_requests_timeouts d) \<and>
     set (ds_queued_requests_timeouts d') \<subseteq> set (ds_queued_requests_timeouts d) \<and>
     ds_static d' = ds_static d \<and> ds_discovery d' = ds_discovery d \<and>
     (not_timed_out clk p d \<longrightarrow> ds_queued_requests d' p = ds_queued_requests d p)"
proof (induction "length (ds_queued_requests_timeouts d)" arbitrary: d xs rule: less_induct)
  case less
  from assms show ?case
  proof (cases rule: poll_timeouts_step [where d = d])
    case stop
    with less.prems show ?thesis by simp
  next
    case (expired t q fs)
    let ?d = "d\<lparr>ds_queued_requests_timeouts := fs, ds_queued_requests := (ds_queued_requests d)(q := None)\<rparr>"
    obtain ys where rest: "poll_queued_requests_timeouts clk ?d = (d', ys)"
      using less.prems(2) expired(3) by (auto split: prod.splits)
    from expired(2) have len: "length (ds_queued_requests_timeouts d) = Suc (length fs)"
      by (metis size_add_mset size_mset)
    from expired(2) have timers: "set (ds_queued_requests_timeouts d) = insert (t, q) (set fs)"
      by (metis set_mset_add_mset_insert set_mset_mset)
    with less.prems(1) have "dom (ds_queued_requests ?d) \<subseteq> snd ` set (ds_queued_requests_timeouts ?d)" by auto
    with less.hyps [of ?d ys] rest len timers expired(1) show ?thesis
      by (auto simp: ds_static_def not_timed_out_def split: if_splits)
  qed
qed

lemma poll_requests_stop:
  assumes "\<nexists>q t. ds_request_recv d = Ok (Ready (Some q)) # t" "poll_requests L sel clk d = (r, d', e)"
  shows "e = no_discovery_effects \<and> d' = d\<lparr>ds_request_recv := tl (ds_request_recv d)\<rparr>"
  using assms
  by (cases "ds_request_recv d")
    (auto simp: poll_requests.simps [of _ _ _ d] Let_def split: sum.splits async.splits option.splits)

text \<open>One request.\<close>

lemma poll_requests_known:
  assumes "ds_request_recv d = Ok (Ready (Some (x, p))) # t" "lru_get L (now clk) p (ds_known_peers d) = (Some res, known)"
  defines "d2 \<equiv> d\<lparr>ds_request_recv := t, ds_known_peers := known\<rparr>"
  shows "poll_requests L sel clk d = (case fulfill_request sel d2 x res of
     None \<Rightarrow> (Err (Aborted ''fulfill_request''), d2, add_dropped [x] no_discovery_effects)
   | Some task \<Rightarrow> (case poll_requests L sel clk d2 of (q, d', e) \<Rightarrow> (q, d', add_spawned task e)))"
  using assms(1,2) unfolding d2_def by (subst poll_requests.simps) (simp add: Let_def)

lemma poll_requests_unknown:
  assumes "ds_request_recv d = Ok (Ready (Some (x, p))) # t" "lru_get L (now clk) p (ds_known_peers d) = (None, known)"
  defines "d2 \<equiv> d\<lparr>ds_request_recv := t, ds_known_peers := known\<rparr>"
  shows "poll_requests L sel clk d =
    (if ds_queued_requests d p \<noteq> None \<or> MAX_QUEUED_REQUESTS \<le> length (ds_queued_requests_timeouts d)
     then (case poll_requests L sel clk d2 of (q, d', e) \<Rightarrow> (q, d', add_dropped [x] e))
     else poll_requests L sel clk (d2\<lparr>ds_queued_requests := (ds_queued_requests d)(p \<mapsto> x),
       ds_queued_requests_timeouts := ds_queued_requests_timeouts d @ [(now clk + from_secs 10, p)]\<rparr>))"
  using assms(1,2) unfolding d2_def by (subst poll_requests.simps) (simp add: Let_def)

text \<open>The state after a request, whichever way it went.\<close>

lemma poll_requestsE:
  assumes "poll_requests L sel clk d = (r, d', e)"
  obtains (stop) t known where "d' = d\<lparr>ds_request_recv := t, ds_known_peers := known\<rparr>"
  | (passed) q t known e' where "ds_request_recv d = q # t"
      "poll_requests L sel clk (d\<lparr>ds_request_recv := t, ds_known_peers := known\<rparr>) = (r, d', e')"
  | (queued) q t known x p where "ds_request_recv d = q # t" "ds_queued_requests d p = None"
      "length (ds_queued_requests_timeouts d) < MAX_QUEUED_REQUESTS"
      "poll_requests L sel clk (d\<lparr>ds_request_recv := t, ds_known_peers := known, ds_queued_requests := (ds_queued_requests d)(p \<mapsto> x),
         ds_queued_requests_timeouts := ds_queued_requests_timeouts d @ [(now clk + from_secs 10, p)]\<rparr>) = (r, d', e)"
proof (cases "\<exists>q t. ds_request_recv d = Ok (Ready (Some q)) # t")
  case False
  with poll_requests_stop [OF _ assms] stop [where known = "ds_known_peers d"] show ?thesis by simp
next
  case True
  then obtain x p t where tape: "ds_request_recv d = Ok (Ready (Some (x, p))) # t" by auto
  obtain found known where get: "lru_get L (now clk) p (ds_known_peers d) = (found, known)" by force
  show ?thesis
  proof (cases found)
    case (Some res)
    from assms [unfolded poll_requests_known [OF tape get [unfolded Some]]] show ?thesis
      by (auto split: option.splits prod.splits intro: stop passed [OF tape])
  next
    case None
    from assms [unfolded poll_requests_unknown [OF tape get [unfolded None]]] show ?thesis
      by (auto split: if_splits prod.splits intro: passed [OF tape] queued [OF tape])
  qed
qed

text \<open>Every queued request has its timer, and there are at most ten timers.\<close>

definition queue_ok :: "'c discovery \<Rightarrow> bool" where
  "queue_ok d \<longleftrightarrow> dom (ds_queued_requests d) \<subseteq> snd ` set (ds_queued_requests_timeouts d) \<and>
     length (ds_queued_requests_timeouts d) \<le> MAX_QUEUED_REQUESTS"

lemma queue_ok_finite: "queue_ok d \<Longrightarrow> finite (dom (ds_queued_requests d))"
  using finite_subset [of "dom (ds_queued_requests d)" "snd ` set (ds_queued_requests_timeouts d)"]
  by (simp add: queue_ok_def)

text \<open>Requests are queued next to those that wait already, which they do not disturb.\<close>

lemma poll_requests_queue:
  "queue_ok d \<Longrightarrow> poll_requests L sel clk d = (r, d', e) \<Longrightarrow>
     queue_ok d' \<and> ds_static d' = ds_static d \<and> ds_discovery d' = ds_discovery d \<and>
     (\<forall>p x. ds_queued_requests d p = Some x \<longrightarrow> ds_queued_requests d' p = Some x \<and>
       (\<forall>t. (t, p) \<in> set (ds_queued_requests_timeouts d') \<longrightarrow> (t, p) \<in> set (ds_queued_requests_timeouts d)))"
proof (induction "length (ds_request_recv d)" arbitrary: d e rule: less_induct)
  case less
  show ?case
    using less.prems(2)
  proof (cases rule: poll_requestsE)
    case (stop t known)
    with less.prems(1) show ?thesis by (simp add: queue_ok_def ds_static_def)
  next
    case (passed q t known e')
    with less.hyps [of "d\<lparr>ds_request_recv := t, ds_known_peers := known\<rparr>" e'] less.prems(1) show ?thesis
      by (simp add: queue_ok_def ds_static_def)
  next
    case (queued q t known x p)
    let ?d = "d\<lparr>ds_request_recv := t, ds_known_peers := known, ds_queued_requests := (ds_queued_requests d)(p \<mapsto> x),
       ds_queued_requests_timeouts := ds_queued_requests_timeouts d @ [(now clk + from_secs 10, p)]\<rparr>"
    have "queue_ok ?d" using less.prems(1) queued(3) by (auto simp: queue_ok_def)
    with less.hyps [of ?d e] queued show ?thesis
      by (auto simp: ds_static_def) (metis map_upd_Some_unfold option.discI)+
  qed
qed

lemma discovery_poll_queue:
  assumes "timer_documented clk" "queue_ok d" "discovery_poll hex L sel clk d = (r, d', e)"
  shows "queue_ok d' \<and> ds_static d' = ds_static d \<and> set (ds_discovery d') \<subseteq> set (ds_discovery d) \<and>
    (ds_queued_requests d p = Some x \<longrightarrow> not_timed_out clk p d \<longrightarrow>
       served_by hex sel d p x e \<or> ds_queued_requests d' p = Some x \<and>
       (\<forall>t. (t, p) \<in> set (ds_queued_requests_timeouts d') \<longrightarrow> (t, p) \<in> set (ds_queued_requests_timeouts d)))"
proof -
  obtain r1 d1 e1 where res: "poll_results hex L sel clk d = (r1, d1, e1)" by (metis prod_cases3)
  note first = poll_results_frame [OF res] poll_results_waits [OF res, of p x]
  have ok1: "queue_ok d1"
    using first(1) assms(2) subset_trans [of "dom (ds_queued_requests d1)" "dom (ds_queued_requests d)"]
    by (simp add: queue_ok_def)
  have timers1: "not_timed_out clk p d1 = not_timed_out clk p d" using first(1) by (simp add: not_timed_out_def)
  show ?thesis
  proof (cases r1)
    case (Inl z)
    with res assms(3) ok1 first show ?thesis by (auto simp: discovery_poll_def)
  next
    case (Inr a)
    obtain d2 xs where out: "poll_queued_requests_timeouts clk d1 = (d2, xs)" by force
    obtain r3 d3 e3 where req: "poll_requests L sel clk d2 = (r3, d3, e3)" by (metis prod_cases3)
    note second = poll_timeouts_queue [OF assms(1) _ out, of p]
    have ok2: "queue_ok d2" using second ok1 by (auto simp: queue_ok_def)
    note third = poll_requests_queue [OF ok2 req]
    from assms(3) res Inr out req have d': "d' = d3"
      "e = \<lparr>de_spawned = de_spawned e1 @ de_spawned e3, de_dropped = de_dropped e1 @ xs @ de_dropped e3\<rparr>"
      by (auto simp: discovery_poll_def)
    have "served_by hex sel d p x e" if "served_by hex sel d p x e1" using that by (rule served_by_later) (auto simp: d')
    moreover have "set (ds_queued_requests_timeouts d2) \<subseteq> set (ds_queued_requests_timeouts d)"
      using first(1) second ok1 by (simp add: queue_ok_def)
    ultimately show ?thesis using first second third ok1 ok2 timers1 d'(1) by (auto simp: queue_ok_def) blast
  qed
qed

text \<open>The polls of one task, at the given times, until it ends.\<close>

fun discovery_polls ::
  "(string \<Rightarrow> string + bytes) \<Rightarrow> ('c, peer_id, discovery_result) lru \<Rightarrow> 'sel select_ok \<Rightarrow> clock list \<Rightarrow> 'c discovery \<Rightarrow>
     'c discovery \<times> 'sel discovery_effects list" where
  "discovery_polls hex L sel [] d = (d, [])"
| "discovery_polls hex L sel (clk # clks) d = (case discovery_poll hex L sel clk d of (r, d1, e) \<Rightarrow>
     (case r of
        Ok NotReady \<Rightarrow> (case discovery_polls hex L sel clks d1 of (d2, es) \<Rightarrow> (d2, e # es))
      | _ \<Rightarrow> (d1, [e])))"

lemma discovery_pollsE:
  assumes "discovery_polls hex L sel (clk # clks) d = (d', es)"
  obtains r d1 e es' where "discovery_poll hex L sel clk d = (r, d1, e)" "es = e # es'"
    "es' = [] \<and> d' = d1 \<or> discovery_polls hex L sel clks d1 = (d', es')"
  using assms by (auto split: prod.splits sum.splits async.splits)

lemma discovery_polls_queue:
  "list_all timer_documented clks \<Longrightarrow> queue_ok d \<Longrightarrow> discovery_polls hex L sel clks d = (d', es) \<Longrightarrow> queue_ok d'"
proof (induction clks arbitrary: d es)
  case (Cons clk clks)
  from Cons.prems(3) Cons.prems(1,2) Cons.IH show ?case
    by (elim discovery_pollsE) (auto dest: discovery_poll_queue)
qed simp


lemma discovery_new_queue:
  "discovery_new L discover svc interval recv local_id strats = Ok d \<Longrightarrow>
     queue_ok d \<and> ds_strategies d = strats \<and> ds_local_peer_identifier d = local_id"
  by (auto simp: discovery_new_def Let_def queue_ok_def split: sum.splits)

section \<open>The responder comes to an end in every poll\<close>

fun responder_state_rank :: "clock \<Rightarrow> responder_state \<Rightarrow> nat" where
  "responder_state_rank clk RegisterResponder = 2"
| "responder_state_rank clk (PollResponder task) = 1"
| "responder_state_rank clk (WaitForRetry delay) = (if delay \<le> now clk then 3 else 0)"

definition responder_ok :: "clock \<Rightarrow> responder \<Rightarrow> bool" where
  "responder_ok clk m \<longleftrightarrow> timer_documented clk \<and> 0 < rc_wait_before_retry (rp_ctx m)"

lemmas responder_step_defs [hp_defs] =
  responder_step_def poll_register_responder_def poll_poll_responder_def poll_wait_for_retry_def is_shutdown_def

interpretation rm: guarded_machine "responder_step create clk" "\<lambda>m. responder_state_rank clk (rp_state m)" "responder_ok clk"
  for create clk
proof unfold_locales
  fix m m' :: responder
  assume "responder_ok clk m" "responder_step create clk m = Goto m'"
  then show "responder_ok clk m' \<and> responder_state_rank clk (rp_state m') < responder_state_rank clk (rp_state m)"
    by (cases "rp_state m")
      (auto simp: responder_step_defs responder_ok_def timer_documentedD Let_def
        split: prod.splits if_splits option.splits)
qed

section \<open>Announcing and finding a name\<close>

text \<open>What the documentation of the hex crate says: upper case digits, and decoding what was encoded.\<close>

definition hex_documented :: "(bytes \<Rightarrow> string) \<Rightarrow> (string \<Rightarrow> string + bytes) \<Rightarrow> bool" where
  "hex_documented enc dec \<longleftrightarrow> (\<forall>b. dec (enc b) = Ok b) \<and> (\<forall>b. set (enc b) \<subseteq> set ''0123456789ABCDEF'')"

lemma hex_documentedD:
  assumes "hex_documented enc dec"
  shows "dec (enc b) = Ok b" "CHR ''.'' \<notin> set (enc b)" "CHR ''_'' \<notin> set (enc b)"
proof -
  from assms have "set (enc b) \<subseteq> set ''0123456789ABCDEF''" by (simp add: hex_documented_def)
  then show "CHR ''.'' \<notin> set (enc b)" "CHR ''_'' \<notin> set (enc b)" by auto
qed (use assms in \<open>simp add: hex_documented_def\<close>)

text \<open>The announcement of a service: the name in front of the service in the local domain.\<close>

definition announcement :: "string \<Rightarrow> string \<Rightarrow> u16 \<Rightarrow> u32 list \<Rightarrow> mdns_record list" where
  "announcement svc name port addrs =
     [\<lparr>mrec_name = svc @ ''.local'', mrec_kind = RecordPTR (name @ ''.'' @ svc @ ''.local'')\<rparr>,
      \<lparr>mrec_name = name @ ''.'' @ svc @ ''.local'', mrec_kind = RecordSRV port\<rparr>] @
     map (\<lambda>a. \<lparr>mrec_name = ''host.local'', mrec_kind = RecordA a\<rparr>) addrs"

lemma announcement_lists [simp]:
  "srv_ports (announcement svc name port addrs) = [port]"
  "record_ips (announcement svc name port addrs) = map IpV4 addrs"
  by (simp_all add: announcement_def srv_ports_def record_ips_def o_def flip: map_concat)

lemma announcement_foreign [simp]:
  "list_ex (foreign_ptr svc') (announcement svc name port addrs) \<longleftrightarrow> \<not> starts_with (svc @ ''.local'') svc'"
  by (induction addrs) (simp_all add: announcement_def foreign_ptr_def)

lemma announcement_peers:
  "ptr_peers hex (announcement svc name port addrs) =
     (case str_find (''.'' @ svc @ ''.local'') (name @ ''.'' @ svc @ ''.local'') of
        Some pos \<Rightarrow> [peer_of_hex hex (filter (\<lambda>c. c \<noteq> CHR ''.'') (take pos (name @ ''.'' @ svc @ ''.local'')))]
      | None \<Rightarrow> [])"
  by (induction addrs) (simp_all add: announcement_def ptr_peers_def split: option.split)

lemma mdns_service_name_underscore: "\<exists>r. mdns_service_name svc = CHR ''_'' # r"
  by (cases svc) (auto simp: mdns_service_name_def)

lemma responder_name_plain:
  "CHR ''.'' \<notin> set s \<Longrightarrow> filter (\<lambda>c. c \<noteq> CHR ''.'') (responder_name s) = s"
  "CHR ''_'' \<notin> set s \<Longrightarrow> CHR ''_'' \<notin> set (responder_name s)"
proof -
  show "filter (\<lambda>c. c \<noteq> CHR ''.'') (responder_name s) = s" if "CHR ''.'' \<notin> set s"
  proof -
    have "filter (\<lambda>c. c \<noteq> CHR ''.'') xs = xs" if "set xs \<subseteq> set s" for xs
      using that \<open>CHR ''.'' \<notin> set s\<close> by (intro filter_True) auto
    then have "filter (\<lambda>c. c \<noteq> CHR ''.'') (take k s) = take k s" "filter (\<lambda>c. c \<noteq> CHR ''.'') (drop k s) = drop k s" for k
      by (auto dest: in_set_takeD in_set_dropD)
    then show ?thesis by (simp add: responder_name_def)
  qed
  show "CHR ''_'' \<notin> set (responder_name s)" if "CHR ''_'' \<notin> set s"
    using that by (auto simp: responder_name_def dest: in_set_takeD in_set_dropD)
qed

lemma peer_of_hex_display:
  assumes "hex_documented enc dec" "pk_wf h"
  shows "peer_of_hex dec (pk_display enc h) = Some (pk_deref h)"
  using assms hex_documentedD(1) [OF assms(1)]
  by (simp add: peer_of_hex_def pk_display_def from_hashed_hex_def from_hashed_def from_hashed_checked_def
      pk_wf_def pk_deref_def copy_prefix_def)

lemma announcement_read:
  assumes "hex_documented enc dec" "pk_wf h" "svc = mdns_service_name s"
  shows "last (None # ptr_peers dec (announcement svc (responder_name (pk_display enc h)) port addrs)) = Some (pk_deref h)"
proof -
  obtain r where r: "svc = CHR ''_'' # r" using mdns_service_name_underscore [of s] assms(3) by blast
  let ?s = "pk_display enc h"
  have plain: "CHR ''.'' \<notin> set ?s" "CHR ''_'' \<notin> set ?s"
    using hex_documentedD(2,3) [OF assms(1)] by (simp_all add: pk_display_def)
  from str_find_label [OF responder_name_plain(2) [OF plain(2)], of "r @ ''.local''"]
  have "str_find (''.'' @ svc @ ''.local'') (responder_name ?s @ ''.'' @ svc @ ''.local'') = Some (length (responder_name ?s))"
    by (simp add: r)
  with responder_name_plain(1) [OF plain(1)] peer_of_hex_display [OF assms(1,2)] show ?thesis
    by (simp add: announcement_peers)
qed

section \<open>Concrete values\<close>

definition hex_digit :: "nat \<Rightarrow> char" where
  "hex_digit n = ''0123456789ABCDEF'' ! n"

definition hex_value :: "char \<Rightarrow> nat" where
  "hex_value c = (let n = of_char c in if n < 58 then n - 48 else n - 55)"

definition demo_hex_encode :: "bytes \<Rightarrow> string" where
  "demo_hex_encode bs = concat (map (\<lambda>b. [hex_digit (unat b div 16), hex_digit (unat b mod 16)]) bs)"

fun demo_hex_decode :: "string \<Rightarrow> string + bytes" where
  "demo_hex_decode [] = Ok []"
| "demo_hex_decode [c] = Err ''odd length''"
| "demo_hex_decode (c # d # s) = map_ok ((#) (word_of_nat (16 * hex_value c + hex_value d))) (demo_hex_decode s)"

lemma hex_digit_cases:
  assumes "n < 16"
  shows "hex_value (hex_digit n) = n \<and> hex_digit n \<in> set ''0123456789ABCDEF''"
proof -
  have "list_all (\<lambda>n. hex_value (hex_digit n) = n \<and> hex_digit n \<in> set ''0123456789ABCDEF'') [0..<16]"
    by code_simp
  with assms show ?thesis by (simp add: list_all_iff)
qed

lemma demo_hex_documented: "hex_documented demo_hex_encode demo_hex_decode"
proof -
  have "unat b < 256" for b :: u8
    by (rule order_less_le_trans [OF unsigned_less]) simp
  then have nib: "unat b div 16 < 16" "unat b mod 16 < 16" for b :: u8
    by (simp_all add: div_less_iff_less_mult)
  have "demo_hex_decode (demo_hex_encode bs) = Ok bs" for bs
    using hex_digit_cases nib by (induction bs) (simp_all add: demo_hex_encode_def)
  moreover have "hex_digit (unat b div 16) \<in> set ''0123456789ABCDEF''" "hex_digit (unat b mod 16) \<in> set ''0123456789ABCDEF''"
    for b :: u8
    using hex_digit_cases nib by blast+
  then have "set (demo_hex_encode bs) \<subseteq> set ''0123456789ABCDEF''" for bs
    unfolding demo_hex_encode_def set_concat set_map by (auto simp del: list.set(2) simp: list.set(2) [of _ "[_]"] list.set(2) [of _ "[]"])
  ultimately show ?thesis by (simp add: hex_documented_def)
qed

text \<open>A cache that keeps everything, and a \<^verbatim>\<open>select_ok\<close> that refuses the empty list.\<close>

definition demo_lru :: "(peer_id \<rightharpoonup> discovery_result, peer_id, discovery_result) lru" where
  "demo_lru = \<lparr>lru_new = (\<lambda>_ _. Map.empty), lru_insert = (\<lambda>_ k v c. c(k \<mapsto> v)), lru_get = (\<lambda>_ k c. (c k, c))\<rparr>"

definition demo_select :: "connect_with_strategies list select_ok" where
  "demo_select cs = (if cs = [] then None else Some cs)"

definition demo_discovery ::
  "(mdns_record list option, string) tape \<Rightarrow> ((result_sender \<times> peer_id) option, unit) tape \<Rightarrow>
     (peer_id \<rightharpoonup> discovery_result) discovery" where
  "demo_discovery found requests = \<lparr>ds_service_name = ''_hp.local'', ds_discovery = found, ds_request_recv = requests,
     ds_local_peer_identifier = [1], ds_known_peers = Map.empty, ds_strategies = [demo_con_handle [1]],
     ds_queued_requests = Map.empty, ds_queued_requests_timeouts = []\<rparr>"

definition demo_sender :: "nat \<Rightarrow> result_sender" where
  "demo_sender k = \<lparr>rs_id = k, rs_canceled = False\<rparr>"

definition demo_hash :: pub_key_hash where
  "demo_hash = \<lparr>pk_buf = 171 # replicate 63 0, pk_len = 1, pk_pub_key = None\<rparr>"

lemma demo_hash_wf [simp]: "pk_wf demo_hash" "pk_deref demo_hash = [171]"
  by (simp_all add: demo_hash_def pk_wf_def pk_deref_def EVP_MAX_MD_SIZE_def)

text \<open>The name of the announcement is split in two labels.\<close>

lemma demo_announcement_read:
  "discovery_try_from demo_hex_decode (announcement ''_hp'' ''A.B'' 7000 addrs) ''_hp.local'' =
     Some \<lparr>dr_peer = [171], dr_ports = [7000], dr_ip_addresses = map IpV4 addrs\<rparr>"
proof -
  have "foreign_ptr ''_hp.local'' r = False" if "r \<in> set (announcement ''_hp'' ''A.B'' 7000 addrs)" for r
    using that by (auto simp: announcement_def foreign_ptr_def starts_with_def)
  then show ?thesis
    by (simp add: discovery_try_from_def try_from_records_spec list_ex_iff announcement_peers peer_of_hex_def
        from_hashed_hex_def hex_value_def from_hashed_def from_hashed_checked_def EVP_MAX_MD_SIZE_def pk_deref_def
        copy_prefix_def starts_with_def)
qed

section \<open>Properties\<close>

text \<open>
  C14. A peer finds the name another peer announces: from the announcement of the name the
  responder registers, under the service both are configured with, the discovery reads back the
  identifier of the announcing peer, with its port and addresses.
\<close>

theorem mdns_name_roundtrip:
  assumes "hex_documented enc dec" "pk_wf h"
    and "mdns_registry_new enc L discover h strats service port down recv = (m, r)"
    and "discovery_new L' discover' (mdns_service_name service) interval recv' local_id strats' = Ok d"
  shows "discovery_try_from dec (announcement (rc_service_name (rp_ctx m)) (rc_local_peer_identifier (rp_ctx m))
      (rc_listen_port (rp_ctx m)) addrs) (ds_service_name d) =
    Some \<lparr>dr_peer = pk_deref h, dr_ports = [port], dr_ip_addresses = map IpV4 addrs\<rparr>"
proof -
  let ?svc = "mdns_service_name service"
  have m: "rc_service_name (rp_ctx m) = ?svc" "rc_local_peer_identifier (rp_ctx m) = responder_name (pk_display enc h)"
    "rc_listen_port (rp_ctx m) = port"
    using assms(3) by (auto simp: mdns_registry_new_def Let_def responder_start_def responder_context_create_def)
  have "ds_service_name d = ?svc \<or> ds_service_name d = ?svc @ ''.local''"
    using assms(4) by (auto simp: discovery_new_def Let_def split: sum.splits if_splits)
  then have "starts_with (?svc @ ''.local'') (ds_service_name d)"
    using starts_with_append [of "?svc @ ''.local''" "[]"] by auto
  with announcement_read [OF assms(1,2) refl, of service port addrs] show ?thesis
    by (simp add: m discovery_try_from_def try_from_records_spec del: last.simps)
qed

theorem mdns_name_roundtrip_witness:
  "\<exists>m r. \<exists>d :: (peer_id \<rightharpoonup> discovery_result) discovery. mdns_registry_new demo_hex_encode demo_lru (\<lambda>_ _. Ok []) demo_hash [] ''hp'' 7000 [] [] = (m, r) \<and>
     discovery_try_from demo_hex_decode (announcement (rc_service_name (rp_ctx m)) (rc_local_peer_identifier (rp_ctx m))
       (rc_listen_port (rp_ctx m)) [167772161]) (ds_service_name d) =
       Some \<lparr>dr_peer = [171], dr_ports = [7000], dr_ip_addresses = [IpV4 167772161]\<rparr>"
proof -
  obtain m r where m: "mdns_registry_new demo_hex_encode demo_lru (\<lambda>_ _. Ok []) demo_hash [] ''hp'' 7000 [] [] = (m, r)"
    by force
  obtain d where "discovery_new demo_lru (\<lambda>_ _. Ok []) (mdns_service_name ''hp'') 5 [] [1] [] = Ok d"
    by (simp add: discovery_new_def Let_def)
  from mdns_name_roundtrip [OF demo_hex_documented demo_hash_wf(1) m this, of "[167772161]"] m show ?thesis
    by auto
qed

text \<open>
  C15. The loop over the records of an announcement computes this: an announcement with a name of
  another service counts as none; otherwise the ports are those of the service records, the
  addresses those of the address records, all in order, and the peer is the one read from the
  last name, if it can be read.
\<close>

theorem try_from_equivalence:
  "discovery_try_from hex resp svc =
     (if \<exists>r \<in> set resp. foreign_ptr svc r then None
      else map_option (\<lambda>p. \<lparr>dr_peer = p, dr_ports = srv_ports resp, dr_ip_addresses = record_ips resp\<rparr>)
        (if ptr_peers hex resp = [] then None else last (ptr_peers hex resp)))"
  by (simp add: discovery_try_from_def try_from_records_spec list_ex_iff)

theorem try_from_equivalence_witness:
  "discovery_try_from demo_hex_decode (announcement ''_other'' ''AB'' 7000 []) ''_hp.local'' = None \<and>
   discovery_try_from demo_hex_decode (announcement ''_hp'' ''A.B'' 7000 [1]) ''_hp.local'' =
     Some \<lparr>dr_peer = [171], dr_ports = [7000], dr_ip_addresses = [IpV4 1]\<rparr>"
proof -
  have "foreign_ptr ''_hp.local'' (hd (announcement ''_other'' ''AB'' 7000 []))"
    by (simp add: announcement_def foreign_ptr_def starts_with_def)
  moreover have "hd (announcement ''_other'' ''AB'' 7000 []) \<in> set (announcement ''_other'' ''AB'' 7000 [])"
    by (simp add: announcement_def)
  ultimately have "discovery_try_from demo_hex_decode (announcement ''_other'' ''AB'' 7000 []) ''_hp.local'' = None"
    by (subst try_from_equivalence) auto
  moreover have "discovery_try_from demo_hex_decode (announcement ''_hp'' ''A.B'' 7000 [1]) ''_hp.local'' =
      Some \<lparr>dr_peer = [171], dr_ports = [7000], dr_ip_addresses = [IpV4 1]\<rparr>"
    by (subst try_from_equivalence)
      (simp add: announcement_def foreign_ptr_def starts_with_def srv_ports_def record_ips_def ptr_peers_def
        peer_of_hex_def from_hashed_hex_def hex_value_def from_hashed_def from_hashed_checked_def EVP_MAX_MD_SIZE_def
        pk_deref_def copy_prefix_def)
  ultimately show ?thesis by blast
qed

text \<open>
  C16. The queue of the discovery is bounded: over any number of polls with working timers, whatever
  is announced and requested, at most ten requests are queued and every one of them has a timer
  that will take it out again.
\<close>

theorem mdns_queue_bounded:
  assumes "discovery_new L discover svc interval recv local_id strats = Ok d"
    and "list_all timer_documented clks" "discovery_polls hex L sel clks d = (d', es)"
  shows "finite (dom (ds_queued_requests d')) \<and> card (dom (ds_queued_requests d')) \<le> 10 \<and>
    length (ds_queued_requests_timeouts d') \<le> 10 \<and>
    (\<forall>p \<in> dom (ds_queued_requests d'). \<exists>t. (t, p) \<in> set (ds_queued_requests_timeouts d'))"
proof -
  have ok: "queue_ok d'"
    using discovery_polls_queue [OF assms(2) _ assms(3)] discovery_new_queue [OF assms(1)] by blast
  then have timers: "dom (ds_queued_requests d') \<subseteq> snd ` set (ds_queued_requests_timeouts d')"
    and len: "length (ds_queued_requests_timeouts d') \<le> 10"
    by (simp_all add: queue_ok_def MAX_QUEUED_REQUESTS_def)
  have "card (dom (ds_queued_requests d')) \<le> card (snd ` set (ds_queued_requests_timeouts d'))"
    by (rule card_mono [OF _ timers]) simp
  also have "\<dots> \<le> length (ds_queued_requests_timeouts d')"
    by (meson card_image_le card_length finite_set order_trans)
  finally show ?thesis using queue_ok_finite [OF ok] len timers by fastforce
qed

theorem mdns_queue_bounded_witness:
  "\<exists>d d' es. discovery_new demo_lru (\<lambda>_ _. Ok []) ''_hp'' 5 (items_tape [(demo_sender 0, [2])]) [1] [] = Ok d \<and>
     discovery_polls demo_hex_decode demo_lru demo_select [documented_clock 3] d = (d', es) \<and>
     card (dom (ds_queued_requests d')) \<le> 10"
proof -
  obtain d where d: "discovery_new demo_lru (\<lambda>_ _. Ok []) ''_hp'' 5 (items_tape [(demo_sender 0, [2])]) [1] [] = Ok d"
    by (simp add: discovery_new_def Let_def)
  obtain d' es where "discovery_polls demo_hex_decode demo_lru demo_select [documented_clock 3] d = (d', es)" by force
  with mdns_queue_bounded [OF d _ this] d show ?thesis by auto
qed





text \<open>
  C13. An announcement reaches the request that waits for it: the request leaves the queue inside a
  task that tries every announced address with every announced port, port by port, and greets
  with the name of this peer.
\<close>

theorem mdns_request_served:
  assumes "ds_discovery d = [Ok (Ready (Some res))]" "discovery_try_from hex res (ds_service_name d) = Some r"
    and "dr_peer r \<noteq> ds_local_peer_identifier d" "ds_queued_requests d (dr_peer r) = Some x"
    and "ds_strategies d = strats @ [strat]"
    and "sel (map (\<lambda>a. \<lparr>cws_strategies = strats, cws_connect = Some (InitConnect strat a (User (ds_local_peer_identifier d))),
        cws_addr = a, cws_hello_msg = User (ds_local_peer_identifier d)\<rparr>)
      (concat (map (\<lambda>p. map (\<lambda>ip. socket_addr_new ip p) (dr_ip_addresses r)) (dr_ports r)))) = Some s"
  shows "\<exists>d' e. poll_results hex L sel clk d = (Ok NotReady, d', e) \<and>
    de_spawned e = [\<lparr>ft_connections = s, ft_sender = x\<rparr>] \<and> de_dropped e = [] \<and>
    ds_queued_requests d' = (ds_queued_requests d)(dr_peer r := None)"
proof -
  let ?d2 = "d\<lparr>ds_discovery := [], ds_queued_requests := (ds_queued_requests d)(dr_peer r := None)\<rparr>"
  let ?d3 = "?d2\<lparr>ds_known_peers := lru_insert L (now clk) (dr_peer r) r (ds_known_peers d)\<rparr>"
  have task: "fulfill_request sel ?d2 x r = Some \<lparr>ft_connections = s, ft_sender = x\<rparr>"
    using assms(5,6) by (simp add: fulfill_request_task)
  have rest: "poll_results hex L sel clk ?d3 = (Ok NotReady, ?d3, no_discovery_effects)"
    by (subst poll_results.simps) (simp add: Let_def)
  show ?thesis
    using assms(2,3,4) task rest by (subst poll_results_step [OF assms(1)]) (simp add: Let_def)
qed

theorem mdns_request_served_witness:
  "\<exists>d' e. poll_results demo_hex_decode demo_lru demo_select (documented_clock 3)
      ((demo_discovery [Ok (Ready (Some (announcement ''_hp'' ''A.B'' 7000 [1])))] [])\<lparr>ds_queued_requests := [[171] \<mapsto> demo_sender 0]\<rparr>) =
      (Ok NotReady, d', e) \<and> map ft_sender (de_spawned e) = [demo_sender 0] \<and> de_dropped e = []"
proof -
  let ?d = "(demo_discovery [Ok (Ready (Some (announcement ''_hp'' ''A.B'' 7000 [1])))] [])\<lparr>ds_queued_requests := [[171] \<mapsto> demo_sender 0]\<rparr>"
  let ?r = "\<lparr>dr_peer = [171], dr_ports = [7000], dr_ip_addresses = [IpV4 1]\<rparr>"
  have read: "discovery_try_from demo_hex_decode (announcement ''_hp'' ''A.B'' 7000 [1]) (ds_service_name ?d) = Some ?r"
    using demo_announcement_read [of "[1]"] by (simp add: demo_discovery_def)
  show ?thesis
    using mdns_request_served [OF _ read, of "demo_sender 0" "[]" "demo_con_handle [1]" demo_select _ demo_lru "documented_clock 3"]
    by (auto simp: demo_discovery_def demo_select_def)
qed

text \<open>
  C34. An announcement without an address or without a port stops the discovery: \<^verbatim>\<open>select_ok\<close> panics
  on an empty list, and the code hands it one when somebody waits for the announced peer. Any host
  of the local network can send such an announcement.
\<close>

theorem mdns_empty_announcement_panics:
  fixes d :: "'c discovery"
  assumes "sel [] = None" "ds_discovery d = Ok (Ready (Some res)) # t"
    and "discovery_try_from hex res (ds_service_name d) = Some r" "dr_peer r \<noteq> ds_local_peer_identifier d"
    and "ds_queued_requests d (dr_peer r) = Some x" "dr_ports r = [] \<or> dr_ip_addresses r = []"
  shows "\<exists>m d' e. discovery_poll hex L sel clk d = (Err (Aborted m), d', e) \<and> x \<in> set (de_dropped e)"
proof -
  have "fulfill_addrs r = []" using assms(6) by (auto simp: fulfill_addrs_def)
  with assms(1) have "fulfill_request sel d' x r = None" for d' :: "'c discovery" by (simp add: fulfill_request_def)
  with assms(3,4,5) show ?thesis
    by (simp add: discovery_poll_def poll_results_step [OF assms(2)] Let_def)
qed

theorem mdns_empty_announcement_panics_witness:
  "\<exists>m d' e. discovery_poll demo_hex_decode demo_lru demo_select (documented_clock 3)
      ((demo_discovery [Ok (Ready (Some (announcement ''_hp'' ''A.B'' 7000 [])))] [])\<lparr>ds_queued_requests := [[171] \<mapsto> demo_sender 0]\<rparr>) =
      (Err (Aborted m), d', e)"
proof -
  let ?d = "(demo_discovery [Ok (Ready (Some (announcement ''_hp'' ''A.B'' 7000 [])))] [])\<lparr>ds_queued_requests := [[171] \<mapsto> demo_sender 0]\<rparr>"
  have read: "discovery_try_from demo_hex_decode (announcement ''_hp'' ''A.B'' 7000 []) (ds_service_name ?d) =
      Some \<lparr>dr_peer = [171], dr_ports = [7000], dr_ip_addresses = []\<rparr>"
    using demo_announcement_read [of "[]"] by (simp add: demo_discovery_def)
  show ?thesis
    using mdns_empty_announcement_panics [OF _ _ read, of demo_select "[]" "demo_sender 0" demo_lru "documented_clock 3"]
    by (auto simp: demo_discovery_def demo_select_def)
qed

text \<open>
  C17. With working timers and a pause before the next try, a poll of the responder makes at most
  four handler calls, and after the registry was dropped the next poll ends it, in every state.
\<close>

theorem responder_poll_ends:
  assumes "timer_documented clk" "0 < rc_wait_before_retry (rp_ctx m)"
  shows "\<exists>p m'. responder_poll create clk 4 m = Some (p, m') \<and> (\<forall>e. p \<noteq> Err e) \<and>
    (ready_or_err (fst (poll_tape (rc_shutdown_signal (rp_ctx m)))) \<longrightarrow> p = Ok (Ready ()))"
proof -
  have no_fail: "responder_step create clk m \<noteq> Fail e m'" for m m' e
    by (cases "rp_state m") (auto simp: responder_step_defs Let_def split: prod.splits option.splits)
  have no_err: "drive (responder_step create clk) k m \<noteq> Some (Err e, m')" for k m m' e
    using no_fail by (induction k arbitrary: m) (auto split: after.splits)
  have "responder_state_rank clk (rp_state m) < 4" by (cases "rp_state m") simp_all
  then obtain p m' where poll: "responder_poll create clk 4 m = Some (p, m')"
    using rm.guarded_fuel [of clk m 4 create] assms by (auto simp: responder_ok_def responder_poll_def)
  obtain x t where tape: "poll_tape (rc_shutdown_signal (rp_ctx m)) = (x, t)" by force
  have "responder_step create clk m = Finish () (m\<lparr>rp_ctx := (rp_ctx m)\<lparr>rc_shutdown_signal := t\<rparr>\<rparr>)" if "ready_or_err x"
    using that tape by (cases "rp_state m") (simp_all add: responder_step_defs Let_def)
  then have "p = Ok (Ready ())" if "ready_or_err x"
    using that poll by (simp add: responder_poll_def eval_nat_numeral)
  with poll no_err tape show ?thesis by (auto simp: responder_poll_def)
qed

theorem responder_poll_ends_witness:
  "\<exists>m'. responder_poll (\<lambda>_. None) (documented_clock 3) 4 (responder_start
      (responder_context_create demo_hex_encode ''_hp'' (from_secs 5) demo_hash 7000 [Ok (Ready ())])) = Some (Ok (Ready ()), m')"
  using responder_poll_ends [of "documented_clock 3" "responder_start
      (responder_context_create demo_hex_encode ''_hp'' (from_secs 5) demo_hash 7000 [Ok (Ready ())])" "\<lambda>_. None"]
  by (auto simp: responder_start_def responder_context_create_def from_secs_def)

end
