(* ===== verification/Config.thy ===== *)
theory Config
  imports Handler
begin

text \<open>
  \<^verbatim>\<open>config.rs\<close>: the builder of a configuration and the checks of \<^verbatim>\<open>build\<close>; and the set-up of the
  transport with it (\<^verbatim>\<open>StrategyWrapper::new\<close> and \<^verbatim>\<open>init\<close> of \<^verbatim>\<open>strategies/\<close>). Picoquic's own
  configuration and the URL parser are third-party: their operations are the fields of the
  records \<open>quic_ops\<close> and \<open>url_ops\<close>.
\<close>

section \<open>Third-party operations\<close>

text \<open>
  Picoquic's configuration. \<open>qo_private_key\<close> and the three fields after it say whether the field
  of that name is set; \<open>qo_context_new\<close> opens the socket.
\<close>

record ('qc, 'ff, 'store) quic_ops =
  qo_new :: 'qc
  qo_set_certificate_chain_filename :: "string \<Rightarrow> 'qc \<Rightarrow> 'qc"
  qo_set_private_key_filename :: "string \<Rightarrow> 'qc \<Rightarrow> 'qc"
  qo_set_certificate_chain :: "bytes list \<Rightarrow> 'ff \<Rightarrow> 'qc \<Rightarrow> 'qc"
  qo_set_private_key :: "bytes \<Rightarrow> 'ff \<Rightarrow> 'qc \<Rightarrow> 'qc"
  qo_private_key :: "'qc \<Rightarrow> bool"
  qo_private_key_filename :: "'qc \<Rightarrow> bool"
  qo_certificate_chain :: "'qc \<Rightarrow> bool"
  qo_certificate_chain_filename :: "'qc \<Rightarrow> bool"
  qo_clone_from :: "'qc \<Rightarrow> 'qc"
  qo_enable_keep_alive :: "duration \<Rightarrow> 'qc \<Rightarrow> 'qc"
  qo_enable_client_authentication :: "'qc \<Rightarrow> 'qc"
  qo_set_verify_certificate_handler :: "'store auth_inner \<Rightarrow> 'qc \<Rightarrow> 'qc"
  qo_context_new :: "socket_addr \<Rightarrow> 'qc \<Rightarrow> string + pq_context"

text \<open>The URL parser; an error is its \<^verbatim>\<open>Debug\<close> text.\<close>

record 'url url_ops =
  url_parse :: "string \<Rightarrow> string + 'url"
  url_port :: "'url \<Rightarrow> u16 option"
  url_set_port :: "u16 option \<Rightarrow> 'url \<Rightarrow> string + 'url"
  url_to_string :: "'url \<Rightarrow> string"

section \<open>Remote peers\<close>

text \<open>The implementations of \<^verbatim>\<open>Resolve\<close>: those of the crate, and those of its user.\<close>

datatype 'u resolver =
    ResolveAddr socket_addr
  | ResolveHost string u16
  | ResolveUser 'u

fun resolver_resolve ::
  "(string \<Rightarrow> (ip_addr option, unit) tape) \<Rightarrow> ('u \<Rightarrow> (socket_addr option, unit) tape) \<Rightarrow> 'u resolver \<Rightarrow>
     (socket_addr option, unit) tape" where
  "resolver_resolve lookup_ip user (ResolveAddr a) = resolve_socket_addr a"
| "resolver_resolve lookup_ip user (ResolveHost host port) = resolve_host lookup_ip (host, port)"
| "resolver_resolve lookup_ip user (ResolveUser u) = user u"

section \<open>The builder\<close>

record ('qc, 'u) config_builder =
  cb_quic_listen_address :: socket_addr
  cb_quic_config :: 'qc
  cb_incoming_ca_certificates :: "string list option"
  cb_outgoing_ca_certificates :: "string list option"
  cb_remote_peers :: "'u resolver list"
  cb_remote_registry_ping_interval :: duration
  cb_remote_registry_address_resolve_timeout :: duration
  cb_enable_mdns :: "string option"

definition config_builder_new :: "('qc, 'ff, 'store) quic_ops \<Rightarrow> ('qc, 'u) config_builder" where
  "config_builder_new Q = \<lparr>cb_quic_listen_address = SocketAddrV4 0 0, cb_quic_config = qo_new Q,
     cb_incoming_ca_certificates = None, cb_outgoing_ca_certificates = None, cb_remote_peers = [],
     cb_remote_registry_ping_interval = from_secs 5, cb_remote_registry_address_resolve_timeout = from_secs 2,
     cb_enable_mdns = None\<rparr>"

definition set_quic_listen_port :: "u16 \<Rightarrow> ('qc, 'u) config_builder \<Rightarrow> ('qc, 'u) config_builder" where
  "set_quic_listen_port port b = b\<lparr>cb_quic_listen_address := sock_set_port (cb_quic_listen_address b) port\<rparr>"

definition set_quic_listen_address :: "socket_addr \<Rightarrow> ('qc, 'u) config_builder \<Rightarrow> ('qc, 'u) config_builder" where
  "set_quic_listen_address addr b = b\<lparr>cb_quic_listen_address := addr\<rparr>"

definition set_certificate_chain_filename ::
  "('qc, 'ff, 'store) quic_ops \<Rightarrow> string \<Rightarrow> ('qc, 'u) config_builder \<Rightarrow> ('qc, 'u) config_builder" where
  "set_certificate_chain_filename Q cert b =
     b\<lparr>cb_quic_config := qo_set_certificate_chain_filename Q cert (cb_quic_config b)\<rparr>"

definition set_private_key_filename ::
  "('qc, 'ff, 'store) quic_ops \<Rightarrow> string \<Rightarrow> ('qc, 'u) config_builder \<Rightarrow> ('qc, 'u) config_builder" where
  "set_private_key_filename Q path b =
     b\<lparr>cb_quic_config := qo_set_private_key_filename Q path (cb_quic_config b)\<rparr>"

definition set_certificate_chain ::
  "('qc, 'ff, 'store) quic_ops \<Rightarrow> bytes list \<Rightarrow> 'ff \<Rightarrow> ('qc, 'u) config_builder \<Rightarrow> ('qc, 'u) config_builder" where
  "set_certificate_chain Q certs format b =
     b\<lparr>cb_quic_config := qo_set_certificate_chain Q certs format (cb_quic_config b)\<rparr>"

definition set_private_key ::
  "('qc, 'ff, 'store) quic_ops \<Rightarrow> bytes \<Rightarrow> 'ff \<Rightarrow> ('qc, 'u) config_builder \<Rightarrow> ('qc, 'u) config_builder" where
  "set_private_key Q key format b =
     b\<lparr>cb_quic_config := qo_set_private_key Q key format (cb_quic_config b)\<rparr>"

definition set_incoming_ca_certificates ::
  "string list \<Rightarrow> ('qc, 'u) config_builder \<Rightarrow> ('qc, 'u) config_builder" where
  "set_incoming_ca_certificates certs b = b\<lparr>cb_incoming_ca_certificates := Some certs\<rparr>"

definition set_outgoing_ca_certificates ::
  "string list \<Rightarrow> ('qc, 'u) config_builder \<Rightarrow> ('qc, 'u) config_builder" where
  "set_outgoing_ca_certificates certs b = b\<lparr>cb_outgoing_ca_certificates := Some certs\<rparr>"

definition set_remote_registry_ping_interval ::
  "duration \<Rightarrow> ('qc, 'u) config_builder \<Rightarrow> ('qc, 'u) config_builder" where
  "set_remote_registry_ping_interval d b = b\<lparr>cb_remote_registry_ping_interval := d\<rparr>"

definition set_remote_registry_address_resolve_timeout ::
  "duration \<Rightarrow> ('qc, 'u) config_builder \<Rightarrow> ('qc, 'u) config_builder" where
  "set_remote_registry_address_resolve_timeout d b = b\<lparr>cb_remote_registry_address_resolve_timeout := d\<rparr>"

definition add_remote_peer :: "'u resolver \<Rightarrow> ('qc, 'u) config_builder \<Rightarrow> ('qc, 'u) config_builder" where
  "add_remote_peer remote_peer b = b\<lparr>cb_remote_peers := cb_remote_peers b @ [remote_peer]\<rparr>"

text \<open>An error consumes the builder. The name to look up is the URL that is left without its port.\<close>

definition add_remote_peer_by_url ::
  "'url url_ops \<Rightarrow> string \<Rightarrow> ('qc, 'u) config_builder \<Rightarrow> error + ('qc, 'u) config_builder" where
  "add_remote_peer_by_url U url b =
     (case url_parse U url of
        Err e \<Rightarrow> Err (error_from_str e)
      | Ok u \<Rightarrow> (case url_port U u of
          None \<Rightarrow> Err (error_from_str ''No port supplied'')
        | Some port \<Rightarrow> (case url_set_port U None u of
            Err e \<Rightarrow> Err (error_from_str e)
          | Ok u' \<Rightarrow> Ok (add_remote_peer (ResolveHost (url_to_string U u') port) b))))"

definition enable_mdns :: "string \<Rightarrow> ('qc, 'u) config_builder \<Rightarrow> ('qc, 'u) config_builder" where
  "enable_mdns service_name b = b\<lparr>cb_enable_mdns := Some service_name\<rparr>"

record ('qc, 'u) config =
  cf_quic_listen_address :: socket_addr
  cf_quic_config :: 'qc
  cf_incoming_ca_certificates :: "string list option"
  cf_outgoing_ca_certificates :: "string list option"
  cf_remote_peers :: "'u resolver list"
  cf_remote_registry_ping_interval :: duration
  cf_remote_registry_address_resolve_timeout :: duration
  cf_enable_mdns :: "string option"

definition config_build ::
  "('qc, 'ff, 'store) quic_ops \<Rightarrow> ('qc, 'u) config_builder \<Rightarrow> error + ('qc, 'u) config" where
  "config_build Q b =
     (if \<not> qo_private_key Q (cb_quic_config b) \<and> \<not> qo_private_key_filename Q (cb_quic_config b)
      then bail ''Private key is required!''
      else if \<not> qo_certificate_chain Q (cb_quic_config b) \<and> \<not> qo_certificate_chain_filename Q (cb_quic_config b)
      then bail ''Certificate chain is required!''
      else Ok \<lparr>cf_quic_listen_address = cb_quic_listen_address b, cf_quic_config = cb_quic_config b,
        cf_incoming_ca_certificates = cb_incoming_ca_certificates b,
        cf_outgoing_ca_certificates = cb_outgoing_ca_certificates b, cf_remote_peers = cb_remote_peers b,
        cf_remote_registry_ping_interval = cb_remote_registry_ping_interval b,
        cf_remote_registry_address_resolve_timeout = cb_remote_registry_address_resolve_timeout b,
        cf_enable_mdns = cb_enable_mdns b\<rparr>)"

section \<open>Setting up the transport\<close>

definition strategy_wrapper_new ::
  "('qc, 'ff, 'store) quic_ops \<Rightarrow> ('qc, 'u) config \<Rightarrow> 'store auth_inner \<Rightarrow> error + strategy_wrapper" where
  "strategy_wrapper_new Q hconfig authenticator =
     (let config = qo_set_verify_certificate_handler Q authenticator (qo_enable_client_authentication Q
            (qo_enable_keep_alive Q (from_secs 15) (qo_clone_from Q (cf_quic_config hconfig)))) in
      case qo_context_new Q (cf_quic_listen_address hconfig) config of
        Err e \<Rightarrow> Err (error_from_picoquic e)
      | Ok context \<Rightarrow> Ok \<lparr>stw_context = context\<rparr>)"

definition quic_init ::
  "('qc, 'ff, 'store) quic_ops \<Rightarrow> ('qc, 'u) config \<Rightarrow> 'store auth_inner \<Rightarrow> error + strategy_wrapper" where
  "quic_init Q hconfig authenticator = strategy_wrapper_new Q hconfig authenticator"

definition strategies_init ::
  "('qc, 'ff, 'store) quic_ops \<Rightarrow> ('qc, 'u) config \<Rightarrow> 'store auth_inner \<Rightarrow> error + strategy_wrapper list" where
  "strategies_init Q hconfig authenticator = map_ok (\<lambda>s. [s]) (quic_init Q hconfig authenticator)"

lemma strategies_init_OkE:
  assumes "strategies_init Q hconfig auth = Ok strats"
  obtains s where "strats = [s]" "quic_init Q hconfig auth = Ok s"
  using assms by (cases "quic_init Q hconfig auth") (auto simp: strategies_init_def)

section \<open>Sequences of builder calls\<close>

datatype ('ff, 'u) builder_call =
    QuicListenPort u16
  | QuicListenAddress socket_addr
  | CertificateChainFilename string
  | PrivateKeyFilename string
  | CertificateChain "bytes list" 'ff
  | PrivateKey bytes 'ff
  | IncomingCaCertificates "string list"
  | OutgoingCaCertificates "string list"
  | RemoteRegistryPingInterval duration
  | RemoteRegistryAddressResolveTimeout duration
  | RemotePeer "'u resolver"
  | EnableMdns string

fun apply_call ::
  "('qc, 'ff, 'store) quic_ops \<Rightarrow> ('ff, 'u) builder_call \<Rightarrow> ('qc, 'u) config_builder \<Rightarrow> ('qc, 'u) config_builder" where
  "apply_call Q (QuicListenPort port) = set_quic_listen_port port"
| "apply_call Q (QuicListenAddress addr) = set_quic_listen_address addr"
| "apply_call Q (CertificateChainFilename f) = set_certificate_chain_filename Q f"
| "apply_call Q (PrivateKeyFilename f) = set_private_key_filename Q f"
| "apply_call Q (CertificateChain certs ff) = set_certificate_chain Q certs ff"
| "apply_call Q (PrivateKey key ff) = set_private_key Q key ff"
| "apply_call Q (IncomingCaCertificates certs) = set_incoming_ca_certificates certs"
| "apply_call Q (OutgoingCaCertificates certs) = set_outgoing_ca_certificates certs"
| "apply_call Q (RemoteRegistryPingInterval d) = set_remote_registry_ping_interval d"
| "apply_call Q (RemoteRegistryAddressResolveTimeout d) = set_remote_registry_address_resolve_timeout d"
| "apply_call Q (RemotePeer r) = add_remote_peer r"
| "apply_call Q (EnableMdns name) = enable_mdns name"

lemmas builder_defs =
  set_quic_listen_port_def set_quic_listen_address_def set_certificate_chain_filename_def set_private_key_filename_def
  set_certificate_chain_def set_private_key_def set_incoming_ca_certificates_def set_outgoing_ca_certificates_def
  set_remote_registry_ping_interval_def set_remote_registry_address_resolve_timeout_def add_remote_peer_def enable_mdns_def

definition key_set :: "('qc, 'ff, 'store) quic_ops \<Rightarrow> 'qc \<Rightarrow> bool" where
  "key_set Q c \<longleftrightarrow> qo_private_key Q c \<or> qo_private_key_filename Q c"

definition chain_set :: "('qc, 'ff, 'store) quic_ops \<Rightarrow> 'qc \<Rightarrow> bool" where
  "chain_set Q c \<longleftrightarrow> qo_certificate_chain Q c \<or> qo_certificate_chain_filename Q c"

text \<open>
  What picoquic documents of its setters: a new configuration has neither a key nor a chain, and
  a setter sets what it is named after and leaves the other alone.
\<close>

definition quic_documented :: "('qc, 'ff, 'store) quic_ops \<Rightarrow> bool" where
  "quic_documented Q \<longleftrightarrow> \<not> key_set Q (qo_new Q) \<and> \<not> chain_set Q (qo_new Q) \<and>
     (\<forall>c f. key_set Q (qo_set_private_key_filename Q f c)) \<and>
     (\<forall>c k ff. key_set Q (qo_set_private_key Q k ff c)) \<and>
     (\<forall>c f. chain_set Q (qo_set_certificate_chain_filename Q f c)) \<and>
     (\<forall>c k ff. chain_set Q (qo_set_certificate_chain Q k ff c)) \<and>
     (\<forall>c f. chain_set Q (qo_set_private_key_filename Q f c) = chain_set Q c) \<and>
     (\<forall>c k ff. chain_set Q (qo_set_private_key Q k ff c) = chain_set Q c) \<and>
     (\<forall>c f. key_set Q (qo_set_certificate_chain_filename Q f c) = key_set Q c) \<and>
     (\<forall>c k ff. key_set Q (qo_set_certificate_chain Q k ff c) = key_set Q c)"

fun gives_key :: "('ff, 'u) builder_call \<Rightarrow> bool" where
  "gives_key (PrivateKeyFilename _) = True"
| "gives_key (PrivateKey _ _) = True"
| "gives_key _ = False"

fun gives_chain :: "('ff, 'u) builder_call \<Rightarrow> bool" where
  "gives_chain (CertificateChainFilename _) = True"
| "gives_chain (CertificateChain _ _) = True"
| "gives_chain _ = False"

fun gives_peers :: "('ff, 'u) builder_call \<Rightarrow> 'u resolver list" where
  "gives_peers (RemotePeer r) = [r]"
| "gives_peers _ = []"

lemma apply_call_sets:
  assumes "quic_documented Q"
  shows "key_set Q (cb_quic_config (apply_call Q x b)) \<longleftrightarrow> gives_key x \<or> key_set Q (cb_quic_config b)"
    and "chain_set Q (cb_quic_config (apply_call Q x b)) \<longleftrightarrow> gives_chain x \<or> chain_set Q (cb_quic_config b)"
  using assms unfolding quic_documented_def by (cases x; simp add: builder_defs)+

lemma apply_call_peers: "cb_remote_peers (apply_call Q x b) = cb_remote_peers b @ gives_peers x"
  by (cases x) (simp_all add: builder_defs)

lemma apply_calls_sets:
  assumes "quic_documented Q"
  shows "key_set Q (cb_quic_config (fold (apply_call Q) calls b)) \<longleftrightarrow>
      list_ex gives_key calls \<or> key_set Q (cb_quic_config b)"
    and "chain_set Q (cb_quic_config (fold (apply_call Q) calls b)) \<longleftrightarrow>
      list_ex gives_chain calls \<or> chain_set Q (cb_quic_config b)"
  by (induction calls arbitrary: b) (auto simp: apply_call_sets [OF assms])

lemma apply_calls_peers:
  "cb_remote_peers (fold (apply_call Q) calls b) = cb_remote_peers b @ concat (map gives_peers calls)"
  by (induction calls arbitrary: b) (simp_all add: apply_call_peers)

lemma config_build_iff:
  "config_build Q b = Ok c \<longleftrightarrow> key_set Q (cb_quic_config b) \<and> chain_set Q (cb_quic_config b) \<and>
     c = \<lparr>cf_quic_listen_address = cb_quic_listen_address b, cf_quic_config = cb_quic_config b,
        cf_incoming_ca_certificates = cb_incoming_ca_certificates b,
        cf_outgoing_ca_certificates = cb_outgoing_ca_certificates b, cf_remote_peers = cb_remote_peers b,
        cf_remote_registry_ping_interval = cb_remote_registry_ping_interval b,
        cf_remote_registry_address_resolve_timeout = cb_remote_registry_address_resolve_timeout b,
        cf_enable_mdns = cb_enable_mdns b\<rparr>"
  by (auto simp: config_build_def key_set_def chain_set_def bail_def)

section \<open>Properties\<close>

text \<open>A configuration of which only the four fields the crate looks at are kept.\<close>

definition demo_quic :: "(bool \<times> bool \<times> bool \<times> bool, unit, unit) quic_ops" where
  "demo_quic = \<lparr>qo_new = (False, False, False, False),
     qo_set_certificate_chain_filename = (\<lambda>_ (k, kf, c, cf). (k, kf, c, True)),
     qo_set_private_key_filename = (\<lambda>_ (k, kf, c, cf). (k, True, c, cf)),
     qo_set_certificate_chain = (\<lambda>_ _ (k, kf, c, cf). (k, kf, True, False)),
     qo_set_private_key = (\<lambda>_ _ (k, kf, c, cf). (True, False, c, cf)),
     qo_private_key = (\<lambda>(k, kf, c, cf). k), qo_private_key_filename = (\<lambda>(k, kf, c, cf). kf),
     qo_certificate_chain = (\<lambda>(k, kf, c, cf). c), qo_certificate_chain_filename = (\<lambda>(k, kf, c, cf). cf),
     qo_clone_from = id, qo_enable_keep_alive = (\<lambda>_ c. c), qo_enable_client_authentication = id,
     qo_set_verify_certificate_handler = (\<lambda>_ c. c),
     qo_context_new = (\<lambda>addr _. Ok \<lparr>pqx_in = [], pqx_local = addr\<rparr>)\<rparr>"

lemma demo_quic_documented: "quic_documented demo_quic"
  by (simp add: quic_documented_def key_set_def chain_set_def demo_quic_def split_def)

text \<open>
  A configuration can be built exactly when the calls on the builder gave a private key and a
  certificate chain, each as a file or as data and in any order; no other call undoes that, and
  the remote peers are those that were added, in the order they were added.
\<close>

theorem config_build_complete:
  assumes "quic_documented Q"
  shows "case config_build Q (fold (apply_call Q) calls (config_builder_new Q)) of
      Ok c \<Rightarrow> list_ex gives_key calls \<and> list_ex gives_chain calls \<and>
        cf_remote_peers c = concat (map gives_peers calls)
    | Err _ \<Rightarrow> \<not> (list_ex gives_key calls \<and> list_ex gives_chain calls)"
proof -
  let ?b = "fold (apply_call Q) calls (config_builder_new Q)"
  have "\<not> key_set Q (qo_new Q)" "\<not> chain_set Q (qo_new Q)" using assms by (simp_all add: quic_documented_def)
  then have sets: "key_set Q (cb_quic_config ?b) = list_ex gives_key calls"
    "chain_set Q (cb_quic_config ?b) = list_ex gives_chain calls"
    by (simp_all add: apply_calls_sets [OF assms] config_builder_new_def)
  show ?thesis
  proof (cases "config_build Q ?b")
    case (Inl e)
    with config_build_iff [of Q ?b] sets show ?thesis by auto
  next
    case (Inr c)
    with config_build_iff [of Q ?b c] sets show ?thesis by (simp add: apply_calls_peers config_builder_new_def)
  qed
qed

theorem config_build_complete_witness:
  "\<exists>c :: (bool \<times> bool \<times> bool \<times> bool, unit) config.
     config_build demo_quic
       (fold (apply_call demo_quic) [PrivateKey [1] (), RemotePeer (ResolveAddr (SocketAddrV4 1 2)),
          CertificateChainFilename ''cert.pem''] (config_builder_new demo_quic)) = Ok c \<and>
     cf_remote_peers c = [ResolveAddr (SocketAddrV4 1 2)]"
proof -
  let ?calls = "[PrivateKey [1] (), RemotePeer (ResolveAddr (SocketAddrV4 1 2)), CertificateChainFilename ''cert.pem'']
    :: (unit, unit) builder_call list"
  show ?thesis
    using config_build_complete [OF demo_quic_documented, of ?calls] by (auto split: sum.splits)
qed

end
