(* ===== verification/Context.thy ===== *)
theory Context
  imports Incoming Mdns Config
begin

text \<open>
  \<^verbatim>\<open>context.rs\<close>: the public interface. A context is made from a configuration, finds peers and
  opens streams to them, hands out the streams that other peers opened, and its inner task
  accepts connections. The receiving ends of the channels are tapes, as in the other theories;
  the registry and the authenticator are those of the node.
\<close>

section \<open>Registry providers\<close>

text \<open>The implementations of \<^verbatim>\<open>RegistryProvider\<close> a context adds to its registry.\<close>

datatype provider =
    RemoteProvider remote_registry
  | MdnsProvider mdns_registry

text \<open>The call of \<^verbatim>\<open>find_peer\<close> on the trait object; \<open>None\<close> is the panic of the remote registry.\<close>

fun provider_find_peer ::
  "clock \<Rightarrow> (registry_result, unit) tape \<Rightarrow> result_sender \<Rightarrow> peer_id \<Rightarrow> provider \<Rightarrow> provider option" where
  "provider_find_peer clk recv sender peer (RemoteProvider r) =
     map_option (RemoteProvider \<circ> snd) (remote_find_peer clk recv peer sender r)"
| "provider_find_peer clk recv sender peer (MdnsProvider m) =
     Some (MdnsProvider (snd (mdns_find_peer recv peer sender m)))"

section \<open>Passing streams\<close>

text \<open>The sending end of the channel to the context: what was sent while the receiver was there.\<close>

record pass_stream_to_context =
  psc_sent :: "hp_stream list"
  psc_alive :: bool

definition pass_stream :: "hp_stream \<Rightarrow> pass_stream_to_context \<Rightarrow> pass_stream_to_context" where
  "pass_stream stream c = (if psc_alive c then c\<lparr>psc_sent := psc_sent c @ [stream]\<rparr> else c)"

section \<open>Connecting to a peer\<close>

text \<open>
  The future of \<^verbatim>\<open>create_connection_to_peer\<close>: the search, then (\<^verbatim>\<open>flatten\<close>) the future the search
  decided for.
\<close>

datatype create_connection =
    Finding find_future new_connection_handle peer_id peer_id duration
  | Found_Stream hp_stream
  | Building build_state
  | Opening new_stream_future
  | Created

text \<open>\<open>None\<close> is the panic without a connection handle.\<close>

definition create_connection_to_peer ::
  "(peer_id \<Rightarrow> 'prov \<Rightarrow> 'prov) \<Rightarrow> peer_id \<Rightarrow> new_connection_handle list \<Rightarrow> 'prov inner \<Rightarrow> peer_id \<Rightarrow> duration \<Rightarrow>
     (create_connection \<times> 'prov inner) option" where
  "create_connection_to_peer ask peer new_con_handles reg local_peer_identifier switch_to_proxy_timeout =
     (case new_con_handles of
        [] \<Rightarrow> None
      | nch # _ \<Rightarrow> (case find_peer ask peer reg of (f, reg') \<Rightarrow>
          Some (Finding f nch peer local_peer_identifier switch_to_proxy_timeout, reg')))"

text \<open>What the search result turns into.\<close>

fun found_future ::
  "picoquic \<Rightarrow> new_connection_handle \<Rightarrow> peer_id \<Rightarrow> peer_id \<Rightarrow> duration \<Rightarrow> registry_result \<Rightarrow> error + create_connection" where
  "found_future pq nch peer local_id d (RFound stream) = Ok (Found_Stream stream)"
| "found_future pq nch peer local_id d (FoundRemote nsh) = Ok (Building (build_connection_to_peer_new pq local_id peer nch nsh d))"
| "found_future pq nch peer local_id d (FoundWithHandle h) = Ok (Opening (new_stream pq h))"
| "found_future pq nch peer local_id d RNotFound = Err (PeerNotFound peer)"

text \<open>A poll of the future the search decided for.\<close>

fun chosen_poll ::
  "picoquic \<Rightarrow> stream_hello codec \<Rightarrow> build_protocol codec \<Rightarrow> ip_addr list list \<Rightarrow> clock \<Rightarrow> ('prov, 'store) node \<Rightarrow>
     create_connection \<Rightarrow> (hp_stream, fault) poll \<times> ('prov, 'store) node \<times> create_connection" where
  "chosen_poll pq cdh cdb ifs clk n (Found_Stream stream) = (Ok (Ready stream), n, Created)"
| "chosen_poll pq cdh cdb ifs clk n (Building st) = (case build_poll pq cdh cdb ifs clk (n, st) of
     (Ok NotReady, n', st') \<Rightarrow> (Ok NotReady, n', Building st')
   | (p, n', st') \<Rightarrow> (p, n', Created))"
| "chosen_poll pq cdh cdb ifs clk n (Opening f) = (case new_stream_poll cdh f of
     None \<Rightarrow> (Err (Panicked ''sending stream hello''), n, Created)
   | Some (Ok NotReady, f') \<Rightarrow> (Ok NotReady, n, Opening f')
   | Some (p, f') \<Rightarrow> (map_err Raised p, n, Created))"
| "chosen_poll pq cdh cdb ifs clk n st = (Err (Panicked ''polled after completion''), n, st)"

definition create_connection_poll ::
  "picoquic \<Rightarrow> stream_hello codec \<Rightarrow> build_protocol codec \<Rightarrow> ip_addr list list \<Rightarrow> clock \<Rightarrow> ('prov, 'store) node \<Rightarrow>
     create_connection \<Rightarrow> (hp_stream, fault) poll \<times> ('prov, 'store) node \<times> create_connection" where
  "create_connection_poll pq cdh cdb ifs clk n st = (case st of
     Finding f nch peer local_id d \<Rightarrow> (case find_poll f of (p, f') \<Rightarrow>
       (case p of
          Err _ \<Rightarrow> (Err (Raised (error_from_str ''Unknown error while finding a peer'')), n, Created)
        | Ok NotReady \<Rightarrow> (Ok NotReady, n, Finding f' nch peer local_id d)
        | Ok (Ready res) \<Rightarrow> (case found_future pq nch peer local_id d res of
            Err e \<Rightarrow> (Err (Raised e), n, Created)
          | Ok chosen \<Rightarrow> chosen_poll pq cdh cdb ifs clk n chosen)))
   | _ \<Rightarrow> chosen_poll pq cdh cdb ifs clk n st)"

section \<open>The context\<close>

record hp_context =
  cx_new_stream_recv :: "(hp_stream option, unit) tape"
  cx_new_connection_handles :: "new_connection_handle list"
  cx_local_peer_identifier :: peer_id
  cx_quic_local_addr :: socket_addr
  cx_context_inner_handle :: "(unit, unit) tape"

definition cx_create_connection_to_peer_with_custom_timeout ::
  "(peer_id \<Rightarrow> 'prov \<Rightarrow> 'prov) \<Rightarrow> 'prov inner \<Rightarrow> hp_context \<Rightarrow> peer_id \<Rightarrow> duration \<Rightarrow>
     (create_connection \<times> 'prov inner) option" where
  "cx_create_connection_to_peer_with_custom_timeout ask reg c peer d =
     create_connection_to_peer ask peer (cx_new_connection_handles c) reg (cx_local_peer_identifier c) d"

definition cx_create_connection_to_peer ::
  "(peer_id \<Rightarrow> 'prov \<Rightarrow> 'prov) \<Rightarrow> 'prov inner \<Rightarrow> hp_context \<Rightarrow> peer_id \<Rightarrow> (create_connection \<times> 'prov inner) option" where
  "cx_create_connection_to_peer ask reg c peer =
     cx_create_connection_to_peer_with_custom_timeout ask reg c peer (from_secs 4)"

record create_connection_handle =
  cch_new_con_handles :: "new_connection_handle list"
  cch_local_peer_identifier :: peer_id

definition create_connection_to_peer_handle :: "hp_context \<Rightarrow> create_connection_handle" where
  "create_connection_to_peer_handle c =
     \<lparr>cch_new_con_handles = cx_new_connection_handles c, cch_local_peer_identifier = cx_local_peer_identifier c\<rparr>"

definition cch_create_connection_to_peer_with_custom_timeout ::
  "(peer_id \<Rightarrow> 'prov \<Rightarrow> 'prov) \<Rightarrow> 'prov inner \<Rightarrow> create_connection_handle \<Rightarrow> peer_id \<Rightarrow> duration \<Rightarrow>
     (create_connection \<times> 'prov inner) option" where
  "cch_create_connection_to_peer_with_custom_timeout ask reg h peer d =
     create_connection_to_peer ask peer (cch_new_con_handles h) reg (cch_local_peer_identifier h) d"

definition cch_create_connection_to_peer ::
  "(peer_id \<Rightarrow> 'prov \<Rightarrow> 'prov) \<Rightarrow> 'prov inner \<Rightarrow> create_connection_handle \<Rightarrow> peer_id \<Rightarrow>
     (create_connection \<times> 'prov inner) option" where
  "cch_create_connection_to_peer ask reg h peer =
     cch_create_connection_to_peer_with_custom_timeout ask reg h peer (from_secs 4)"

definition context_poll :: "hp_context \<Rightarrow> (hp_stream option, error) poll \<times> hp_context" where
  "context_poll c = (case poll_tape (cx_context_inner_handle c) of (p, t) \<Rightarrow>
     let c1 = c\<lparr>cx_context_inner_handle := t\<rparr> in
     if ready_or_err p then (Err (error_from_str ''HolePunch::ContextInner dropped!''), c1)
     else (case poll_tape (cx_new_stream_recv c) of (q, u) \<Rightarrow>
       (map_err (\<lambda>_. error_from_failure ''Could not receive new stream'') q, c1\<lparr>cx_new_stream_recv := u\<rparr>)))"

text \<open>\<^verbatim>\<open>Drop for Context\<close> drops the registry providers.\<close>

definition context_drop :: "('prov, 'store) node \<Rightarrow> ('prov, 'store) node" where
  "context_drop n = n\<lparr>nd_registry := context_being_dropped (nd_registry n)\<rparr>"

section \<open>The inner task\<close>

text \<open>\<open>ci_drop_handle\<close>: the answers of \<^verbatim>\<open>poll_cancel\<close>; \<open>None\<close> once the handle was taken.\<close>

record context_inner =
  ci_strategies :: "strategy_wrapper list"
  ci_local_peer_identifier :: peer_id
  ci_drop_handle :: "(unit, unit) tape option"

definition context_inner_new :: "strategy_wrapper list \<Rightarrow> peer_id \<Rightarrow> (unit, unit) tape \<Rightarrow> context_inner" where
  "context_inner_new strategies local_peer_identifier drop_handle =
     \<lparr>ci_strategies = strategies, ci_local_peer_identifier = local_peer_identifier, ci_drop_handle = Some drop_handle\<rparr>"

text \<open>\<^verbatim>\<open>StreamFuture\<close>: the next item of a strategy, together with the strategy.\<close>

definition strategy_future_poll ::
  "strategy_wrapper \<Rightarrow> unit \<Rightarrow>
     (connection_wrapper option \<times> strategy_wrapper, error \<times> strategy_wrapper) poll \<times> strategy_wrapper \<times> unit" where
  "strategy_future_poll s u = (case strategy_poll s of (p, s') \<Rightarrow> (map_poll (\<lambda>c. (c, s')) (\<lambda>e. (e, s')) p, s', u))"

definition arrivals :: "strategy_wrapper list \<Rightarrow> nat" where
  "arrivals ss = sum_list (map (\<lambda>s. length (pqx_in (stw_context s))) ss)"

lemma strategy_future_poll_arrivals:
  assumes "strategy_future_poll s u = (p, s1, v)"
  shows "length (pqx_in (stw_context s1)) \<le> length (pqx_in (stw_context s))"
    and "p = Ok (Ready (c, s')) \<Longrightarrow> length (pqx_in (stw_context s')) < length (pqx_in (stw_context s))"
proof -
  obtain q t where tape: "poll_tape (pqx_in (stw_context s)) = (q, t)" by force
  let ?s = "s\<lparr>stw_context := (stw_context s)\<lparr>pqx_in := t\<rparr>\<rparr>"
  have s1: "s1 = ?s"
    and p: "p = map_poll (\<lambda>c. (c, ?s)) (\<lambda>e. (e, ?s)) (map_poll (map_option connection_wrapper_new) error_from_picoquic q)"
    using assms tape by (auto simp: strategy_future_poll_def strategy_poll_def)
  show "length (pqx_in (stw_context s1)) \<le> length (pqx_in (stw_context s))"
    using poll_tape_length [of "pqx_in (stw_context s)"] tape by (simp add: s1)
  show "length (pqx_in (stw_context s')) < length (pqx_in (stw_context s))" if "p = Ok (Ready (c, s'))"
  proof -
    from that p have "q \<noteq> Ok NotReady" "s' = ?s" by (cases q rule: stream_poll_cases; simp)+
    with poll_tapeD [OF tape] show ?thesis by simp
  qed
qed

lemma strategies_scan_arrivals:
  "futures_scan strategy_future_poll ss u = (Ok (Ready (c, s)), ss', u') \<Longrightarrow> arrivals (ss' @ [s]) < arrivals ss"
proof (induction ss arbitrary: u ss')
  case (Cons x xs)
  obtain p x1 v where x: "strategy_future_poll x u = (p, x1, v)" by (metis prod_cases3)
  show ?case
  proof (cases "p = Ok NotReady")
    case True
    with Cons.prems x obtain ys where "futures_scan strategy_future_poll xs v = (Ok (Ready (c, s)), ys, u')" "ss' = x1 # ys"
      by (auto split: prod.splits)
    with Cons.IH [of v ys] strategy_future_poll_arrivals(1) [OF x] show ?thesis by (simp add: arrivals_def)
  next
    case False
    with Cons.prems x have "p = Ok (Ready (c, s))" "ss' = xs" by (auto split: sum.splits async.splits)
    with strategy_future_poll_arrivals(2) [OF x] show ?thesis by (simp add: arrivals_def)
  qed
qed simp

lemma strategies_poll_arrivals:
  "futures_poll strategy_future_poll ss u = (Ok (Ready (Some (c, s))), ss', u') \<Longrightarrow> arrivals (ss' @ [s]) < arrivals ss"
  by (auto simp: futures_poll_def map_ok_def map_async_def dest: strategies_scan_arrivals
      split: if_splits prod.splits sum.splits async.splits)

text \<open>The loop that accepts connections.\<close>

function accept_connections ::
  "peer_id \<Rightarrow> strategy_wrapper list \<Rightarrow> ('prov, 'store) node \<Rightarrow>
     (unit, unit) poll \<times> strategy_wrapper list \<times> ('prov, 'store) node" where
  "accept_connections local_id ss n = (case futures_poll strategy_future_poll ss () of (p, ss', _) \<Rightarrow>
     (case p of
        Ok NotReady \<Rightarrow> (Ok NotReady, ss', n)
      | Err _ \<Rightarrow> (Ok (Ready ()), ss', n)
      | Ok (Ready (Some (Some con, strat))) \<Rightarrow>
          (case connection_new con local_id (new_connection_handle_new local_id (strategy_get_new_connection_handle strat))
                  (nd_registry n) (nd_auth n) of (r, reg, auth) \<Rightarrow>
             let n1 = n\<lparr>nd_registry := reg, nd_auth := auth\<rparr> in
             accept_connections local_id (ss' @ [strat]) (case r of Ok c \<Rightarrow> spawn_connection c n1 | Err _ \<Rightarrow> n1))
      | Ok (Ready (Some (None, _))) \<Rightarrow> (Ok (Ready ()), ss', n)
      | Ok (Ready None) \<Rightarrow> (Ok (Ready ()), ss', n)))"
  by pat_completeness auto
termination
proof (relation "measure (\<lambda>(local_id, ss, n). arrivals ss)")
qed (auto dest!: strategies_poll_arrivals [OF sym])

declare accept_connections.simps [simp del]

definition context_inner_poll ::
  "context_inner \<Rightarrow> ('prov, 'store) node \<Rightarrow> (unit, unit) poll \<times> context_inner \<times> ('prov, 'store) node" where
  "context_inner_poll i n = (case ci_drop_handle i of
     None \<Rightarrow> (Ok (Ready ()), i, n)
   | Some h \<Rightarrow> (case poll_tape h of (p, h') \<Rightarrow>
       let i1 = i\<lparr>ci_drop_handle := Some h'\<rparr> in
       if ready_or_err p then (Ok (Ready ()), i1, n)
       else (case accept_connections (ci_local_peer_identifier i) (ci_strategies i) n of (q, ss, n') \<Rightarrow>
         (q, i1\<lparr>ci_strategies := ss\<rparr>, n'))))"

text \<open>\<^verbatim>\<open>Drop for ContextInner\<close>: what the context then sees on its handle.\<close>

definition context_inner_drop :: "context_inner \<Rightarrow> (unit, unit) tape \<times> context_inner" where
  "context_inner_drop i = (if ci_drop_handle i = None then [] else [Ok (Ready ())], i\<lparr>ci_drop_handle := None\<rparr>)"

section \<open>Starting\<close>

text \<open>The receiving ends of the channels made by \<^verbatim>\<open>Context::new\<close>, as the tapes of their answers.\<close>

record channels =
  ch_new_streams :: "(hp_stream option, unit) tape"
  ch_inner_dropped :: "(unit, unit) tape"
  ch_context_dropped :: "(unit, unit) tape"
  ch_find_requests :: "((peer_id \<times> result_sender) option, unit) tape"
  ch_remote_dropped :: "(unit, unit) tape"
  ch_mdns_shutdown :: "(unit, unit) tape"
  ch_mdns_requests :: "((result_sender \<times> peer_id) option, unit) tape"

text \<open>What the set-up depends on besides the configuration.\<close>

record ('cert, 'pkey, 'builder, 'store, 'qc, 'ff, 'u, 'c) environment =
  env_tls :: "('cert, 'pkey, 'builder, 'store) tls"
  env_quic :: "('qc, 'ff, 'store) quic_ops"
  env_lookup_ip :: "nat \<Rightarrow> string \<Rightarrow> (ip_addr option, unit) tape"
  env_user_resolve :: "nat \<Rightarrow> 'u \<Rightarrow> (socket_addr option, unit) tape"
  env_select :: "(socket_addr option, unit) tape \<Rightarrow> (socket_addr option, unit) tape \<Rightarrow> (socket_addr option, unit) tape"
  env_hex_encode_upper :: "bytes \<Rightarrow> string"
  env_lru :: "('c, peer_id, discovery_result) lru"
  env_discover :: "string \<Rightarrow> duration \<Rightarrow> string + (mdns_record list option, string) tape"

definition env_resolving ::
  "('cert, 'pkey, 'builder, 'store, 'qc, 'ff, 'u, 'c) environment \<Rightarrow> 'u resolver resolving" where
  "env_resolving env = \<lparr>rsv_resolve = (\<lambda>k. resolver_resolve (env_lookup_ip env k) (env_user_resolve env k)),
     rsv_select = env_select env\<rparr>"

text \<open>A started context: the context, the node, and the spawned tasks.\<close>

record ('u, 'store, 'c) started =
  sd_context :: hp_context
  sd_node :: "(provider, 'store) node"
  sd_inner :: context_inner
  sd_handler :: "('u resolver, provider, 'store) handler option"
  sd_responder :: "responder option"
  sd_discovery :: "'c discovery option"

text \<open>\<^verbatim>\<open>if !config.remote_peers.is_empty()\<close>: the handler and the node with the provider added.\<close>

definition start_remote_registry ::
  "('cert, 'pkey, 'builder, 'store, 'qc, 'ff, 'u, 'c) environment \<Rightarrow> clock \<Rightarrow> channels \<Rightarrow> ('qc, 'u) config \<Rightarrow>
     new_connection_handle list \<Rightarrow> (provider, 'store) node \<Rightarrow>
     (('u resolver, provider, 'store) handler option \<times> (provider, 'store) node) option" where
  "start_remote_registry env clk ch config handles n =
     (if cf_remote_peers config = [] then Some (None, n)
      else map_option (\<lambda>(h, r). (Some h, n\<lparr>nd_registry := add_registry_provider (RemoteProvider r) (nd_registry n)\<rparr>))
        (remote_registry_new (env_resolving env) clk (cf_remote_peers config) (cf_remote_registry_ping_interval config)
           (cf_remote_registry_address_resolve_timeout config) handles (ch_find_requests ch) (ch_remote_dropped ch) n))"

text \<open>\<^verbatim>\<open>if let Some(service_name) = config.enable_mdns\<close>.\<close>

definition start_mdns_registry ::
  "('cert, 'pkey, 'builder, 'store, 'qc, 'ff, 'u, 'c) environment \<Rightarrow> channels \<Rightarrow> ('qc, 'u) config \<Rightarrow> pub_key_hash \<Rightarrow>
     new_connection_handle list \<Rightarrow> u16 \<Rightarrow> (provider, 'store) node \<Rightarrow>
     error + (responder option \<times> 'c discovery option \<times> (provider, 'store) node)" where
  "start_mdns_registry env ch config local_id handles port n = (case cf_enable_mdns config of
     None \<Rightarrow> Ok (None, None, n)
   | Some service_name \<Rightarrow>
       (case mdns_registry_new (env_hex_encode_upper env) (env_lru env) (env_discover env) local_id handles service_name
               port (ch_mdns_shutdown ch) (ch_mdns_requests ch) of (m, r) \<Rightarrow>
          (case r of
             Err e \<Rightarrow> Err e
           | Ok (reg, d) \<Rightarrow>
               Ok (Some m, Some d, n\<lparr>nd_registry := add_registry_provider (MdnsProvider reg) (nd_registry n)\<rparr>))))"

text \<open>\<open>None\<close> is a panic.\<close>

definition context_new ::
  "('cert, 'pkey, 'builder, 'store, 'qc, 'ff, 'u, 'c) environment \<Rightarrow> clock \<Rightarrow> channels \<Rightarrow> pub_key_hash \<Rightarrow> ('qc, 'u) config \<Rightarrow>
     (error + ('u, 'store, 'c) started) option" where
  "context_new env clk ch local_id config =
     (case authenticator_new (env_tls env) (cf_outgoing_ca_certificates config) (cf_incoming_ca_certificates config) True of
        Err e \<Rightarrow> Some (Err e)
      | Ok auth \<Rightarrow> (case strategies_init (env_quic env) config auth of
          Err e \<Rightarrow> Some (Err e)
        | Ok [] \<Rightarrow> None
        | Ok (strat # strats) \<Rightarrow>
            (let quic_local_addr = strategy_local_addr strat;
                 handles = map (\<lambda>s. new_connection_handle_new (pk_deref local_id) (strategy_get_new_connection_handle s))
                   (strat # strats);
                 n = \<lparr>nd_registry = inner_new, nd_auth = auth, nd_spawned = []\<rparr>
             in case start_remote_registry env clk ch config handles n of
                  None \<Rightarrow> None
                | Some (handler, n1) \<Rightarrow>
                    Some (case start_mdns_registry env ch config local_id handles (sock_port quic_local_addr) n1 of
                        Err e \<Rightarrow> Err e
                      | Ok (m, d, n2) \<Rightarrow> Ok \<lparr>sd_context = \<lparr>cx_new_stream_recv = ch_new_streams ch,
                            cx_new_connection_handles = handles, cx_local_peer_identifier = pk_deref local_id,
                            cx_quic_local_addr = quic_local_addr, cx_context_inner_handle = ch_inner_dropped ch\<rparr>,
                          sd_node = n2, sd_inner = context_inner_new (strat # strats) (pk_deref local_id) (ch_context_dropped ch),
                          sd_handler = handler, sd_responder = m, sd_discovery = d\<rparr>))))"

section \<open>The inner task and the node\<close>

lemma accept_connections_node:
  "accept_connections l ss n = (r, ss', n') \<Longrightarrow> connections T hs (nd_registry n) (nd_auth n) cs \<Longrightarrow>
     \<exists>new. nd_spawned n' = nd_spawned n @ new \<and> connections T hs (nd_registry n') (nd_auth n') (cs + mset new) \<and>
       list_all (\<lambda>c. nch_local_peer_identifier (cn_new_con_handle c) = l) new"
proof (induction "arrivals ss" arbitrary: ss n cs rule: less_induct)
  case less
  obtain p ss1 where poll: "futures_poll strategy_future_poll ss () = (p, ss1, ())" by (metis prod_cases3 unit.exhaust)
  show ?case
  proof (cases "\<exists>con strat. p = Ok (Ready (Some (Some con, strat)))")
    case False
    with less.prems(1) poll have "n' = n"
      by (subst (asm) accept_connections.simps) (auto split: sum.splits async.splits option.splits)
    with less.prems(2) show ?thesis by (intro exI [of _ "[]"]) simp
  next
    case True
    then obtain con strat where p: "p = Ok (Ready (Some (Some con, strat)))" by blast
    let ?h = "new_connection_handle_new l (strategy_get_new_connection_handle strat)"
    obtain q reg auth where new: "connection_new con l ?h (nd_registry n) (nd_auth n) = (q, reg, auth)"
      by (metis prod_cases3)
    let ?n = "n\<lparr>nd_registry := reg, nd_auth := auth\<rparr>"
    let ?n1 = "case q of Ok c \<Rightarrow> spawn_connection c ?n | Err _ \<Rightarrow> ?n"
    have rest: "accept_connections l (ss1 @ [strat]) ?n1 = (r, ss', n')"
      using less.prems(1) poll p new by (subst (asm) accept_connections.simps) (simp add: Let_def)
    note IH = less.hyps [OF strategies_poll_arrivals [OF poll [unfolded p]] rest]
    show ?thesis
    proof (cases q)
      case (Inl e)
      with new less.prems(2) have "connections T hs (nd_registry ?n1) (nd_auth ?n1) cs"
        by (auto intro: connections.refused)
      from IH [OF this] Inl show ?thesis by simp
    next
      case (Inr c)
      with new less.prems(2) have "connections T hs (nd_registry ?n1) (nd_auth ?n1) (add_mset c cs)"
        by (auto simp: spawn_connection_def intro: connections.opened)
      from IH [OF this] Inr obtain cs' where "nd_spawned n' = nd_spawned n @ c # cs'"
        "connections T hs (nd_registry n') (nd_auth n') (add_mset c cs + mset cs')"
        "list_all (\<lambda>c. nch_local_peer_identifier (cn_new_con_handle c) = l) cs'"
        by (auto simp: spawn_connection_def)
      moreover have "cn_new_con_handle c = ?h" using new Inr by (auto elim: connection_new_OkE)
      ultimately show ?thesis by (intro exI [of _ "c # cs'"]) (simp add: new_connection_handle_new_def)
    qed
  qed
qed

lemma accept_connections_idle:
  "list_all (\<lambda>s. pqx_in (stw_context s) = []) ss \<Longrightarrow> ss \<noteq> [] \<Longrightarrow> accept_connections l ss n = (Ok NotReady, ss, n)"
proof -
  assume idle: "list_all (\<lambda>s. pqx_in (stw_context s) = []) ss" and "ss \<noteq> []"
  have "futures_scan strategy_future_poll ss () = (Ok NotReady, ss, ())"
    using idle by (induction ss) (simp_all add: strategy_future_poll_def strategy_poll_def)
  with \<open>ss \<noteq> []\<close> show ?thesis by (subst accept_connections.simps) (simp add: futures_poll_def)
qed

text \<open>One arrival.\<close>

lemma accept_connections_arrival:
  assumes "pqx_in (stw_context s) = Ok (Ready (Some c)) # t"
  defines "s' \<equiv> s\<lparr>stw_context := (stw_context s)\<lparr>pqx_in := t\<rparr>\<rparr>"
  shows "accept_connections l [s] n = (case connection_new (connection_wrapper_new c) l
      (new_connection_handle_new l (strategy_get_new_connection_handle s')) (nd_registry n) (nd_auth n) of
    (r, reg, auth) \<Rightarrow> accept_connections l [s'] (let n1 = n\<lparr>nd_registry := reg, nd_auth := auth\<rparr> in
      case r of Ok c \<Rightarrow> spawn_connection c n1 | Err _ \<Rightarrow> n1))"
  using assms
  by (subst accept_connections.simps)
    (simp add: futures_poll_def strategy_future_poll_def strategy_poll_def Let_def cong: option.case_cong)

text \<open>The names of the arrivals whose keys are known.\<close>

definition arriving_peers :: "'store auth_inner \<Rightarrow> pq_connection list \<Rightarrow> peer_id list" where
  "arriving_peers auth arrived = List.map_filter (\<lambda>c. map_option pk_deref (incoming_con_pub_keys auth (pqc_id c))) arrived"

lemma arriving_peers_simps [simp]:
  "arriving_peers auth [] = []"
  "arriving_peers auth (c # cs) = (case incoming_con_pub_keys auth (pqc_id c) of
     None \<Rightarrow> arriving_peers auth cs | Some key \<Rightarrow> pk_deref key # arriving_peers auth cs)"
  by (simp_all add: arriving_peers_def map_filter_simps split: option.splits)

lemma arriving_peers_taken:
  "cid \<notin> pqc_id ` set cs \<Longrightarrow>
     arriving_peers (auth\<lparr>incoming_con_pub_keys := (incoming_con_pub_keys auth)(cid := None)\<rparr>) cs = arriving_peers auth cs"
  by (induction cs) (auto split: option.splits)

text \<open>All arrivals on a strategy.\<close>

lemma accept_connections_all:
  "pqx_in (stw_context s) = map (\<lambda>c. Ok (Ready (Some c))) arrived \<Longrightarrow> distinct (map pqc_id arrived) \<Longrightarrow>
   \<exists>ss n' new. accept_connections l [s] n = (Ok NotReady, ss, n') \<and> nd_spawned n' = nd_spawned n @ new \<and>
     map cn_peer_identifier new = arriving_peers (nd_auth n) arrived \<and>
     (\<forall>p. has_peer (nd_registry n') p \<longleftrightarrow> has_peer (nd_registry n) p \<or>
        p \<in> set (arriving_peers (nd_auth n) arrived))"
proof (induction arrived arbitrary: s n)
  case Nil
  then show ?case by (simp add: accept_connections_idle)
next
  case (Cons c cs)
  let ?s = "s\<lparr>stw_context := (stw_context s)\<lparr>pqx_in := map (\<lambda>c. Ok (Ready (Some c))) cs\<rparr>\<rparr>"
  let ?h = "new_connection_handle_new l (strategy_get_new_connection_handle ?s)"
  have step: "accept_connections l [s] n = (case connection_new (connection_wrapper_new c) l ?h (nd_registry n) (nd_auth n) of
      (r, reg, auth) \<Rightarrow> accept_connections l [?s] (let n1 = n\<lparr>nd_registry := reg, nd_auth := auth\<rparr> in
        case r of Ok c \<Rightarrow> spawn_connection c n1 | Err _ \<Rightarrow> n1))"
    using Cons.prems(1) by (simp add: accept_connections_arrival)
  have cid: "con_connection_id (connection_wrapper_new c) = pqc_id c"
    by (simp add: con_connection_id_def connection_wrapper_new_def)
  obtain r reg auth where new: "connection_new (connection_wrapper_new c) l ?h (nd_registry n) (nd_auth n) = (r, reg, auth)"
    by (metis prod_cases3)
  show ?case
  proof (cases r)
    case (Inl e)
    with connection_new_ErrD [OF new [unfolded Inl]] have "reg = nd_registry n" "auth = nd_auth n" "incoming_con_pub_keys (nd_auth n) (pqc_id c) = None"
      by (simp_all add: cid)
    with Cons.IH [of ?s n] Cons.prems(2) step new Inl show ?thesis by simp
  next
    case (Inr k)
    let ?n = "spawn_connection k (n\<lparr>nd_registry := reg, nd_auth := auth\<rparr>)"
    obtain key where key: "incoming_con_pub_keys (nd_auth n) (pqc_id c) = Some key"
      "auth = (nd_auth n)\<lparr>incoming_con_pub_keys := (incoming_con_pub_keys (nd_auth n))(pqc_id c := None)\<rparr>"
      "register_peer (pk_deref key) (cn_new_stream_handle k) (nd_registry n) = (cn_registration_token k, reg)"
      "cn_peer_identifier k = pk_deref key"
      using connection_new_OkE [OF new [unfolded Inr]] cid by metis
    have rest: "arriving_peers (nd_auth ?n) cs = arriving_peers (nd_auth n) cs"
      using Cons.prems(2) key(2) by (simp add: spawn_connection_def arriving_peers_taken)
    have peer: "has_peer (nd_registry ?n) p \<longleftrightarrow> p = pk_deref key \<or> has_peer (nd_registry n) p" for p
      using register_entry [of "pk_deref key" "cn_new_stream_handle k" "nd_registry n"] key(3)
      by (auto simp: has_peer_def spawn_connection_def)
    from Cons.IH [of ?s ?n] Cons.prems(2) obtain ss n' more where IH:
      "accept_connections l [?s] ?n = (Ok NotReady, ss, n')" "nd_spawned n' = nd_spawned ?n @ more"
      "map cn_peer_identifier more = arriving_peers (nd_auth ?n) cs"
      "\<And>p. has_peer (nd_registry n') p \<longleftrightarrow> has_peer (nd_registry ?n) p \<or> p \<in> set (arriving_peers (nd_auth ?n) cs)"
      by auto
    have "accept_connections l [s] n = (Ok NotReady, ss, n')" using step new Inr IH(1) by simp
    moreover have "nd_spawned n' = nd_spawned n @ k # more" using IH(2) by (simp add: spawn_connection_def)
    ultimately show ?thesis
      using IH(3,4) rest peer key(1,4) by (intro exI [of _ ss] exI [of _ n'] exI [of _ "k # more"]) auto
  qed
qed

text \<open>
  Shutting down: the inner task ends with the first poll after the context is gone and accepts
  nothing any more, and the context reports an error once the inner task is gone.
\<close>

lemma context_shutdown:
  "ci_drop_handle i = Some (Ok (Ready ()) # t) \<Longrightarrow> fst (context_inner_poll i n) = Ok (Ready ()) \<and> snd (snd (context_inner_poll i n)) = n"
  "ci_drop_handle i \<noteq> None \<Longrightarrow> cx_context_inner_handle c = fst (context_inner_drop i) \<Longrightarrow>
     fst (context_poll c) = Err (error_from_str ''HolePunch::ContextInner dropped!'')"
  "registries (nd_registry (context_drop n)) = []" "inner_peer (nd_registry (context_drop n)) = inner_peer (nd_registry n)"
  by (auto simp: context_inner_poll_def context_inner_drop_def context_poll_def context_drop_def context_being_dropped_def
      inner_peer_def fun_eq_iff split: if_splits)

section \<open>Starting a context\<close>

text \<open>The remote registry panics exactly when its first pause would end beyond the last instant.\<close>

definition resolve_pause_overflows :: "clock \<Rightarrow> ('qc, 'u) config \<Rightarrow> bool" where
  "resolve_pause_overflows clk config \<longleftrightarrow> cf_remote_peers config \<noteq> [] \<and>
     last_instant clk < now clk + cf_remote_registry_address_resolve_timeout config"

lemmas start_remote_defs = start_remote_registry_def remote_registry_new_def handler_new_def get_next_addr_new_def
  resolvers_to_stream_def instant_add_def resolve_pause_overflows_def

lemma start_remote_registry_None:
  "start_remote_registry env clk ch config handles n = None \<longleftrightarrow> resolve_pause_overflows clk config"
  by (cases "cf_remote_peers config") (auto simp: start_remote_defs)

lemma start_remote_registry_SomeD:
  "start_remote_registry env clk ch config handles n = Some (h, n') \<Longrightarrow>
     (h = None \<longleftrightarrow> cf_remote_peers config = []) \<and> nd_auth n' = nd_auth n \<and> nd_spawned n' = nd_spawned n \<and>
     connected_peers (nd_registry n') = connected_peers (nd_registry n) \<and>
     registries (nd_registry n') = registries (nd_registry n) @
       (if cf_remote_peers config = [] then [] else [RemoteProvider \<lparr>rr_find_peer_request = [], rr_handler_alive = True\<rparr>])"
  by (cases "cf_remote_peers config") (auto simp: start_remote_defs add_registry_provider_def split: if_splits)

lemma start_mdns_registry_OkD:
  "start_mdns_registry env ch config local_id handles port n = Ok (m, d, n') \<Longrightarrow>
     (m = None \<longleftrightarrow> cf_enable_mdns config = None) \<and> (d = None \<longleftrightarrow> cf_enable_mdns config = None) \<and>
     nd_auth n' = nd_auth n \<and> nd_spawned n' = nd_spawned n \<and>
     connected_peers (nd_registry n') = connected_peers (nd_registry n) \<and>
     registries (nd_registry n') = registries (nd_registry n) @
       (if cf_enable_mdns config = None then [] else [MdnsProvider \<lparr>mr_requests = [], mr_receiver_alive = True\<rparr>])"
  by (auto simp: start_mdns_registry_def mdns_registry_new_def Let_def add_registry_provider_def
      split: option.splits prod.splits sum.splits)

lemma context_new_OkE:
  assumes "context_new env clk ch local_id config = Some (Ok st)"
  obtains auth strat h n1 m d where
    "authenticator_new (env_tls env) (cf_outgoing_ca_certificates config) (cf_incoming_ca_certificates config) True = Ok auth"
    "cx_new_connection_handles (sd_context st) =
       [new_connection_handle_new (pk_deref local_id) (strategy_get_new_connection_handle strat)]"
    "sd_inner st = context_inner_new [strat] (pk_deref local_id) (ch_context_dropped ch)"
    "start_remote_registry env clk ch config (cx_new_connection_handles (sd_context st))
       \<lparr>nd_registry = inner_new, nd_auth = auth, nd_spawned = []\<rparr> = Some (h, n1)"
    "start_mdns_registry env ch config local_id (cx_new_connection_handles (sd_context st))
       (sock_port (strategy_local_addr strat)) n1 = Ok (m, d, sd_node st)"
    "sd_handler st = h" "sd_responder st = m" "sd_discovery st = d"
proof -
  obtain auth where auth: "authenticator_new (env_tls env) (cf_outgoing_ca_certificates config) (cf_incoming_ca_certificates config) True = Ok auth"
    using assms by (auto simp: context_new_def split: sum.splits)
  with assms obtain strats where "strategies_init (env_quic env) config auth = Ok strats"
    by (auto simp: context_new_def split: sum.splits)
  then obtain strat where strats: "strategies_init (env_quic env) config auth = Ok [strat]"
    by (metis strategies_init_OkE)
  let ?h = "[new_connection_handle_new (pk_deref local_id) (strategy_get_new_connection_handle strat)]"
  obtain h n1 where remote: "start_remote_registry env clk ch config ?h \<lparr>nd_registry = inner_new, nd_auth = auth, nd_spawned = []\<rparr> = Some (h, n1)"
    using assms auth strats by (auto simp: context_new_def Let_def split: option.splits)
  with assms auth strats obtain m d n2 where mdns: "start_mdns_registry env ch config local_id ?h (sock_port (strategy_local_addr strat)) n1 = Ok (m, d, n2)"
    by (auto simp: context_new_def Let_def split: sum.splits)
  from assms auth strats remote mdns show ?thesis
    by (intro that [of auth strat h n1 m d]) (auto simp: context_new_def Let_def)
qed

lemma authenticator_new_empty: "authenticator_new T s c b = Ok a \<Longrightarrow> incoming_con_pub_keys a = Map.empty"
  by (auto simp: authenticator_new_def split: sum.splits)

lemma context_new_connections:
  assumes "context_new env clk ch local_id config = Some (Ok st)"
  shows "connections (env_tls env) [] (nd_registry (sd_node st)) (nd_auth (sd_node st)) {#}"
proof -
  from assms obtain auth strat h n1 m d where st:
    "authenticator_new (env_tls env) (cf_outgoing_ca_certificates config) (cf_incoming_ca_certificates config) True = Ok auth"
    "start_remote_registry env clk ch config (cx_new_connection_handles (sd_context st))
       \<lparr>nd_registry = inner_new, nd_auth = auth, nd_spawned = []\<rparr> = Some (h, n1)"
    "start_mdns_registry env ch config local_id (cx_new_connection_handles (sd_context st))
       (sock_port (strategy_local_addr strat)) n1 = Ok (m, d, sd_node st)"
    by (elim context_new_OkE)
  have "connected_peers (nd_registry (sd_node st)) = Map.empty" "nd_auth (sd_node st) = auth"
    using start_mdns_registry_OkD [OF st(3)] start_remote_registry_SomeD [OF st(2)] by (auto simp: inner_new_def)
  with authenticator_new_empty [OF st(1)] show ?thesis
    by (intro connections.start) (simp_all add: inner_peer_def)
qed

lemma context_new_panics:
  "context_new env clk ch local_id config = None \<longleftrightarrow>
     (\<exists>auth strats. authenticator_new (env_tls env) (cf_outgoing_ca_certificates config) (cf_incoming_ca_certificates config)
          True = Ok auth \<and> strategies_init (env_quic env) config auth = Ok strats) \<and> resolve_pause_overflows clk config"
proof (cases "authenticator_new (env_tls env) (cf_outgoing_ca_certificates config) (cf_incoming_ca_certificates config) True")
  case auth: (Inr auth)
  show ?thesis
  proof (cases "strategies_init (env_quic env) config auth")
    case (Inr strats)
    then obtain strat where "strats = [strat]" by (rule strategies_init_OkE)
    let ?hs = "[new_connection_handle_new (pk_deref local_id) (strategy_get_new_connection_handle strat)]"
    note none = start_remote_registry_None [of env clk ch config ?hs "\<lparr>nd_registry = inner_new, nd_auth = auth, nd_spawned = []\<rparr>"]
    from Inr auth \<open>strats = [strat]\<close> show ?thesis
      by (auto simp: context_new_def Let_def none [symmetric] split: option.splits prod.splits)
  qed (simp add: context_new_def auth)
qed (simp add: context_new_def)

text \<open>The providers, the tasks and the handle of a started context.\<close>

lemma context_new_tasks:
  assumes "context_new env clk ch local_id config = Some (Ok st)"
  shows "registries (nd_registry (sd_node st)) =
      (if cf_remote_peers config = [] then [] else [RemoteProvider \<lparr>rr_find_peer_request = [], rr_handler_alive = True\<rparr>]) @
      (if cf_enable_mdns config = None then [] else [MdnsProvider \<lparr>mr_requests = [], mr_receiver_alive = True\<rparr>])"
    and "sd_handler st = None \<longleftrightarrow> cf_remote_peers config = []"
    and "sd_discovery st = None \<longleftrightarrow> cf_enable_mdns config = None"
    and "map nch_local_peer_identifier (cx_new_connection_handles (sd_context st)) = [pk_deref local_id]"
proof -
  from assms obtain auth strat h n1 m d where st:
    "cx_new_connection_handles (sd_context st) =
       [new_connection_handle_new (pk_deref local_id) (strategy_get_new_connection_handle strat)]"
    "start_remote_registry env clk ch config (cx_new_connection_handles (sd_context st))
       \<lparr>nd_registry = inner_new, nd_auth = auth, nd_spawned = []\<rparr> = Some (h, n1)"
    "start_mdns_registry env ch config local_id (cx_new_connection_handles (sd_context st))
       (sock_port (strategy_local_addr strat)) n1 = Ok (m, d, sd_node st)"
    "sd_handler st = h" "sd_discovery st = d"
    by (elim context_new_OkE)
  note tasks = st start_mdns_registry_OkD [OF st(3)] start_remote_registry_SomeD [OF st(2)]
  show "registries (nd_registry (sd_node st)) =
      (if cf_remote_peers config = [] then [] else [RemoteProvider \<lparr>rr_find_peer_request = [], rr_handler_alive = True\<rparr>]) @
      (if cf_enable_mdns config = None then [] else [MdnsProvider \<lparr>mr_requests = [], mr_receiver_alive = True\<rparr>])"
    using tasks by (auto simp: inner_new_def)
  show "sd_handler st = None \<longleftrightarrow> cf_remote_peers config = []" using tasks by auto
  show "sd_discovery st = None \<longleftrightarrow> cf_enable_mdns config = None" using tasks by auto
  show "map nch_local_peer_identifier (cx_new_connection_handles (sd_context st)) = [pk_deref local_id]"
    using st(1) by (simp add: new_connection_handle_new_def)
qed

section \<open>Finding a peer\<close>

lemma create_connection_connected:
  assumes "inner_peer reg p = Some h"
  shows "create_connection_to_peer ask p (nch # nchs) reg local_id d =
    Some (Finding (FindOk (FoundWithHandle h)) nch p local_id d, reg)"
  using assms by (auto simp: create_connection_to_peer_def find_peer_def inner_peer_def)

lemma create_connection_search:
  assumes "inner_peer reg p = None"
  shows "create_connection_to_peer ask p (nch # nchs) reg local_id d =
    Some (Finding (FindSearch (search_new (registries reg))) nch p local_id d, reg\<lparr>registries := map (ask p) (registries reg)\<rparr>)"
  using assms by (auto simp: create_connection_to_peer_def find_peer_def inner_peer_def)

text \<open>The answer of a poll that finds a result.\<close>

lemma create_connection_found:
  assumes "fst (find_poll f) = Ok (Ready res)"
  shows "create_connection_poll pq cdh cdb ifs clk n (Finding f nch peer local_id d) =
    (case found_future pq nch peer local_id d res of
       Err e \<Rightarrow> (Err (Raised e), n, Created)
     | Ok chosen \<Rightarrow> chosen_poll pq cdh cdb ifs clk n chosen)"
  using assms by (cases "find_poll f") (simp add: create_connection_poll_def)

lemma create_connection_waiting:
  assumes "fst (find_poll f) = Ok NotReady"
  shows "create_connection_poll pq cdh cdb ifs clk n (Finding f nch peer local_id d) =
    (Ok NotReady, n, Finding (snd (find_poll f)) nch peer local_id d)"
  using assms by (cases "find_poll f") (simp add: create_connection_poll_def)

section \<open>Concrete values\<close>

definition demo_context :: hp_context where
  "demo_context = \<lparr>cx_new_stream_recv = [], cx_new_connection_handles = [demo_con_handle [1]],
     cx_local_peer_identifier = [1], cx_quic_local_addr = SocketAddrV4 0 7000, cx_context_inner_handle = []\<rparr>"

definition demo_inner :: context_inner where
  "demo_inner = context_inner_new [\<lparr>stw_context = \<lparr>pqx_in = [Ok (Ready (Some (cw_con demo_connection))),
       Ok (Ready (Some ((cw_con demo_connection)\<lparr>pqc_id := 8\<rparr>)))], pqx_local = SocketAddrV4 0 7000\<rparr>\<rparr>] [1] []"

definition demo_channels :: channels where
  "demo_channels = \<lparr>ch_new_streams = [], ch_inner_dropped = [], ch_context_dropped = [], ch_find_requests = [],
     ch_remote_dropped = [], ch_mdns_shutdown = [], ch_mdns_requests = []\<rparr>"

definition demo_config :: "(bool \<times> bool \<times> bool \<times> bool, unit) config" where
  "demo_config = \<lparr>cf_quic_listen_address = SocketAddrV4 0 7000, cf_quic_config = (True, False, True, False),
     cf_incoming_ca_certificates = None, cf_outgoing_ca_certificates = None,
     cf_remote_peers = [ResolveAddr (SocketAddrV4 1 2)], cf_remote_registry_ping_interval = from_secs 5,
     cf_remote_registry_address_resolve_timeout = from_secs 2, cf_enable_mdns = Some ''hp''\<rparr>"

definition demo_environment ::
  "(bytes, bytes, unit, unit, bool \<times> bool \<times> bool \<times> bool, unit, unit, peer_id \<rightharpoonup> discovery_result) environment" where
  "demo_environment = \<lparr>env_tls = demo_tls, env_quic = demo_quic, env_lookup_ip = (\<lambda>_ _. []),
     env_user_resolve = (\<lambda>_ _. []), env_select = (\<lambda>a b. butlast a @ b),
     env_hex_encode_upper = demo_hex_encode, env_lru = demo_lru, env_discover = (\<lambda>_ _. Ok [])\<rparr>"

lemma demo_context_starts:
  "\<exists>st. context_new demo_environment (documented_clock 0) demo_channels demo_hash demo_config = Some (Ok st)"
proof -
  have auth: "authenticator_new (env_tls demo_environment) (cf_outgoing_ca_certificates demo_config)
      (cf_incoming_ca_certificates demo_config) True = Ok demo_auth"
    by (simp add: authenticator_new_def create_certificate_store_def demo_environment_def demo_config_def demo_auth_def)
  obtain s where s: "strategies_init (env_quic demo_environment) demo_config demo_auth = Ok [s]"
    by (simp add: strategies_init_def quic_init_def strategy_wrapper_new_def demo_environment_def demo_quic_def)
  let ?start = "\<lambda>hs port n. start_mdns_registry demo_environment demo_channels demo_config demo_hash hs port n"
  have mdns: "\<exists>m d n'. ?start hs port n = Ok (m, d, n')" for hs port n
    by (simp add: start_mdns_registry_def mdns_registry_new_def discovery_new_def Let_def demo_environment_def demo_config_def)
  let ?hs = "[new_connection_handle_new (pk_deref demo_hash) (strategy_get_new_connection_handle s)]"
  obtain h n1 where remote: "start_remote_registry demo_environment (documented_clock 0) demo_channels demo_config ?hs
      \<lparr>nd_registry = inner_new, nd_auth = demo_auth, nd_spawned = []\<rparr> = Some (h, n1)"
    using start_remote_registry_None [of demo_environment "documented_clock 0" demo_channels demo_config ?hs
        "\<lparr>nd_registry = inner_new, nd_auth = demo_auth, nd_spawned = []\<rparr>"]
    by (auto simp: resolve_pause_overflows_def demo_config_def from_secs_def)
  obtain m d n2 where "?start ?hs (sock_port (strategy_local_addr s)) n1 = Ok (m, d, n2)" using mdns by blast
  with auth s remote show ?thesis by (simp add: context_new_def Let_def)
qed

text \<open>
  A peer that is connected is reached directly: the first poll of the future answers with a
  stream on a live connection to that very peer, whose key was authenticated, labelled with its
  name and as direct, greeted with the name of this peer, and nothing else changes.
\<close>

lemma create_connected_opens:
  assumes "connections T hs (nd_registry n) (nd_auth n) cs" "inner_peer (nd_registry n) p = Some h"
    and "handle_new_stream pq (nsh_new_stream_handle h) = Ok (Ready v) # t" "prompt_sink cdh"
    and "cx_new_connection_handles cx = nch # nchs"
  shows "\<exists>f s c. cx_create_connection_to_peer ask (nd_registry n) cx p = Some (f, nd_registry n) \<and>
    create_connection_poll pq cdh cdb ifs clk n f = (Ok (Ready s), n, Created) \<and>
    st_peer_identifier s = p \<and> is_p2p s \<and> c \<in># cs \<and> cn_peer_identifier c = p \<and> cn_new_stream_handle c = h \<and>
    authenticated T hs (con_connection_id (cn_con c)) p \<and>
    nsw_con_id (nsh_new_stream_handle (st_new_stream_handle s)) = con_connection_id (cn_con c) \<and>
    io_out (st_stream s) = io_out v @ [HelloFrame (User (nsh_local_peer_identifier h))]"
proof -
  obtain c where c: "c \<in># cs" "con_handle_ok c" "con_registration c = (p, h, cn_registration_token c)"
    using registered_connection [OF assms(1,2)] by blast
  then have h: "nsh_peer_identifier h = p" "\<not> nsh_proxy_stream h" "cn_peer_identifier c = p" "cn_new_stream_handle c = h"
    "nsw_con_id (nsh_new_stream_handle h) = con_connection_id (cn_con c)"
    by (auto simp: con_handle_ok_def con_registration_def)
  have "authenticated T hs (con_connection_id (cn_con c)) p" using connections_authenticated [OF assms(1)] c(1) h(3) by auto
  moreover have "nsf_new_stream (new_stream pq h) = Ok (Ready v) # t" using assms(3) by simp
  from new_stream_greets [OF this assms(4)] obtain s f' where s: "new_stream_poll cdh (new_stream pq h) = Some (Ok (Ready s), f')"
    "io_out (st_stream s) = io_out v @ [HelloFrame (User (nsh_local_peer_identifier h))]"
    "st_peer_identifier s = p" "\<not> st_is_proxy_stream s"
    using h by (auto simp: hello_target_def)
  have "nsw_con_id (nsh_new_stream_handle (st_new_stream_handle s)) = con_connection_id (cn_con c)"
    using s(1) h(5) by (elim new_stream_poll_ReadyE) simp
  ultimately show ?thesis
    using assms(5) c(1) h s
    by (simp add: cx_create_connection_to_peer_def cx_create_connection_to_peer_with_custom_timeout_def
        create_connection_connected [OF assms(2)] create_connection_found is_p2p_def) blast
qed

section \<open>Properties\<close>

text \<open>
  C6. A context starts in a sound state: the registry has no peers and exactly the providers the
  configuration asks for, with a task for each; the authenticator holds no keys; and the one
  connection handle is that of this peer. Starting panics in exactly one case: certificates and
  transport are fine, remote peers are configured, and the pause configured between two
  resolutions of their addresses would end at an instant that cannot be represented.
\<close>

theorem context_new_sound:
  "(context_new env clk ch local_id config = None \<longleftrightarrow>
      (\<exists>auth strats. authenticator_new (env_tls env) (cf_outgoing_ca_certificates config)
          (cf_incoming_ca_certificates config) True = Ok auth \<and> strategies_init (env_quic env) config auth = Ok strats) \<and>
      cf_remote_peers config \<noteq> [] \<and> last_instant clk < now clk + cf_remote_registry_address_resolve_timeout config) \<and>
   (\<forall>st. context_new env clk ch local_id config = Some (Ok st) \<longrightarrow>
      connections (env_tls env) [] (nd_registry (sd_node st)) (nd_auth (sd_node st)) {#} \<and>
      registries (nd_registry (sd_node st)) =
        (if cf_remote_peers config = [] then [] else [RemoteProvider \<lparr>rr_find_peer_request = [], rr_handler_alive = True\<rparr>]) @
        (if cf_enable_mdns config = None then [] else [MdnsProvider \<lparr>mr_requests = [], mr_receiver_alive = True\<rparr>]) \<and>
      (sd_handler st = None \<longleftrightarrow> cf_remote_peers config = []) \<and> (sd_discovery st = None \<longleftrightarrow> cf_enable_mdns config = None) \<and>
      map nch_local_peer_identifier (cx_new_connection_handles (sd_context st)) = [pk_deref local_id])"
  by (intro conjI allI impI context_new_panics [unfolded resolve_pause_overflows_def] context_new_connections
      context_new_tasks)

theorem context_new_sound_witness:
  "\<exists>st. context_new demo_environment (documented_clock 0) demo_channels demo_hash demo_config = Some (Ok st) \<and>
     connections demo_tls [] (nd_registry (sd_node st)) (nd_auth (sd_node st)) {#} \<and>
     length (registries (nd_registry (sd_node st))) = 2 \<and> sd_handler st \<noteq> None \<and> sd_discovery st \<noteq> None"
proof -
  obtain st where st: "context_new demo_environment (documented_clock 0) demo_channels demo_hash demo_config = Some (Ok st)"
    using demo_context_starts by blast
  with context_new_sound [of demo_environment "documented_clock 0" demo_channels demo_hash demo_config] show ?thesis
    by (auto simp: demo_environment_def demo_config_def)
qed

text \<open>
  C5. A peer that is not connected is asked for at every registry, and the first registry that
  found it decides: its stream is the answer, its handle opens one, and a peer in the middle starts
  the hole punching towards the peer that was asked for. \<open>PeerNotFound\<close> is the answer when all of
  them failed, and not before.
\<close>

theorem create_search_outcome:
  assumes "inner_peer (nd_registry n) p = None" "cx_new_connection_handles cx = nch # nchs"
  shows "\<exists>s reg'. cx_create_connection_to_peer_with_custom_timeout ask (nd_registry n) cx p d =
      Some (Finding (FindSearch s) nch p (cx_local_peer_identifier cx) d, reg') \<and>
    registries reg' = map (ask p) (registries (nd_registry n)) \<and>
    (\<forall>rs. length rs \<le> length (registries (nd_registry n)) \<longrightarrow>
      (let r = create_connection_poll pq cdh cdb ifs clk m
           (Finding (FindSearch (fold fu_complete rs s)) nch p (cx_local_peer_identifier cx) d)
       in case find search_hit rs of
         Some (Ok (RFound stream)) \<Rightarrow> r = (Ok (Ready stream), m, Created)
       | Some (Ok (FoundWithHandle h)) \<Rightarrow> r = chosen_poll pq cdh cdb ifs clk m (Opening (new_stream pq h))
       | Some (Ok (FoundRemote h)) \<Rightarrow> r = chosen_poll pq cdh cdb ifs clk m
           (Building (build_connection_to_peer_new pq (cx_local_peer_identifier cx) p nch h d))
       | _ \<Rightarrow> (fst (snd r) = m \<and> fst r = (if length rs = length (registries (nd_registry n))
           then Err (Raised (PeerNotFound p)) else Ok NotReady))))"
proof -
  let ?F = "\<lambda>rs. FindSearch (fold fu_complete rs (search_new (registries (nd_registry n))))"
  let ?l = "cx_local_peer_identifier cx"
  have outcome: "let r = create_connection_poll pq cdh cdb ifs clk m (Finding (?F rs) nch p ?l d)
       in case find search_hit rs of
         Some (Ok (RFound stream)) \<Rightarrow> r = (Ok (Ready stream), m, Created)
       | Some (Ok (FoundWithHandle h)) \<Rightarrow> r = chosen_poll pq cdh cdb ifs clk m (Opening (new_stream pq h))
       | Some (Ok (FoundRemote h)) \<Rightarrow> r = chosen_poll pq cdh cdb ifs clk m
           (Building (build_connection_to_peer_new pq ?l p nch h d))
       | _ \<Rightarrow> (fst (snd r) = m \<and> fst r = (if length rs = length (registries (nd_registry n))
           then Err (Raised (PeerNotFound p)) else Ok NotReady))"
    if "length rs \<le> length (registries (nd_registry n))" for rs
  proof (cases "find search_hit rs")
    case None
    show ?thesis
    proof (cases "length rs = length (registries (nd_registry n))")
      case True
      with None find_poll_answers [OF that] have "fst (find_poll (?F rs)) = Ok (Ready RNotFound)" by simp
      with None True show ?thesis by (simp add: create_connection_found)
    next
      case False
      with None find_poll_answers [OF that] have "fst (find_poll (?F rs)) = Ok NotReady" by simp
      then show ?thesis using None False by (simp add: create_connection_waiting)
    qed
  next
    case (Some a)
    then have "search_hit a" by (auto simp: find_Some_iff)
    then obtain x where a: "a = Ok x" "x \<noteq> RNotFound" by (cases a) auto
    with Some find_poll_answers [OF that] have "fst (find_poll (?F rs)) = Ok (Ready x)" by simp
    with Some a show ?thesis by (cases x) (simp_all add: create_connection_found)
  qed
  then show ?thesis
    using assms(2)
    by (simp add: cx_create_connection_to_peer_with_custom_timeout_def create_connection_search [OF assms(1)])
qed

theorem create_search_outcome_witness:
  "\<exists>s. fst (create_connection_poll demo_picoquic (prompt_codec []) (prompt_codec []) [] (documented_clock 0) (demo_node [9])
      (Finding (FindSearch (fold fu_complete [Ok RNotFound, Err ()] s)) (demo_con_handle [1]) [2] [1] 4)) =
      Err (Raised (PeerNotFound [2]))"
proof -
  let ?n = "\<lparr>nd_registry = inner_new\<lparr>registries := [0, 0 :: nat]\<rparr>, nd_auth = demo_auth, nd_spawned = []\<rparr>"
  have "inner_peer (nd_registry ?n) [2] = None" by (simp add: inner_peer_def inner_new_def)
  from create_search_outcome [OF this, of demo_context "demo_con_handle [1]" "[]" "\<lambda>_ n. Suc n" 4 demo_picoquic "prompt_codec []"
      "prompt_codec []" "[]" "documented_clock 0" "demo_node [9]"]
  show ?thesis
    by (simp add: demo_context_def Let_def del: fold_simps)
      (elim exE conjE, drule spec [of _ "[Ok RNotFound, Err ()]"], simp, blast)
qed

text \<open>
  The inner task keeps the node sound: whatever connections arrive, the registry and the
  authenticator stay those of the connections that are alive, to which the accepted ones are added
  as running tasks, each of them with handles of this peer.
\<close>

theorem context_inner_keeps_node:
  assumes "connections T hs (nd_registry n) (nd_auth n) cs" "context_inner_poll i n = (p, i', n')"
  shows "\<exists>new. nd_spawned n' = nd_spawned n @ new \<and> connections T hs (nd_registry n') (nd_auth n') (cs + mset new) \<and>
    list_all (\<lambda>c. nch_local_peer_identifier (cn_new_con_handle c) = ci_local_peer_identifier i) new"
proof -
  have "n' = n \<or> (\<exists>q ss. accept_connections (ci_local_peer_identifier i) (ci_strategies i) n = (q, ss, n'))"
    using assms(2) by (auto simp: context_inner_poll_def Let_def split: option.splits prod.splits if_splits)
  then show ?thesis
  proof
    assume "n' = n"
    with assms(1) show ?thesis by (intro exI [of _ "[]"]) simp
  next
    assume "\<exists>q ss. accept_connections (ci_local_peer_identifier i) (ci_strategies i) n = (q, ss, n')"
    with accept_connections_node [OF _ assms(1)] show ?thesis by blast
  qed
qed

theorem context_inner_keeps_node_witness:
  "\<exists>(n :: (unit, unit) node) p i' n' new. context_inner_poll demo_inner n = (p, i', n') \<and>
     connections demo_tls [] (nd_registry n') (nd_auth n') (mset new)"
proof -
  let ?n = "\<lparr>nd_registry = inner_new :: unit inner, nd_auth = demo_auth, nd_spawned = []\<rparr>"
  have start: "connections demo_tls [] (nd_registry ?n) (nd_auth ?n) {#}"
    by (simp add: connections.start demo_auth_def)
  obtain p i' n' where run: "context_inner_poll demo_inner ?n = (p, i', n')" by (metis prod_cases3)
  from context_inner_keeps_node [OF start run] run show ?thesis by (intro exI [of _ ?n]) auto
qed

text \<open>
  C11. Every connection that arrives and whose key the handshake left behind is accepted: one poll
  takes all arrivals, spawns the connections in the order they came, named after their keys, and
  afterwards exactly their peers can be found in addition to those that could be found before. An
  arrival without a key is dropped, and the task goes on.
\<close>

theorem context_accepts_arrivals:
  assumes "ci_drop_handle i = Some []" "ci_strategies i = [s]"
    and "pqx_in (stw_context s) = map (\<lambda>c. Ok (Ready (Some c))) arrived" "distinct (map pqc_id arrived)"
  shows "\<exists>i' n' new. context_inner_poll i n = (Ok NotReady, i', n') \<and> nd_spawned n' = nd_spawned n @ new \<and>
    map cn_peer_identifier new = arriving_peers (nd_auth n) arrived \<and>
    (\<forall>p. has_peer (nd_registry n') p \<longleftrightarrow> has_peer (nd_registry n) p \<or> p \<in> set (arriving_peers (nd_auth n) arrived))"
proof -
  from accept_connections_all [OF assms(3,4)] obtain ss n' new where
    "accept_connections (ci_local_peer_identifier i) [s] n = (Ok NotReady, ss, n')" "nd_spawned n' = nd_spawned n @ new"
    "map cn_peer_identifier new = arriving_peers (nd_auth n) arrived" "\<forall>p. has_peer (nd_registry n') p \<longleftrightarrow> has_peer (nd_registry n) p \<or> p \<in> set (arriving_peers (nd_auth n) arrived)"
    by blast
  with assms(1,2) show ?thesis by (auto simp: context_inner_poll_def)
qed

theorem context_accepts_arrivals_witness:
  "\<exists>i' n' new. context_inner_poll demo_inner (demo_node [9]) = (Ok NotReady, i', n') \<and>
     map cn_peer_identifier new = [[9]] \<and> nd_spawned n' = new \<and> has_peer (nd_registry n') [9]"
proof -
  let ?cs = "[cw_con demo_connection, (cw_con demo_connection)\<lparr>pqc_id := 8\<rparr>]"
  have "arriving_peers (nd_auth (demo_node [9])) ?cs = [[9]]" by (simp add: demo_con_defs pk_deref_def)
  with context_accepts_arrivals [of demo_inner _ ?cs "demo_node [9]"] obtain i' n' new where
    "context_inner_poll demo_inner (demo_node [9]) = (Ok NotReady, i', n')" "nd_spawned n' = nd_spawned (demo_node [9]) @ new"
    "map cn_peer_identifier new = [[9]]" "has_peer (nd_registry n') [9]"
    by (auto simp: demo_inner_def context_inner_new_def demo_connection_def)
  then show ?thesis by (auto simp: demo_node_def)
qed

end
