(* ===== verification/System.thy ===== *)
theory System
  imports Context
begin

text \<open>
  The node as a whole: its tasks run in any order, and each of them works on the same registry
  and authenticator. The relation \<open>node_run\<close> has one rule per kind of task, with the task in
  any state; so what holds of every run holds for every schedule of the runtime.
\<close>

section \<open>What each task does to the node\<close>

lemma node_effects_connections:
  assumes "node_effect\<^sup>*\<^sup>* n n'" "connections T hs (nd_registry n) (nd_auth n) cs"
  shows "\<exists>new. nd_spawned n' = nd_spawned n @ new \<and> connections T hs (nd_registry n') (nd_auth n') (cs + mset new)"
  using assms(1)
proof (induction rule: rtranclp_induct)
  case base
  from assms(2) show ?case by (intro exI [of _ "[]"]) simp
next
  case (step n1 n2)
  then obtain new where new: "nd_spawned n1 = nd_spawned n @ new" "connections T hs (nd_registry n1) (nd_auth n1) (cs + mset new)"
    by blast
  from step.hyps(2) new(2) obtain more where "nd_spawned n2 = nd_spawned n1 @ more"
    "connections T hs (nd_registry n2) (nd_auth n2) (cs + mset new + mset more)"
    by (elim node_effect_connections)
  with new(1) show ?case by (intro exI [of _ "new @ more"]) (simp add: ac_simps)
qed

lemma cws_inner_effect: "cws_inner_poll pq cd clk n s = (p, n', s') \<Longrightarrow> node_effect\<^sup>*\<^sup>* n n'"
  by (auto simp: cws_inner_poll_def dest!: connect_node_effect
      split: option.splits prod.splits sum.splits async.splits)

lemma cws_effect: "connect_with_strategies_poll pq cd clk n s = (p, n', s') \<Longrightarrow> node_effect\<^sup>*\<^sup>* n n'"
  by (auto simp: connect_with_strategies_poll_def dest!: cws_inner_effect intro: rtranclp_trans
      split: option.splits prod.splits sum.splits async.splits fault.splits)

lemma handler_step_effect:
  assumes "handler_step R pq cdh cdr clk h = a"
    and "a = Stay h' \<or> a = Goto h' \<or> a = Finish u h' \<or> a = Fail e h'"
  shows "node_effect\<^sup>*\<^sup>* (h_node h) (h_node h')"
proof (cases "h_state h")
  case (RequestNextPeerAddr requests)
  with assms have "h_node h' = h_node h"
    by (auto simp: handler_step_def poll_request_next_peer_addr_def Let_def
        split: option.splits prod.splits sum.splits async.splits)
  then show ?thesis by simp
next
  case (HandleConnection connection)
  with assms have "h_node h' = h_node h"
    by (auto simp: handler_step_def poll_handle_connection_def Let_def
        split: option.splits prod.splits sum.splits async.splits fault.splits)
  then show ?thesis by simp
next
  case (ConnectToPeer connect requests)
  obtain p n c where cws: "connect_with_strategies_poll pq cdh clk (h_node h) connect = (p, n, c)" by (metis prod_cases3)
  with ConnectToPeer assms have "h_node h' = h_node h \<or> h_node h' = n"
    by (auto simp: handler_step_def poll_connect_to_peer_def Let_def
        split: if_splits option.splits prod.splits sum.splits async.splits fault.splits)
  with cws_effect [OF cws] show ?thesis by auto
qed

lemma handler_effect: "handler_poll R pq cdh cdr clk fuel h = Some (p, h') \<Longrightarrow> node_effect\<^sup>*\<^sup>* (h_node h) (h_node h')"
  unfolding handler_poll_def
proof (induction fuel arbitrary: h)
  case (Suc fuel)
  note step = handler_step_effect [OF refl, of R pq cdh cdr clk h]
  show ?case
  proof (cases "handler_step R pq cdh cdr clk h")
    case (Goto h1)
    with Suc step show ?thesis by (auto intro: rtranclp_trans)
  qed (use Suc.prems step in auto)
qed simp

lemma chosen_effect:
  assumes "chosen_poll pq cdh cdb ifs clk n st = (p, n', st')"
  shows "node_effect\<^sup>*\<^sup>* n n'"
proof (cases st)
  case (Building b)
  obtain q n1 b1 where build: "build_poll pq cdh cdb ifs clk (n, b) = (q, n1, b1)" by (metis prod_cases3)
  with assms Building have "n' = n1" by (auto split: sum.splits async.splits)
  with build_node_effect [OF build] show ?thesis by auto
next
  case (Opening f)
  with assms show ?thesis by (cases "new_stream_poll cdh f") (auto split: prod.splits sum.splits async.splits)
qed (use assms in auto)

lemma create_connection_effect:
  assumes "create_connection_poll pq cdh cdb ifs clk n st = (p, n', st')"
  shows "node_effect\<^sup>*\<^sup>* n n'"
proof (cases st)
  case (Finding f nch peer l d)
  obtain q f' where "find_poll f = (q, f')" by force
  with Finding assms show ?thesis
    by (auto simp: create_connection_poll_def dest: chosen_effect split: sum.splits async.splits)
qed (use assms in \<open>simp_all add: create_connection_poll_def chosen_effect del: chosen_poll.simps\<close>)

section \<open>The other registries are no part of the invariant\<close>

definition with_registries :: "'prov list \<Rightarrow> 'prov inner \<Rightarrow> 'prov inner" where
  "with_registries rs reg = reg\<lparr>registries := rs\<rparr>"

lemma with_registries_simps [simp]:
  "inner_peer (with_registries rs reg) = inner_peer reg" "connected_peers (with_registries rs reg) = connected_peers reg"
  "with_registries rs (with_registries rs' reg) = with_registries rs reg" "with_registries (registries reg) reg = reg"
  "registries (with_registries rs reg) = rs"
  by (simp_all add: with_registries_def inner_peer_def fun_eq_iff)

lemma register_with_registries:
  "register_peer p h (with_registries rs reg) = (case register_peer p h reg of (t, reg') \<Rightarrow> (t, with_registries rs reg'))"
  by (simp add: register_peer_def with_registries_def Let_def split: option.splits prod.splits)

lemma unregister_with_registries:
  "unregister_peer p t (with_registries rs reg) = with_registries rs (unregister_peer p t reg)"
  by (simp add: unregister_peer_def with_registries_def split: option.splits prod.splits)

lemma connection_new_with_registries:
  "connection_new con l nch (with_registries rs reg) auth =
     (case connection_new con l nch reg auth of (r, reg', auth') \<Rightarrow> (r, with_registries rs reg', auth'))"
  by (simp add: connection_new_def register_with_registries Let_def split: option.splits prod.splits)

lemma connection_poll_with_registries:
  "connection_poll cd clk c (with_registries rs reg) =
     (case connection_poll cd clk c reg of (sp, p, c', reg') \<Rightarrow> (sp, p, c', with_registries rs reg'))"
proof (induction "pqc_in (cw_con (cn_con c))" arbitrary: c)
  case Nil
  then show ?case by (simp add: connection_poll_other unregister_with_registries flip: Nil.hyps)
next
  case (Cons x t)
  show ?case
  proof (cases "\<exists>v. x = Ok (Ready (Some v))")
    case True
    then obtain v where "pqc_in (cw_con (cn_con c)) = Ok (Ready (Some v)) # t" using Cons.hyps(2) by metis
    with Cons.hyps(1) [of "c\<lparr>cn_con := (cn_con c)\<lparr>cw_con := (cw_con (cn_con c))\<lparr>pqc_in := t\<rparr>\<rparr>\<rparr>"] show ?thesis
      by (simp add: connection_poll_stream split: prod.splits)
  next
    case False
    then have "\<nexists>v t. pqc_in (cw_con (cn_con c)) = Ok (Ready (Some v)) # t" by (simp flip: Cons.hyps(2))
    then show ?thesis by (simp add: connection_poll_other unregister_with_registries)
  qed
qed

lemma connections_with_registries:
  "connections T hs reg auth cs \<Longrightarrow> connections T hs (with_registries rs reg) auth cs"
proof (induction rule: connections.induct)
  case (start reg auth)
  then show ?case by (intro connections.start) simp_all
next
  case (opened hs reg auth cs con l nch c reg' auth')
  then have "connection_new con l nch (with_registries rs reg) auth = (Ok c, with_registries rs reg', auth')"
    by (simp add: connection_new_with_registries)
  with opened.IH show ?case by (rule connections.opened)
next
  case (refused hs reg auth cs con l nch e reg' auth')
  then have "connection_new con l nch (with_registries rs reg) auth = (Err e, with_registries rs reg', auth')"
    by (simp add: connection_new_with_registries)
  with refused.IH show ?case by (rule connections.refused)
next
  case (polled hs reg auth c cs cd clk sp c' reg')
  then have "connection_poll cd clk c (with_registries rs reg) = (sp, Ok NotReady, c', with_registries rs reg')"
    by (simp add: connection_poll_with_registries)
  with polled.IH show ?case by (rule connections.polled)
next
  case (ended hs reg auth c cs cd clk sp c' reg')
  then have "connection_poll cd clk c (with_registries rs reg) = (sp, Ok (Ready ()), c', with_registries rs reg')"
    by (simp add: connection_poll_with_registries)
  with ended.IH show ?case by (rule connections.ended)
qed (rule connections.handshake)

section \<open>Runs of a node\<close>

definition spawned_by :: "('prov, 'store) node \<Rightarrow> ('prov, 'store) node \<Rightarrow> connection multiset" where
  "spawned_by n n' = mset (drop (length (nd_spawned n)) (nd_spawned n'))"

text \<open>A node and the connections that are alive in it.\<close>

inductive node_run ::
  "('cert, 'pkey, 'builder, 'store, 'qc, 'ff, 'u, 'c) environment \<Rightarrow> 'cert handshake list \<Rightarrow>
     (provider, 'store) node \<Rightarrow> connection multiset \<Rightarrow> bool"
  for env where
  start: "context_new env clk ch local_id config = Some (Ok st) \<Longrightarrow> node_run env [] (sd_node st) {#}"
| handshake: "node_run env hs n cs \<Longrightarrow> verify (env_tls env) cid ty cert chain (nd_auth n) = Some (r, auth) \<Longrightarrow>
    node_run env ((cid, cert, r) # hs) (n\<lparr>nd_auth := auth\<rparr>) cs"
| inner_task: "node_run env hs n cs \<Longrightarrow> context_inner_poll i n = (p, i', n') \<Longrightarrow> node_run env hs n' (cs + spawned_by n n')"
| connection_waits: "node_run env hs n (add_mset c cs) \<Longrightarrow>
    connection_poll cd clk c (nd_registry n) = (streams, Ok NotReady, c', reg) \<Longrightarrow>
    node_run env hs (n\<lparr>nd_registry := reg\<rparr>) (add_mset c' cs)"
| connection_ends: "node_run env hs n (add_mset c cs) \<Longrightarrow>
    connection_poll cd clk c (nd_registry n) = (streams, Ok (Ready ()), c', reg) \<Longrightarrow>
    node_run env hs (n\<lparr>nd_registry := reg\<rparr>) cs"
| search: "node_run env hs n cs \<Longrightarrow> create_connection_to_peer ask peer nchs (nd_registry n) local_id d = Some (f, reg) \<Longrightarrow>
    node_run env hs (n\<lparr>nd_registry := reg\<rparr>) cs"
| reach: "node_run env hs n cs \<Longrightarrow> create_connection_poll pq cdh cdb ifs clk n f = (r', n', f') \<Longrightarrow>
    node_run env hs n' (cs + spawned_by n n')"
| remote_registry: "node_run env hs (h_node h) cs \<Longrightarrow> handler_poll (env_resolving env) pq cdh cdr clk fuel h = Some (q, h') \<Longrightarrow>
    node_run env hs (h_node h') (cs + spawned_by (h_node h) (h_node h'))"
| local_network: "node_run env hs n cs \<Longrightarrow> connect_with_strategies_poll pq cdh clk n s = (r', n', s') \<Longrightarrow>
    node_run env hs n' (cs + spawned_by n n')"
| dropped: "node_run env hs n cs \<Longrightarrow> node_run env hs (context_drop n) cs"

lemma spawned_by_append: "nd_spawned n' = nd_spawned n @ new \<Longrightarrow> spawned_by n n' = mset new"
  by (simp add: spawned_by_def)

lemma effects_spawned:
  assumes "node_effect\<^sup>*\<^sup>* n n'" "connections T hs (nd_registry n) (nd_auth n) cs"
  shows "connections T hs (nd_registry n') (nd_auth n') (cs + spawned_by n n')"
  using node_effects_connections [OF assms] by (auto simp: spawned_by_append)

lemma inner_poll_spawned:
  assumes "context_inner_poll i n = (p, i', n')" "connections T hs (nd_registry n) (nd_auth n) cs"
  shows "connections T hs (nd_registry n') (nd_auth n') (cs + spawned_by n n')"
  using context_inner_keeps_node [OF assms(2,1)] by (auto simp: spawned_by_append)

lemma create_connection_registry:
  "create_connection_to_peer ask peer nchs reg l d = Some (f, reg') \<Longrightarrow> \<exists>rs. reg' = with_registries rs reg"
proof -
  assume "create_connection_to_peer ask peer nchs reg l d = Some (f, reg')"
  then have "reg' = with_registries (registries reg) reg \<or> reg' = with_registries (map (ask peer) (registries reg)) reg"
    by (auto simp: create_connection_to_peer_def find_peer_def with_registries_def split: list.splits option.splits prod.splits)
  then show ?thesis by blast
qed

lemma node_run_connections:
  "node_run env hs n cs \<Longrightarrow> connections (env_tls env) hs (nd_registry n) (nd_auth n) cs"
proof (induction rule: node_run.induct)
  case (start clk ch local_id config st)
  then show ?case by (rule context_new_connections)
next
  case (handshake hs n cs cid ty cert chain r auth)
  from connections.handshake [OF handshake.IH handshake.hyps(2)] show ?case by simp
next
  case (inner_task hs n cs i p i' n')
  from inner_poll_spawned [OF inner_task.hyps(2) inner_task.IH] show ?case .
next
  case (connection_waits hs n c cs cd clk streams c' reg)
  from connections.polled [OF connection_waits.IH connection_waits.hyps(2)] show ?case by simp
next
  case (connection_ends hs n c cs cd clk streams c' reg)
  from connections.ended [OF connection_ends.IH connection_ends.hyps(2)] show ?case by simp
next
  case (search hs n cs ask peer nchs local_id d f reg)
  with create_connection_registry [OF search.hyps(2)] show ?case by (auto intro: connections_with_registries)
next
  case (reach hs n cs pq cdh cdb ifs clk f r' n' f')
  from effects_spawned [OF create_connection_effect [OF reach.hyps(2)] reach.IH] show ?case .
next
  case (remote_registry hs h cs pq cdh cdr clk fuel q h')
  from effects_spawned [OF handler_effect [OF remote_registry.hyps(2)] remote_registry.IH] show ?case .
next
  case (local_network hs n cs pq cdh clk s r' n' s')
  from effects_spawned [OF cws_effect [OF local_network.hyps(2)] local_network.IH] show ?case .
next
  case (dropped hs n cs)
  then have "connections (env_tls env) hs (with_registries [] (nd_registry n)) (nd_auth n) cs"
    by (intro connections_with_registries)
  then show ?case by (simp add: context_drop_def context_being_dropped_def with_registries_def)
qed

section \<open>Properties\<close>

text \<open>
  C8. In every state a node can reach, however its tasks are scheduled, the registry tells the
  truth: a handle it returns opens direct streams on a connection that is alive and leads to the
  peer it was asked for. Every live connection is named after its own handshake: the node was
  presented, on this very connection, a certificate whose public key hashes to the name.
\<close>

theorem node_registry_sound:
  assumes "node_run env hs n cs" "inner_peer (nd_registry n) p = Some h"
  shows "(\<exists>c. c \<in># cs \<and> cn_peer_identifier c = p \<and> cn_new_stream_handle c = h \<and>
      nsw_con_id (nsh_new_stream_handle h) = con_connection_id (cn_con c) \<and>
      authenticated (env_tls env) hs (con_connection_id (cn_con c)) p) \<and>
    nsh_peer_identifier h = p \<and> \<not> nsh_proxy_stream h \<and>
    (\<forall>c. c \<in># cs \<longrightarrow> authenticated (env_tls env) hs (con_connection_id (cn_con c)) (cn_peer_identifier c))"
proof -
  note conns = node_run_connections [OF assms(1)]
  obtain c where "c \<in># cs" "con_handle_ok c" "con_registration c = (p, h, cn_registration_token c)"
    using registered_connection [OF conns assms(2)] by blast
  with connections_authenticated [OF conns] show ?thesis by (auto simp: con_handle_ok_def con_registration_def)
qed

lemma demo_run:
  "\<exists>b n cs h. node_run demo_environment [(7, [5], Ok b)] n cs \<and> inner_peer (nd_registry n) [5] = Some h"
proof -
  obtain st where "context_new demo_environment (documented_clock 0) demo_channels demo_hash demo_config = Some (Ok st)"
    using demo_context_starts by blast
  then have start: "node_run demo_environment [] (sd_node st) {#}" by (rule node_run.start)
  let ?n = "sd_node st"
  have "\<exists>b auth k. verify (env_tls demo_environment) 7 Incoming [5] [] (nd_auth ?n) = Some (Ok b, auth) \<and>
      incoming_con_pub_keys auth 7 = Some k \<and> pk_deref k = [5]"
    by (cases "incoming_certificates (nd_auth ?n)")
      (auto simp: verify_unfold trust_answer_def demo_tls_def demo_environment_def from_public_key_def
        from_public_key_der_def from_hashed_checked_def EVP_MAX_MD_SIZE_def add_incoming_con_pub_key_def pk_deref_def
        copy_prefix_def)
  then obtain b auth k where v: "verify (env_tls demo_environment) 7 Incoming [5] [] (nd_auth ?n) = Some (Ok b, auth)"
    and key: "incoming_con_pub_keys auth 7 = Some k" "pk_deref k = [5]" by blast
  let ?n1 = "?n\<lparr>nd_auth := auth\<rparr>"
  have run: "node_run demo_environment [(7, [5], Ok b)] ?n1 {#}" by (rule node_run.handshake [OF start v])
  let ?cs = "[cw_con demo_connection, (cw_con demo_connection)\<lparr>pqc_id := 8\<rparr>]"
  obtain p i' n' where poll: "context_inner_poll demo_inner ?n1 = (p, i', n')" by (metis prod_cases3)
  have "[5] \<in> set (arriving_peers (nd_auth ?n1) ?cs)" using key by (auto simp: demo_connection_def split: option.splits)
  moreover obtain s where s: "ci_strategies demo_inner = [s]"
    "pqx_in (stw_context s) = map (\<lambda>c. Ok (Ready (Some c))) ?cs" "ci_drop_handle demo_inner = Some []"
    by (simp add: demo_inner_def context_inner_new_def)
  ultimately have "has_peer (nd_registry n') [5]"
    using accept_connections_all [OF s(2), of "ci_local_peer_identifier demo_inner" ?n1] poll s(1,3)
    by (auto simp: context_inner_poll_def demo_connection_def)
  with node_run.inner_task [OF run poll] show ?thesis by (auto simp: has_peer_iff)
qed

theorem node_registry_sound_witness:
  "\<exists>b n cs h. node_run demo_environment [(7, [5], Ok b)] n cs \<and> inner_peer (nd_registry n) [5] = Some h \<and>
     (\<exists>c. c \<in># cs \<and> cn_peer_identifier c = [5] \<and>
       authenticated demo_tls [(7, [5], Ok b)] (con_connection_id (cn_con c)) [5])"
proof -
  obtain b n cs h where run: "node_run demo_environment [(7, [5], Ok b)] n cs" "inner_peer (nd_registry n) [5] = Some h"
    using demo_run by blast
  have "env_tls demo_environment = demo_tls" by (simp add: demo_environment_def)
  with node_registry_sound [OF run] run show ?thesis by metis
qed

end
