(* ===== verification/Shared.thy ===== *)
theory Shared
  imports Context
begin

text \<open>
  The handles of \<^verbatim>\<open>registry.rs\<close> and \<^verbatim>\<open>authenticator.rs\<close>: \<^verbatim>\<open>Arc<Mutex<Inner>>\<close>, cloned into every
  task. A store holds the mutexes, a handle is an address in it, and a clone is the same
  address. A call locks the mutex, works on the value and unlocks it; a panic in between leaves
  the mutex poisoned, and \<^verbatim>\<open>lock().unwrap()\<close> on a poisoned mutex panics.
\<close>

section \<open>Mutexes\<close>

record 'a mutex =
  mx_value :: 'a
  mx_poisoned :: bool

type_synonym 'a store = "'a mutex list"

text \<open>How a call ends.\<close>

datatype 'r outcome = Returns 'r | Panics

definition arc_new :: "'a \<Rightarrow> 'a store \<Rightarrow> nat \<times> 'a store" where
  "arc_new v st = (length st, st @ [\<lparr>mx_value = v, mx_poisoned = False\<rparr>])"

text \<open>
  \<^verbatim>\<open>self.inner.lock().unwrap()\<close> around a call \<open>f\<close> that answers or panics. An address out of range
  cannot come up, a handle keeps its mutex alive; it is counted as a panic.
\<close>

definition with_lock :: "nat \<Rightarrow> ('a \<Rightarrow> 'r outcome \<times> 'a) \<Rightarrow> 'a store \<Rightarrow> 'r outcome \<times> 'a store" where
  "with_lock a f st =
     (if a < length st \<and> \<not> mx_poisoned (st ! a)
      then (case f (mx_value (st ! a)) of (r, v) \<Rightarrow> (r, st[a := \<lparr>mx_value = v, mx_poisoned = (r = Panics)\<rparr>]))
      else (Panics, st))"

text \<open>A call that only reads, and one that cannot panic.\<close>

definition reading :: "('a \<Rightarrow> 'r) \<Rightarrow> 'a \<Rightarrow> 'r outcome \<times> 'a" where
  "reading f v = (Returns (f v), v)"

definition writing :: "('a \<Rightarrow> 'r \<times> 'a) \<Rightarrow> 'a \<Rightarrow> 'r outcome \<times> 'a" where
  "writing f v = (case f v of (r, v') \<Rightarrow> (Returns r, v'))"

section \<open>The registry\<close>

datatype registry = Registry nat

fun registry_inner :: "registry \<Rightarrow> nat" where
  "registry_inner (Registry a) = a"

definition registry_new :: "'prov inner store \<Rightarrow> registry \<times> 'prov inner store" where
  "registry_new st = (case arc_new inner_new st of (a, st') \<Rightarrow> (Registry a, st'))"

definition registry_peer ::
  "registry \<Rightarrow> peer_id \<Rightarrow> 'prov inner store \<Rightarrow> new_stream_handle option outcome \<times> 'prov inner store" where
  "registry_peer r peer = with_lock (registry_inner r) (reading (\<lambda>i. inner_peer i peer))"

definition registry_has_peer :: "registry \<Rightarrow> peer_id \<Rightarrow> 'prov inner store \<Rightarrow> bool outcome \<times> 'prov inner store" where
  "registry_has_peer r peer = with_lock (registry_inner r) (reading (\<lambda>i. has_peer i peer))"

definition registry_register_peer ::
  "registry \<Rightarrow> peer_id \<Rightarrow> new_stream_handle \<Rightarrow> 'prov inner store \<Rightarrow>
     registration_token outcome \<times> 'prov inner store" where
  "registry_register_peer r peer h = with_lock (registry_inner r) (writing (register_peer peer h))"

definition registry_unregister_peer ::
  "registry \<Rightarrow> peer_id \<Rightarrow> registration_token \<Rightarrow> 'prov inner store \<Rightarrow> unit outcome \<times> 'prov inner store" where
  "registry_unregister_peer r peer token =
     with_lock (registry_inner r) (writing (\<lambda>i. ((), unregister_peer peer token i)))"

definition registry_add_registry_provider ::
  "registry \<Rightarrow> 'prov \<Rightarrow> 'prov inner store \<Rightarrow> unit outcome \<times> 'prov inner store" where
  "registry_add_registry_provider r provider =
     with_lock (registry_inner r) (writing (\<lambda>i. ((), add_registry_provider provider i)))"

definition registry_context_being_dropped :: "registry \<Rightarrow> 'prov inner store \<Rightarrow> unit outcome \<times> 'prov inner store" where
  "registry_context_being_dropped r = with_lock (registry_inner r) (writing (\<lambda>i. ((), context_being_dropped i)))"

text \<open>
  The search asks the providers one after the other, under the lock; \<open>ask\<close> is the call of
  \<^verbatim>\<open>find_peer\<close> on a provider, \<open>None\<close> its panic. The providers before the one that panics have been
  asked.
\<close>

fun ask_all :: "('prov \<Rightarrow> 'prov option) \<Rightarrow> 'prov list \<Rightarrow> unit outcome \<times> 'prov list" where
  "ask_all ask [] = (Returns (), [])"
| "ask_all ask (r # rs) = (case ask r of
     None \<Rightarrow> (Panics, r # rs)
   | Some r' \<Rightarrow> (case ask_all ask rs of (p, rs') \<Rightarrow> (p, r' # rs')))"

definition inner_find_peer ::
  "(peer_id \<Rightarrow> 'prov \<Rightarrow> 'prov option) \<Rightarrow> peer_id \<Rightarrow> 'prov inner \<Rightarrow> find_future outcome \<times> 'prov inner" where
  "inner_find_peer ask peer i = (case connected_peers i peer of
     Some (h, _) \<Rightarrow> (Returns (FindOk (FoundWithHandle h)), i)
   | None \<Rightarrow> (case ask_all (ask peer) (registries i) of (p, rs) \<Rightarrow>
       (case p of Returns _ \<Rightarrow> Returns (FindSearch (search_new (registries i))) | Panics \<Rightarrow> Panics, i\<lparr>registries := rs\<rparr>)))"

definition registry_find_peer ::
  "(peer_id \<Rightarrow> 'prov \<Rightarrow> 'prov option) \<Rightarrow> registry \<Rightarrow> peer_id \<Rightarrow> 'prov inner store \<Rightarrow>
     find_future outcome \<times> 'prov inner store" where
  "registry_find_peer ask r peer = with_lock (registry_inner r) (inner_find_peer ask peer)"

section \<open>The authenticator\<close>

datatype authenticator = Authenticator nat

fun authenticator_inner :: "authenticator \<Rightarrow> nat" where
  "authenticator_inner (Authenticator a) = a"

definition authenticator_handle_new ::
  "('cert, 'pkey, 'builder, 'store) tls \<Rightarrow> string list option \<Rightarrow> string list option \<Rightarrow> bool \<Rightarrow>
     'store auth_inner store \<Rightarrow> (error + authenticator) \<times> 'store auth_inner store" where
  "authenticator_handle_new T server_certs client_certs store_orig st =
     (case authenticator_new T server_certs client_certs store_orig of
        Err e \<Rightarrow> (Err e, st)
      | Ok i \<Rightarrow> (case arc_new i st of (a, st') \<Rightarrow> (Ok (Authenticator a), st')))"

definition authenticator_incoming_con_pub_key ::
  "authenticator \<Rightarrow> connection_wrapper \<Rightarrow> 'store auth_inner store \<Rightarrow>
     pub_key_hash option outcome \<times> 'store auth_inner store" where
  "authenticator_incoming_con_pub_key a con =
     with_lock (authenticator_inner a) (writing (incoming_con_pub_key (con_connection_id con)))"

definition authenticator_verify ::
  "('cert, 'pkey, 'builder, 'store) tls \<Rightarrow> authenticator \<Rightarrow> connection_id \<Rightarrow> connection_type \<Rightarrow> 'cert \<Rightarrow> 'cert list \<Rightarrow>
     'store auth_inner store \<Rightarrow> (string + bool) outcome \<times> 'store auth_inner store" where
  "authenticator_verify T a cid con_type cert chain = with_lock (authenticator_inner a) (\<lambda>i.
     case verify T cid con_type cert chain i of
       None \<Rightarrow> (Panics, i)
     | Some (r, i') \<Rightarrow> (Returns r, i'))"

section \<open>Lemmas\<close>

lemma with_lock_healthy:
  assumes "a < length st" "\<not> mx_poisoned (st ! a)" "f (mx_value (st ! a)) = (r, v)"
  shows "with_lock a f st = (r, st[a := \<lparr>mx_value = v, mx_poisoned = (r = Panics)\<rparr>])"
  using assms by (simp add: with_lock_def)

lemma with_lock_poisoned: "mx_poisoned (st ! a) \<Longrightarrow> with_lock a f st = (Panics, st)"
  by (simp add: with_lock_def)

lemma with_lock_length [simp]: "length (snd (with_lock a f st)) = length st"
  by (simp add: with_lock_def split: prod.splits)

lemma with_lock_other: "b \<noteq> a \<Longrightarrow> snd (with_lock a f st) ! b = st ! b"
  by (simp add: with_lock_def split: prod.splits)

lemma ask_all_total: "(\<And>r. r \<in> set rs \<Longrightarrow> ask r = Some (f r)) \<Longrightarrow> ask_all ask rs = (Returns (), map f rs)"
  by (induction rs) simp_all

lemma ask_all_panics: "r \<in> set rs \<Longrightarrow> ask r = None \<Longrightarrow> fst (ask_all ask rs) = Panics"
  by (induction rs) (auto split: option.splits prod.splits)

text \<open>The search under the lock is the search of the registry, as long as no provider panics.\<close>

lemma inner_find_peer_total:
  assumes "\<And>r. r \<in> set (registries i) \<Longrightarrow> ask peer r = Some (f peer r)"
  shows "inner_find_peer ask peer i = (case find_peer f peer i of (x, i') \<Rightarrow> (Returns x, i'))"
  using ask_all_total [of "registries i" "ask peer" "f peer"] assms
  by (auto simp: inner_find_peer_def find_peer_def split: option.splits)

section \<open>Sequences of calls\<close>

text \<open>Calls through many handles, one after the other, with their answers.\<close>

fun calls ::
  "('h \<Rightarrow> 'c \<Rightarrow> 'a store \<Rightarrow> 'x outcome \<times> 'a store) \<Rightarrow> ('h \<times> 'c) list \<Rightarrow> 'a store \<Rightarrow>
     ('h \<times> 'x outcome) list \<times> 'a store" where
  "calls call [] st = ([], st)"
| "calls call ((h, c) # cs) st = (case call h c st of (x, st1) \<Rightarrow>
     (case calls call cs st1 of (xs, st2) \<Rightarrow> ((h, x) # xs, st2)))"

text \<open>Calls on a value of one's own, up to the first that panics.\<close>

fun calls_own ::
  "('c \<Rightarrow> 'a \<Rightarrow> 'x outcome \<times> 'a) \<Rightarrow> 'c list \<Rightarrow> 'a \<Rightarrow> 'x outcome list \<times> 'a" where
  "calls_own own [] v = ([], v)"
| "calls_own own (c # cs) v = (case own c v of
     (Panics, v') \<Rightarrow> (Panics # map (\<lambda>_. Panics) cs, v')
   | (Returns x, v') \<Rightarrow> (case calls_own own cs v' of (xs, v'') \<Rightarrow> (Returns x # xs, v'')))"

text \<open>The part of a sequence that concerns one handle and its clones.\<close>

definition on_handle :: "'h \<Rightarrow> ('h \<times> 'x) list \<Rightarrow> 'x list" where
  "on_handle h xs = map snd (filter (\<lambda>x. fst x = h) xs)"

lemma on_handle_simps [simp]:
  "on_handle h [] = []" "on_handle h ((h', x) # xs) = (if h' = h then x # on_handle h xs else on_handle h xs)"
  by (simp_all add: on_handle_def)

text \<open>
  What the users of a handle rely on: a call through a handle \<open>h\<close> is the call \<open>own c\<close> on the
  value, under the lock of the mutex at \<open>addr h\<close>, and different handles (not clones) have
  different mutexes.
\<close>

locale locked_calls =
  fixes addr :: "'h \<Rightarrow> nat"
    and call :: "'h \<Rightarrow> 'c \<Rightarrow> 'a store \<Rightarrow> 'x outcome \<times> 'a store"
    and own :: "'c \<Rightarrow> 'a \<Rightarrow> 'x outcome \<times> 'a"
  assumes call_locks: "call h c st = with_lock (addr h) (own c) st"
    and addr_inj: "addr h = addr h' \<Longrightarrow> h = h'"
begin

lemma calls_poisoned:
  "mx_poisoned (st ! addr r) \<Longrightarrow> calls call cs st = (xs, st') \<Longrightarrow>
     on_handle r xs = map (\<lambda>_. Panics) (on_handle r cs) \<and> st' ! addr r = st ! addr r"
proof (induction cs arbitrary: st xs)
  case (Cons rc cs)
  obtain r' c where rc: "rc = (r', c)" by force
  obtain x st1 where c: "call r' c st = (x, st1)" by force
  with Cons.prems rc obtain ys where rest: "calls call cs st1 = (ys, st')" "xs = (r', x) # ys"
    by (auto split: prod.splits)
  have same: "st1 ! addr r = st ! addr r" "r' = r \<longrightarrow> x = Panics"
    using c Cons.prems(1) with_lock_other [of "addr r" "addr r'" "own c" st]
    by (cases "addr r' = addr r"; auto simp: call_locks with_lock_poisoned)+
  with Cons.IH [OF _ rest(1)] Cons.prems(1) rest(2) rc show ?case by auto
qed simp

lemma calls_linear:
  "addr r < length st \<Longrightarrow> \<not> mx_poisoned (st ! addr r) \<Longrightarrow> calls call cs st = (xs, st') \<Longrightarrow>
     calls_own own (on_handle r cs) (mx_value (st ! addr r)) = (on_handle r xs, mx_value (st' ! addr r))"
proof (induction cs arbitrary: st xs)
  case (Cons rc cs)
  obtain r' c where rc: "rc = (r', c)" by force
  obtain x st1 where c: "call r' c st = (x, st1)" by force
  with Cons.prems(3) rc obtain ys where rest: "calls call cs st1 = (ys, st')" "xs = (r', x) # ys"
    by (auto split: prod.splits)
  have len: "length st1 = length st"
    using c with_lock_length [of "addr r'" "own c" st] by (simp add: call_locks)
  show ?case
  proof (cases "r' = r")
    case False
    then have "addr r \<noteq> addr r'" using addr_inj by blast
    with c with_lock_other [OF this, of "own c" st] have "st1 ! addr r = st ! addr r" by (simp add: call_locks)
    with Cons.IH [OF _ _ rest(1)] Cons.prems(1,2) len rc rest(2) False show ?thesis by simp
  next
    case True
    obtain y v where y: "own c (mx_value (st ! addr r)) = (y, v)" by force
    with c True Cons.prems(1,2) have st1: "x = y" "st1 ! addr r = \<lparr>mx_value = v, mx_poisoned = (y = Panics)\<rparr>"
      by (auto simp: call_locks with_lock_healthy)
    show ?thesis
    proof (cases y)
      case Panics
      with st1 calls_poisoned [OF _ rest(1), of r] rc rest(2) True y show ?thesis by simp
    next
      case (Returns z)
      with st1 Cons.IH [OF _ _ rest(1)] Cons.prems(1) len rc rest(2) True y show ?thesis by (simp split: prod.splits)
    qed
  qed
qed simp

end

section \<open>The calls of a registry\<close>

datatype 'prov registry_call =
    CallPeer peer_id
  | CallHasPeer peer_id
  | CallRegisterPeer peer_id new_stream_handle
  | CallUnregisterPeer peer_id registration_token
  | CallAddProvider 'prov
  | CallContextBeingDropped
  | CallFindPeer peer_id

datatype call_answer =
    AnswerPeer "new_stream_handle option"
  | AnswerHasPeer bool
  | AnswerToken registration_token
  | AnswerUnit
  | AnswerFind find_future

definition answered :: "('r \<Rightarrow> 'x) \<Rightarrow> 'r outcome \<times> 's \<Rightarrow> 'x outcome \<times> 's" where
  "answered f p = map_prod (map_outcome f) id p"

fun call_registry ::
  "(peer_id \<Rightarrow> 'prov \<Rightarrow> 'prov option) \<Rightarrow> registry \<Rightarrow> 'prov registry_call \<Rightarrow> 'prov inner store \<Rightarrow>
     call_answer outcome \<times> 'prov inner store" where
  "call_registry ask r (CallPeer p) st = answered AnswerPeer (registry_peer r p st)"
| "call_registry ask r (CallHasPeer p) st = answered AnswerHasPeer (registry_has_peer r p st)"
| "call_registry ask r (CallRegisterPeer p h) st = answered AnswerToken (registry_register_peer r p h st)"
| "call_registry ask r (CallUnregisterPeer p t) st = answered (\<lambda>_. AnswerUnit) (registry_unregister_peer r p t st)"
| "call_registry ask r (CallAddProvider prov) st = answered (\<lambda>_. AnswerUnit) (registry_add_registry_provider r prov st)"
| "call_registry ask r CallContextBeingDropped st = answered (\<lambda>_. AnswerUnit) (registry_context_being_dropped r st)"
| "call_registry ask r (CallFindPeer p) st = answered AnswerFind (registry_find_peer ask r p st)"

text \<open>The same calls on a registry of one's own.\<close>

fun call_inner ::
  "(peer_id \<Rightarrow> 'prov \<Rightarrow> 'prov option) \<Rightarrow> 'prov registry_call \<Rightarrow> 'prov inner \<Rightarrow> call_answer outcome \<times> 'prov inner" where
  "call_inner ask (CallPeer p) i = (Returns (AnswerPeer (inner_peer i p)), i)"
| "call_inner ask (CallHasPeer p) i = (Returns (AnswerHasPeer (has_peer i p)), i)"
| "call_inner ask (CallRegisterPeer p h) i = (case register_peer p h i of (t, i') \<Rightarrow> (Returns (AnswerToken t), i'))"
| "call_inner ask (CallUnregisterPeer p t) i = (Returns AnswerUnit, unregister_peer p t i)"
| "call_inner ask (CallAddProvider prov) i = (Returns AnswerUnit, add_registry_provider prov i)"
| "call_inner ask CallContextBeingDropped i = (Returns AnswerUnit, context_being_dropped i)"
| "call_inner ask (CallFindPeer p) i = (case inner_find_peer ask p i of (x, i') \<Rightarrow> (map_outcome AnswerFind x, i'))"

lemma map_outcome_Panics [simp]: "map_outcome f x = Panics \<longleftrightarrow> x = Panics"
  by (cases x) simp_all

lemma answered_with_lock: "answered f (with_lock a g st) = with_lock a (\<lambda>v. answered f (g v)) st"
  by (simp add: answered_def with_lock_def split: prod.splits)

lemma call_registry_lock: "call_registry ask r c st = with_lock (registry_inner r) (call_inner ask c) st"
  by (cases c)
    (simp_all add: registry_peer_def registry_has_peer_def registry_register_peer_def registry_unregister_peer_def
      registry_add_registry_provider_def registry_context_being_dropped_def registry_find_peer_def
      answered_with_lock reading_def writing_def answered_def with_lock_def split: prod.splits)

interpretation rc: locked_calls registry_inner "call_registry ask" "call_inner ask" for ask
proof unfold_locales
  show "registry_inner r = registry_inner r' \<Longrightarrow> r = r'" for r r' by (cases r; cases r') simp
qed (rule call_registry_lock)

text \<open>The calls of an authenticator; \<^verbatim>\<open>verify\<close> is the callback of the transport.\<close>

datatype 'cert auth_call =
    CallIncomingConPubKey connection_wrapper
  | CallVerify connection_id connection_type 'cert "'cert list"

datatype auth_answer =
    AnswerPubKey "pub_key_hash option"
  | AnswerVerify "string + bool"

fun call_authenticator ::
  "('cert, 'pkey, 'builder, 'store) tls \<Rightarrow> authenticator \<Rightarrow> 'cert auth_call \<Rightarrow> 'store auth_inner store \<Rightarrow>
     auth_answer outcome \<times> 'store auth_inner store" where
  "call_authenticator T a (CallIncomingConPubKey con) st = answered AnswerPubKey (authenticator_incoming_con_pub_key a con st)"
| "call_authenticator T a (CallVerify cid ty cert chain) st = answered AnswerVerify (authenticator_verify T a cid ty cert chain st)"

fun call_auth_inner ::
  "('cert, 'pkey, 'builder, 'store) tls \<Rightarrow> 'cert auth_call \<Rightarrow> 'store auth_inner \<Rightarrow>
     auth_answer outcome \<times> 'store auth_inner" where
  "call_auth_inner T (CallIncomingConPubKey con) i =
     (case incoming_con_pub_key (con_connection_id con) i of (k, i') \<Rightarrow> (Returns (AnswerPubKey k), i'))"
| "call_auth_inner T (CallVerify cid ty cert chain) i = (case verify T cid ty cert chain i of
     None \<Rightarrow> (Panics, i)
   | Some (r, i') \<Rightarrow> (Returns (AnswerVerify r), i'))"

lemma call_authenticator_lock:
  "call_authenticator T a c st = with_lock (authenticator_inner a) (call_auth_inner T c) st"
  by (cases c)
    (simp_all add: authenticator_incoming_con_pub_key_def authenticator_verify_def answered_with_lock writing_def
      answered_def with_lock_def split: prod.splits option.splits)

interpretation ac: locked_calls authenticator_inner "call_authenticator T" "call_auth_inner T" for T
proof unfold_locales
  show "authenticator_inner a = authenticator_inner a' \<Longrightarrow> a = a'" for a a' by (cases a; cases a') simp
qed (rule call_authenticator_lock)

text \<open>A provider that panics under the search takes the registry with it.\<close>

lemma inner_find_peer_panics:
  assumes "connected_peers i peer = None" "r \<in> set (registries i)" "ask peer r = None"
  shows "\<exists>rs. inner_find_peer ask peer i = (Panics, i\<lparr>registries := rs\<rparr>)"
  using ask_all_panics [of r "registries i" "ask peer", OF assms(2,3)] assms(1)
  by (cases "ask_all (ask peer) (registries i)") (auto simp: inner_find_peer_def)

fun auth_call_connection :: "'cert auth_call \<Rightarrow> connection_id" where
  "auth_call_connection (CallIncomingConPubKey con) = con_connection_id con"
| "auth_call_connection (CallVerify cid ty cert chain) = cid"

text \<open>A call for one connection leaves the keys of the others alone.\<close>

lemma call_auth_inner_other:
  assumes "call_auth_inner T c i = (x, i')" "auth_call_connection c \<noteq> cid"
  shows "incoming_con_pub_keys i' cid = incoming_con_pub_keys i cid"
  using assms by (cases c) (auto simp: verify_unfold add_incoming_con_pub_key_def incoming_con_pub_key_def
      split: option.splits sum.splits)

lemma calls_own_keep_key:
  assumes "calls_own (call_auth_inner T) cs i = (xs, i')" "\<forall>c\<in>set cs. auth_call_connection c \<noteq> cid"
  shows "incoming_con_pub_keys i' cid = incoming_con_pub_keys i cid"
  using assms
proof (induction cs arbitrary: i xs)
  case (Cons c cs)
  obtain x i1 where c: "call_auth_inner T c i = (x, i1)" by force
  from Cons.prems(2) have "incoming_con_pub_keys i1 cid = incoming_con_pub_keys i cid"
    by (intro call_auth_inner_other [OF c]) simp
  with c Cons show ?case by (cases x) (auto split: prod.splits)
qed simp

lemma calls_own_prefix:
  "calls_own own cs v = (xs, v1) \<Longrightarrow> set xs \<subseteq> set (fst (calls_own own (cs @ ds) v))"
  by (induction cs arbitrary: v xs) (fastforce split: outcome.splits prod.splits)+

lemma calls_own_append:
  assumes "calls_own own cs v = (xs, v1)" "Panics \<notin> set xs"
  shows "calls_own own (cs @ ds) v = (case calls_own own ds v1 of (ys, v2) \<Rightarrow> (xs @ ys, v2))"
  using assms by (induction cs arbitrary: v xs) (auto split: outcome.splits prod.splits)

lemma calls_own_handshake:
  assumes all: "calls_own (call_auth_inner T) (CallVerify cid ty cert chain # cs @ [CallIncomingConPubKey con]) i = (zs, i')"
    and "\<forall>c\<in>set cs. auth_call_connection c \<noteq> cid" "con_connection_id con = cid"
    and "hd zs = Returns (AnswerVerify (Ok trusted))" "Panics \<notin> set zs"
  shows "\<exists>pkey der key. tls_cert_public_key T cert = Ok pkey \<and> tls_public_key_to_der T pkey = Ok der \<and>
    tls_sha256 T der = Ok (pk_deref key) \<and> last zs = Returns (AnswerPubKey (Some key)) \<and>
    incoming_con_pub_keys i' cid = None"
proof -
  from all assms(4,5) obtain i1 zs' where v: "verify T cid ty cert chain i = Some (Ok trusted, i1)"
    and rest: "calls_own (call_auth_inner T) (cs @ [CallIncomingConPubKey con]) i1 = (zs', i')"
    and zs: "zs = Returns (AnswerVerify (Ok trusted)) # zs'"
    by (auto split: option.splits prod.splits)
  obtain ys i2 where ys: "calls_own (call_auth_inner T) cs i1 = (ys, i2)" by force
  have "Panics \<notin> set ys"
    using calls_own_prefix [OF ys, of "[CallIncomingConPubKey con]"] rest zs assms(5) by auto
  from calls_own_append [OF ys this, of "[CallIncomingConPubKey con]"] rest zs
  have last: "last zs = Returns (AnswerPubKey (incoming_con_pub_keys i2 cid))"
    and gone: "incoming_con_pub_keys i' cid = None"
    by (auto simp: incoming_con_pub_key_def assms(3))
  from v obtain pkey key where key: "tls_cert_public_key T cert = Ok pkey"
    "from_public_key (tls_public_key_to_der T) (tls_sha256 T) pkey (store_orig_pub_key i) = Some (Ok key)"
    "i1 = add_incoming_con_pub_key cid key i"
    by (rule verify_OkE)
  from key(2) obtain der where "tls_public_key_to_der T pkey = Ok der" "tls_sha256 T der = Ok (pk_deref key)"
    by (rule from_public_key_OkE)
  moreover have "incoming_con_pub_keys i2 cid = Some key"
    using calls_own_keep_key [OF ys assms(2)] key(3) by (simp add: add_incoming_con_pub_key_def)
  ultimately show ?thesis using key(1) last gone by auto
qed

section \<open>The end of the handler of a remote registry\<close>

text \<open>
  The panic that ends the handler: the sink of a new stream refuses the hello message. The
  handler is polled by the runtime, which drops a task that panics, and with it the receiving end
  of the channel of the remote registry.
\<close>

lemma refused_hello_panics:
  assumes "nsf_new_stream f = Ok (Ready v) # t" "cd_accepts cdh 0 = Err e"
  shows "new_stream_poll cdh f = None"
  using assms by (cases "hello_target (nsf_peer_identifier f) (nsf_stream_hello f)")
    (simp add: new_stream_poll_def Let_def ps_send_def ps_start_send_def pstream_new_def)

lemma handler_ends_with_hello:
  assumes "h_state h = ConnectToPeer connect requests" "cws_connect connect = Some (WaitForConnectStream f timeout)"
    and "timeout_poll clk timeout = Ok NotReady" "nsf_new_stream f = Ok (Ready v) # t" "cd_accepts cdh 0 = Err e"
    and "remote_registry_dropped (h_ctx h) = (Ok (), ctx)"
  shows "\<exists>h'. handler_poll R pq cdh cdr clk (Suc fuel) h = Some (Err (Panicked ''sending stream hello''), h')"
  using assms refused_hello_panics [OF assms(4,5)]
  by (simp add: handler_poll_def handler_step_def poll_connect_to_peer_def connect_with_strategies_poll_def
      cws_inner_poll_def connect_poll_stream Let_def)

section \<open>Properties\<close>

text \<open>
  C9. The clones of a registry are one registry: in any sequence of calls, through any clones and
  interleaved with calls on other registries, the calls on a healthy registry answer and change
  it as the same calls, in the same order, on a registry value of one's own; a call that panics
  is the last that does anything.
\<close>

theorem registry_handles_linear:
  assumes "registry_inner r < length st" "\<not> mx_poisoned (st ! registry_inner r)"
    and "calls (call_registry ask) cs st = (xs, st')"
  shows "calls_own (call_inner ask) (on_handle r cs) (mx_value (st ! registry_inner r)) =
    (on_handle r xs, mx_value (st' ! registry_inner r))"
  using assms by (rule rc.calls_linear)

text \<open>Two registries of two nodes; a peer is registered in both and given up in one.\<close>

definition demo_store :: "unit inner store" where
  "demo_store = snd (registry_new (snd (registry_new [])))"

definition demo_calls :: "(registry \<times> unit registry_call) list" where
  "demo_calls = [(Registry 0, CallRegisterPeer [2] (demo_reg_handle 0)),
     (Registry 1, CallRegisterPeer [2] (demo_reg_handle 1)), (Registry 0, CallHasPeer [2]),
     (Registry 0, CallUnregisterPeer [2] 0), (Registry 1, CallPeer [2]), (Registry 0, CallHasPeer [2])]"

theorem registry_handles_linear_witness:
  "on_handle (Registry 0) (fst (calls (call_registry (\<lambda>_ r. Some r)) demo_calls demo_store)) =
     [Returns (AnswerToken 0), Returns (AnswerHasPeer True), Returns AnswerUnit, Returns (AnswerHasPeer False)]"
proof -
  have store: "demo_store = [\<lparr>mx_value = inner_new, mx_poisoned = False\<rparr>, \<lparr>mx_value = inner_new, mx_poisoned = False\<rparr>]"
    by (simp add: demo_store_def registry_new_def arc_new_def)
  obtain xs st' where calls: "calls (call_registry (\<lambda>_ r. Some r)) demo_calls demo_store = (xs, st')" by force
  from registry_handles_linear [OF _ _ calls, of "Registry 0"]
  have "calls_own (call_inner (\<lambda>_ r. Some r)) (on_handle (Registry 0) demo_calls) inner_new =
      (on_handle (Registry 0) xs, mx_value (st' ! 0))"
    by (simp add: store)
  with calls show ?thesis
    by (simp add: demo_calls_def inner_new_def register_peer_def unregister_peer_def has_peer_def)
qed

text \<open>
  C10. The key a handshake leaves waits for its connection: after a certificate check with a result,
  whether the certificate is trusted or not, any calls for other connections may come in between,
  through any clones, and the connection's own call gets the hash of the certificate's key; the
  key is handed out once.
\<close>

theorem handshake_key_reserved:
  assumes "authenticator_inner a < length st" "\<not> mx_poisoned (st ! authenticator_inner a)"
    and "calls (call_authenticator T) ((a, CallVerify cid ty cert chain) # cs @ [(a, CallIncomingConPubKey con)]) st = (xs, st')"
    and "\<forall>c\<in>set (on_handle a cs). auth_call_connection c \<noteq> cid" "con_connection_id con = cid"
    and "hd (on_handle a xs) = Returns (AnswerVerify (Ok trusted))" "Panics \<notin> set (on_handle a xs)"
  shows "\<exists>pkey der key. tls_cert_public_key T cert = Ok pkey \<and> tls_public_key_to_der T pkey = Ok der \<and>
    tls_sha256 T der = Ok (pk_deref key) \<and> last (on_handle a xs) = Returns (AnswerPubKey (Some key)) \<and>
    incoming_con_pub_keys (mx_value (st' ! authenticator_inner a)) cid = None"
proof -
  have "calls_own (call_auth_inner T) (CallVerify cid ty cert chain # on_handle a cs @ [CallIncomingConPubKey con])
      (mx_value (st ! authenticator_inner a)) = (on_handle a xs, mx_value (st' ! authenticator_inner a))"
    using ac.calls_linear [OF assms(1-3)] by (simp add: on_handle_def)
  from calls_own_handshake [OF this assms(4-7)] show ?thesis .
qed

definition demo_auth_store :: "unit auth_inner store" where
  "demo_auth_store = snd (authenticator_handle_new demo_tls None None False [])"

definition demo_auth_calls :: "(authenticator \<times> bytes auth_call) list" where
  "demo_auth_calls = [(Authenticator 0, CallVerify 7 Incoming [5, 6] []), (Authenticator 0, CallVerify 8 Incoming [1] []),
     (Authenticator 0, CallIncomingConPubKey demo_connection)]"

theorem handshake_key_reserved_witness:
  "\<exists>key. pk_deref key = [5, 6] \<and>
     last (on_handle (Authenticator 0) (fst (calls (call_authenticator demo_tls) demo_auth_calls demo_auth_store))) =
       Returns (AnswerPubKey (Some key))"
proof -
  have st: "demo_auth_store = [\<lparr>mx_value = \<lparr>incoming_con_pub_keys = Map.empty, incoming_certificates = None,
      outgoing_certificates = None, store_orig_pub_key = False\<rparr>, mx_poisoned = False\<rparr>]"
    by (simp add: demo_auth_store_def authenticator_handle_new_def authenticator_new_def create_certificate_store_def
        arc_new_def)
  obtain xs st' where calls: "calls (call_authenticator demo_tls) ((Authenticator 0, CallVerify 7 Incoming [5, 6] []) #
      [(Authenticator 0, CallVerify 8 Incoming [1] [])] @ [(Authenticator 0, CallIncomingConPubKey demo_connection)])
      demo_auth_store = (xs, st')" by force
  then have "hd (on_handle (Authenticator 0) xs) = Returns (AnswerVerify (Ok True))"
    "Panics \<notin> set (on_handle (Authenticator 0) xs)"
    by (auto simp: st call_authenticator_lock with_lock_def verify_unfold trust_answer_def demo_tls_def
        from_public_key_def from_public_key_der_def from_hashed_checked_def EVP_MAX_MD_SIZE_def
        add_incoming_con_pub_key_def incoming_con_pub_key_def split: prod.splits)
  from handshake_key_reserved [OF _ _ calls _ _ this]
  have "\<exists>key. pk_deref key = [5, 6] \<and> last (on_handle (Authenticator 0) xs) = Returns (AnswerPubKey (Some key))"
    by (auto simp: st demo_con_defs con_connection_id_def demo_tls_def)
  moreover have "fst (calls (call_authenticator demo_tls) demo_auth_calls demo_auth_store) = xs"
    using calls by (simp add: demo_auth_calls_def del: calls.simps)
  ultimately show ?thesis by simp
qed

text \<open>
  C35. A search for a peer that is not connected, on a registry with a remote registry whose
  handler has ended, panics while it holds the lock; from then on every call through every clone
  of the registry panics, although all connected peers are still in it.
\<close>

theorem dead_handler_poisons_registry:
  assumes "registry_inner r < length st" "\<not> mx_poisoned (st ! registry_inner r)"
    and "connected_peers (mx_value (st ! registry_inner r)) peer = None"
    and "RemoteProvider rr \<in> set (registries (mx_value (st ! registry_inner r)))" "\<not> rr_handler_alive rr"
    and "calls (call_registry (provider_find_peer clk recv sender)) ((r, CallFindPeer peer) # cs) st = (xs, st')"
  shows "on_handle r xs = map (\<lambda>_. Panics) (CallFindPeer peer # on_handle r cs) \<and>
    connected_peers (mx_value (st' ! registry_inner r)) = connected_peers (mx_value (st ! registry_inner r))"
proof -
  let ?ask = "provider_find_peer clk recv sender"
  have "?ask peer (RemoteProvider rr) = None" using assms(5) by (simp add: remote_find_peer_def)
  from inner_find_peer_panics [of _ _ _ ?ask, OF assms(3,4) this] obtain rs where
    "inner_find_peer ?ask peer (mx_value (st ! registry_inner r)) = (Panics, (mx_value (st ! registry_inner r))\<lparr>registries := rs\<rparr>)"
    by blast
  then have "calls_own (call_inner ?ask) (on_handle r ((r, CallFindPeer peer) # cs)) (mx_value (st ! registry_inner r)) =
      (Panics # map (\<lambda>_. Panics) (on_handle r cs), (mx_value (st ! registry_inner r))\<lparr>registries := rs\<rparr>)"
    by simp
  with rc.calls_linear [OF assms(1,2,6)] show ?thesis by (auto dest: sym)
qed

definition demo_dead_store :: "provider inner store" where
  "demo_dead_store = [\<lparr>mx_value = \<lparr>connected_peers = [[2] \<mapsto> (demo_reg_handle 2, 0)],
     registries = [RemoteProvider \<lparr>rr_find_peer_request = [], rr_handler_alive = False\<rparr>]\<rparr>, mx_poisoned = False\<rparr>]"

theorem dead_handler_poisons_registry_witness:
  "on_handle (Registry 0) (fst (calls (call_registry (provider_find_peer (documented_clock 0) [] \<lparr>rs_id = 0, rs_canceled = False\<rparr>))
     [(Registry 0, CallFindPeer [3]), (Registry 0, CallPeer [2])] demo_dead_store)) = [Panics, Panics]"
proof -
  obtain xs st' where calls: "calls (call_registry (provider_find_peer (documented_clock 0) [] \<lparr>rs_id = 0, rs_canceled = False\<rparr>))
     [(Registry 0, CallFindPeer [3]), (Registry 0, CallPeer [2])] demo_dead_store = (xs, st')" by force
  from dead_handler_poisons_registry [OF _ _ _ _ _ calls,
      of "\<lparr>rr_find_peer_request = [], rr_handler_alive = False\<rparr>"] calls
  show ?thesis by (simp add: demo_dead_store_def)
qed

end
