(* ===== verification/Relay.thy ===== *)
theory Relay
  imports Incoming
begin

text \<open>
  The relay of \<^verbatim>\<open>incoming_stream.rs\<close>: the task \<open>handle_proxy_stream\<close> spawns once both streams are
  there. Each stream is split into its reading and its writing half, each direction is a
  \<^verbatim>\<open>send_all\<close>, and the two run under \<^verbatim>\<open>select\<close>, so the end or the failure of one direction ends
  the task and drops both streams.
\<close>

section \<open>Joined streams\<close>

datatype side = Side0 | Side1

fun other :: "side \<Rightarrow> side" where
  "other Side0 = Side1"
| "other Side1 = Side0"

text \<open>
  The two streams; for each side the item on its way to it that its sink did not take yet
  (\<^verbatim>\<open>buffered\<close>), and whether the stream of the side was read to its end (\<^verbatim>\<open>send_all\<close> fuses it).
\<close>

record relay =
  rl_stream :: "side \<Rightarrow> strat_stream"
  rl_to :: "side \<Rightarrow> bytes option"
  rl_eof :: "side \<Rightarrow> bool"

definition relay_join :: "strat_stream \<times> strat_stream \<Rightarrow> relay" where
  "relay_join p = \<lparr>rl_stream = (\<lambda>x. case x of Side0 \<Rightarrow> fst p | Side1 \<Rightarrow> snd p), rl_to = (\<lambda>_. None), rl_eof = (\<lambda>_. False)\<rparr>"

abbreviation set_stream :: "side \<Rightarrow> strat_stream \<Rightarrow> relay \<Rightarrow> relay" where
  "set_stream x s r \<equiv> r\<lparr>rl_stream := (rl_stream r)(x := s)\<rparr>"

text \<open>
  What the direction to side \<open>x\<close> may do: offer the item it holds, read the next one, find that
  there is none yet and flush the sink, find that the other side's stream has ended, or wait for
  the sink to close (\<^verbatim>\<open>close\<close> is \<^verbatim>\<open>poll_complete\<close>).
\<close>

inductive relay_step :: "side \<Rightarrow> relay \<Rightarrow> relay \<Rightarrow> bool" where
  put: "rl_to r x = Some b \<Longrightarrow> ss_start_send (RawFrame b) (rl_stream r x) = (Ok SinkReady, s) \<Longrightarrow>
    relay_step x r ((set_stream x s r)\<lparr>rl_to := (rl_to r)(x := None)\<rparr>)"
| keep: "rl_to r x = Some b \<Longrightarrow> ss_start_send (RawFrame b) (rl_stream r x) = (Ok (SinkNotReady f), s) \<Longrightarrow>
    relay_step x r (set_stream x s r)"
| take: "rl_to r x = None \<Longrightarrow> \<not> rl_eof r (other x) \<Longrightarrow> ss_poll (rl_stream r (other x)) = (Ok (Ready (Some b)), s) \<Longrightarrow>
    relay_step x r ((set_stream (other x) s r)\<lparr>rl_to := (rl_to r)(x := Some b)\<rparr>)"
| idle: "rl_to r x = None \<Longrightarrow> \<not> rl_eof r (other x) \<Longrightarrow> ss_poll (rl_stream r (other x)) = (Ok NotReady, s) \<Longrightarrow>
    ss_poll_complete (rl_stream r x) = (Ok p, s') \<Longrightarrow> relay_step x r (set_stream x s' (set_stream (other x) s r))"
| ended: "rl_to r x = None \<Longrightarrow> \<not> rl_eof r (other x) \<Longrightarrow> ss_poll (rl_stream r (other x)) = (Ok (Ready None), s) \<Longrightarrow>
    relay_step x r ((set_stream (other x) s r)\<lparr>rl_eof := (rl_eof r)(other x := True)\<rparr>)"
| closing: "rl_to r x = None \<Longrightarrow> rl_eof r (other x) \<Longrightarrow> ss_poll_complete (rl_stream r x) = (Ok NotReady, s) \<Longrightarrow>
    relay_step x r (set_stream x s r)"

definition relay_moves :: "relay \<Rightarrow> relay \<Rightarrow> bool" where
  "relay_moves r r' \<longleftrightarrow> (\<exists>x. relay_step x r r')"

text \<open>The direction to side \<open>x\<close> is done; \<^verbatim>\<open>select\<close> ends the relay.\<close>

inductive relay_end :: "relay \<Rightarrow> side \<Rightarrow> relay \<Rightarrow> bool" where
  "rl_to r x = None \<Longrightarrow> rl_eof r (other x) \<Longrightarrow> ss_poll_complete (rl_stream r x) = (Ok (Ready ()), s) \<Longrightarrow>
    relay_end r x (set_stream x s r)"

text \<open>A failing call in one direction ends the relay as well; the error is dropped.\<close>

inductive relay_fails :: "relay \<Rightarrow> bool" where
  "rl_to r x = Some b \<Longrightarrow> ss_start_send (RawFrame b) (rl_stream r x) = (Err e, s) \<Longrightarrow> relay_fails r"
| "rl_to r x = None \<Longrightarrow> \<not> rl_eof r (other x) \<Longrightarrow> ss_poll (rl_stream r (other x)) = (Err e, s) \<Longrightarrow> relay_fails r"
| "rl_to r x = None \<Longrightarrow> \<not> rl_eof r (other x) \<Longrightarrow> ss_poll (rl_stream r (other x)) = (Ok NotReady, s) \<Longrightarrow>
    ss_poll_complete (rl_stream r x) = (Err e, s') \<Longrightarrow> relay_fails r"
| "rl_to r x = None \<Longrightarrow> rl_eof r (other x) \<Longrightarrow> ss_poll_complete (rl_stream r x) = (Err e, s) \<Longrightarrow> relay_fails r"

inductive_cases relay_endE: "relay_end r x r'"

section \<open>Lemmas\<close>

lemma other_simps [simp]: "other (other x) = x" "other x \<noteq> x" "x \<noteq> other x"
  by (cases x; simp)+

fun raw_bytes :: "frame list \<Rightarrow> bytes" where
  "raw_bytes [] = []"
| "raw_bytes (RawFrame b # fs) = b @ raw_bytes fs"
| "raw_bytes (f # fs) = raw_bytes fs"

lemma raw_bytes_snoc [simp]: "raw_bytes (fs @ [RawFrame b]) = raw_bytes fs @ b"
  by (induction fs rule: raw_bytes.induct) simp_all

lemma ss_start_send_Ready:
  "ss_start_send f s = (Ok SinkReady, s') \<Longrightarrow> io_out s' = io_out s @ [f] \<and> ss_pending s' = ss_pending s"
  by (auto simp: ss_start_send_eq sw_start_send_def pqs_start_send_def Let_def io_out_def ss_pending_def
      split: prod.splits sum.splits bool.splits)

lemma ss_start_send_NotReady:
  "ss_start_send f s = (Ok (SinkNotReady g), s') \<Longrightarrow> io_out s' = io_out s \<and> ss_pending s' = ss_pending s"
  by (auto simp: ss_start_send_eq sw_start_send_def pqs_start_send_def Let_def io_out_def ss_pending_def
      split: prod.splits sum.splits bool.splits)

lemma ss_poll_complete_keeps:
  "ss_poll_complete s = (p, s') \<Longrightarrow> io_out s' = io_out s \<and> ss_pending s' = ss_pending s"
  by (auto simp: ss_poll_complete_eq sw_poll_complete_def pqs_poll_complete_def io_out_def ss_pending_def)

text \<open>What is on its way to a side or still to be read for it, and everything that goes to it.\<close>

definition relay_underway :: "relay \<Rightarrow> side \<Rightarrow> bytes" where
  "relay_underway r x = (case rl_to r x of None \<Rightarrow> [] | Some b \<Rightarrow> b) @ ss_pending (rl_stream r (other x))"

definition relay_flow :: "relay \<Rightarrow> side \<Rightarrow> bytes" where
  "relay_flow r x = raw_bytes (io_out (rl_stream r x)) @ relay_underway r x"

text \<open>
  A step of the direction to side \<open>x\<close> concerns the sink of \<open>x\<close> and the source of the other side;
  this is why the flow to both sides is kept.
\<close>

lemma relay_step_flow:
  "relay_step x r r' \<Longrightarrow> relay_flow r' x = relay_flow r x \<and> relay_flow r' (other x) = relay_flow r (other x)"
  by (induction rule: relay_step.induct)
    (auto simp: relay_flow_def relay_underway_def
      dest!: ss_start_send_Ready ss_start_send_NotReady ss_poll_complete_keeps dest: ss_poll_conserves ss_poll_keeps)

lemma side_other: "y = x \<or> y = other x"
  by (cases x; cases y) simp_all

lemma relay_moves_flow: "relay_moves\<^sup>*\<^sup>* r r' \<Longrightarrow> relay_flow r' x = relay_flow r x"
proof (induction rule: rtranclp_induct)
  case (step r1 r2)
  then obtain y where "relay_step y r1 r2" by (auto simp: relay_moves_def)
  from relay_step_flow [OF this] side_other [of x y] step.IH show ?case by auto
qed simp

section \<open>The end of a stream\<close>

text \<open>A stream that has ended yields nothing more, as the contract of \<^verbatim>\<open>Stream\<close> says.\<close>

fun end_final :: "(bytes option, 'e) tape \<Rightarrow> bool" where
  "end_final [] = True"
| "end_final (p # t) = ((p = Ok (Ready None) \<longrightarrow> tape_bytes t = []) \<and> end_final t)"

definition ss_end_final :: "strat_stream \<Rightarrow> bool" where
  "ss_end_final s = end_final (pqs_in (sw_stream (ss_inner s)))"

lemma map_err_Ready_None: "map_err f p = Ok (Ready None) \<longleftrightarrow> p = Ok (Ready None)"
  by (cases p) simp_all

lemma ss_poll_end_final:
  assumes "ss_poll s = (p, s')" "ss_end_final s"
  shows "ss_end_final s'" "p = Ok (Ready None) \<Longrightarrow> ss_pending s' = []"
  using assms
  by (cases "pqs_in (sw_stream (ss_inner s))";
      auto simp: ss_poll_eq sw_poll_tape ss_end_final_def ss_pending_def map_err_Ready_None split: option.splits)+

lemma ss_start_send_end_final: "ss_start_send f s = (a, s') \<Longrightarrow> ss_end_final s' = ss_end_final s"
  by (auto simp: ss_start_send_eq sw_start_send_def pqs_start_send_def Let_def ss_end_final_def
      split: prod.splits sum.splits bool.splits)

lemma ss_poll_complete_end_final: "ss_poll_complete s = (p, s') \<Longrightarrow> ss_end_final s' = ss_end_final s"
  by (auto simp: ss_poll_complete_eq sw_poll_complete_def pqs_poll_complete_def ss_end_final_def)

text \<open>Once the stream of a side was read to its end, nothing of it is left.\<close>

definition relay_eof_ok :: "side \<Rightarrow> relay \<Rightarrow> bool" where
  "relay_eof_ok x r \<longleftrightarrow> ss_end_final (rl_stream r x) \<and> (rl_eof r x \<longrightarrow> ss_pending (rl_stream r x) = [])"

lemma relay_step_eof_ok:
  "relay_step x r r' \<Longrightarrow> relay_eof_ok y r \<Longrightarrow> relay_eof_ok y r'"
proof -
  assume "relay_step x r r'" "relay_eof_ok y r"
  moreover note side_other [of y x]
  ultimately show ?thesis
    by (cases rule: relay_step.cases)
      (auto simp: relay_eof_ok_def ss_start_send_end_final ss_poll_complete_end_final
        dest: ss_poll_end_final ss_start_send_Ready ss_start_send_NotReady ss_poll_complete_keeps)
qed

lemma relay_moves_eof_ok: "relay_moves\<^sup>*\<^sup>* r r' \<Longrightarrow> relay_eof_ok y r \<Longrightarrow> relay_eof_ok y r'"
  by (induction rule: rtranclp_induct) (auto simp: relay_moves_def dest: relay_step_eof_ok)

section \<open>Properties\<close>

text \<open>
  A relay changes nothing: whatever the order in which its two directions run and its sinks
  take or refuse data, the bytes sent to a side, the bytes on their way and the bytes still to
  be read from the other side are, in this order, always the same sequence.
\<close>

theorem relay_conserves:
  assumes "relay_moves\<^sup>*\<^sup>* r r'"
  shows "relay_flow r' x = relay_flow r x"
  using assms by (rule relay_moves_flow)

text \<open>
  C23. A relay ends when one of its streams was read to its end: the other side has then got every
  byte of it, unchanged and in order. The opposite direction is cut off with it, wherever it is:
  what it held and what was still to be read for it is lost.
\<close>

theorem relay_end_delivers:
  assumes "relay_moves\<^sup>*\<^sup>* (relay_join p) r" "relay_end r x r'"
    and "ss_end_final (rl_stream (relay_join p) (other x))"
  shows "raw_bytes (io_out (rl_stream r' x)) = relay_flow (relay_join p) x \<and>
    raw_bytes (io_out (rl_stream r' (other x))) @ relay_underway r' (other x) = relay_flow (relay_join p) (other x)"
proof -
  have "relay_eof_ok (other x) (relay_join p)" using assms(3) by (simp add: relay_eof_ok_def relay_join_def)
  then have ok: "relay_eof_ok (other x) r" by (rule relay_moves_eof_ok [OF assms(1)])
  note flow = relay_moves_flow [OF assms(1)]
  from assms(2) obtain s where s: "rl_to r x = None" "rl_eof r (other x)"
    "ss_poll_complete (rl_stream r x) = (Ok (Ready ()), s)" "r' = set_stream x s r"
    by (rule relay_endE)
  then show ?thesis
    using ok flow [of x] flow [of "other x"] ss_poll_complete_keeps [OF s(3)]
    by (simp add: relay_flow_def relay_underway_def relay_eof_ok_def)
qed

text \<open>Side 1 ends at once; what side 0 has sent in the meantime is lost.\<close>

theorem relay_end_delivers_witness:
  "\<exists>r r'. relay_moves\<^sup>*\<^sup>* (relay_join (demo_stream [Ok (Ready (Some [4, 5]))], demo_stream [Ok (Ready None)])) r \<and>
     relay_end r Side0 r' \<and> raw_bytes (io_out (rl_stream r' Side0)) = [] \<and>
     raw_bytes (io_out (rl_stream r' Side1)) = [] \<and> relay_underway r' Side1 = [4, 5]"
proof -
  let ?r = "relay_join (demo_stream [Ok (Ready (Some [4, 5]))], demo_stream [Ok (Ready None)])"
  obtain s where s: "ss_poll (rl_stream ?r (other Side0)) = (Ok (Ready None), s)" "io_out s = []"
    by (simp add: relay_join_def ss_poll_eq demo_defs ss_new_def stream_wrapper_new_def sw_poll_tape io_out_def)
  let ?r1 = "(set_stream (other Side0) s ?r)\<lparr>rl_eof := (rl_eof ?r)(other Side0 := True)\<rparr>"
  have "relay_step Side0 ?r ?r1"
    using s by (intro relay_step.ended) (simp_all add: relay_join_def)
  then have moves: "relay_moves\<^sup>*\<^sup>* ?r ?r1" unfolding relay_moves_def by blast
  obtain s0 where s0: "ss_poll_complete (rl_stream ?r1 Side0) = (Ok (Ready ()), s0)"
    by (simp add: relay_join_def ss_poll_complete_eq sw_poll_complete_def pqs_poll_complete_def demo_defs ss_new_def
        stream_wrapper_new_def)
  then have fin: "relay_end ?r1 Side0 (set_stream Side0 s0 ?r1)"
    by (intro relay_end.intros) (simp_all add: relay_join_def)
  have "ss_end_final (rl_stream ?r (other Side0))"
    by (simp add: relay_join_def ss_end_final_def demo_defs ss_new_def stream_wrapper_new_def)
  from relay_end_delivers [OF moves fin this] s(2)
  have "raw_bytes (io_out (rl_stream (set_stream Side0 s0 ?r1) Side0)) = [] \<and>
      raw_bytes (io_out (rl_stream (set_stream Side0 s0 ?r1) Side1)) = [] \<and>
      relay_underway (set_stream Side0 s0 ?r1) Side1 = [4, 5]"
    by (simp add: relay_flow_def relay_underway_def relay_join_def demo_defs ss_new_def stream_wrapper_new_def io_out_def
        ss_pending_def)
  with moves fin show ?thesis by blast
qed

text \<open>
  A relay never gets stuck by itself: in every state each direction can make a step, or it is
  done, or a call of it has failed, and a failing call is the only way to end early.
\<close>

theorem relay_not_stuck:
  "(\<exists>r'. relay_step x r r') \<or> (\<exists>r'. relay_end r x r') \<or> relay_fails r"
proof (cases "rl_to r x")
  case (Some b)
  obtain a s where "ss_start_send (RawFrame b) (rl_stream r x) = (a, s)" by force
  with Some show ?thesis
    by (cases a; cases "projr a") (auto intro: relay_step.put relay_step.keep relay_fails.intros(1))
next
  case None
  obtain p s where p: "ss_poll (rl_stream r (other x)) = (p, s)" by force
  obtain q s' where q: "ss_poll_complete (rl_stream r x) = (q, s')" by force
  show ?thesis
  proof (cases "rl_eof r (other x)")
    case True
    with None q show ?thesis
      by (cases q; cases "projr q") (auto intro: relay_step.closing relay_end.intros relay_fails.intros(4))
  next
    case False
    with None p q show ?thesis
      by (cases p rule: stream_poll_cases; cases q)
        (auto intro: relay_step.take relay_step.ended relay_step.idle relay_fails.intros(2,3))
  qed
qed

end
