(* ===== verification/Spec2Isabelle.thy ===== *)
theory Spec2Isabelle
  imports System Shared Relay
begin

text \<open>
  A model of the crate \<^verbatim>\<open>hole_punch\<close>, a library that connects peers behind NATs, and the theorems
  about it. Paths below are relative to \<^verbatim>\<open>src/src/\<close>.

  \<^bold>\<open>The program.\<close> A node holds QUIC connections to other peers. Every connection is authenticated
  by a certificate (\<^verbatim>\<open>authenticator.rs\<close>) and entered into a registry under the hash of its public
  key (\<^verbatim>\<open>pubkey.rs\<close>, \<^verbatim>\<open>registry.rs\<close>, \<^verbatim>\<open>connection.rs\<close>). A stream opens with a hello message
  (\<^verbatim>\<open>protocol.rs\<close>, \<^verbatim>\<open>stream.rs\<close>), by which the accepting node hands it to its user, serves the
  registry protocol, takes part in building a connection, or relays it to a third peer
  (\<^verbatim>\<open>incoming_stream.rs\<close>). A peer that is not connected is searched at remote peers
  (\<^verbatim>\<open>registries/remote.rs\<close>); when one of them knows it, the three parties exchange addresses and
  try to connect directly, with the relayed stream as the fallback
  (\<^verbatim>\<open>build_connection_to_peer.rs\<close>). Peers of the local network announce themselves and are found
  over mDNS (\<^verbatim>\<open>registries/mdns.rs\<close>). \<^verbatim>\<open>connect.rs\<close> connects to a known address; \<^verbatim>\<open>strategies/\<close> wraps
  the transport. The user holds a context (\<^verbatim>\<open>context.rs\<close>), made from a configuration
  (\<^verbatim>\<open>config.rs\<close>): it reaches peers, hands out the streams others opened, and its inner task accepts
  connections.

  \<^bold>\<open>Theories.\<close>
  \<^item> \<open>Prelude\<close>: words and bytes, \<^verbatim>\<open>Result\<close>, \<^verbatim>\<open>Async\<close> and \<^verbatim>\<open>Poll\<close>, tapes, sets of futures, the
    clock, and the driver of a state machine with the locales \<open>guarded_machine\<close> and
    \<open>ranked_machine\<close>: a machine whose rank falls with every transition answers each poll.
  \<^item> \<open>Protocol\<close>, \<open>Errors\<close>: \<^verbatim>\<open>protocol.rs\<close>; \<^verbatim>\<open>error.rs\<close> and \<^verbatim>\<open>timeout.rs\<close>.
  \<^item> \<open>Hash_Map\<close>, \<open>PubKey\<close>: what \<^verbatim>\<open>HashMap\<close> needs of a key (locale \<open>hash_key\<close>), and \<^verbatim>\<open>pubkey.rs\<close>,
    whose identifiers fulfil it. This is why the other theories may use a map on the identifier's
    bytes (type \<open>peer_id\<close>) for a \<^verbatim>\<open>HashMap<PubKeyHash, _>\<close>.
  \<^item> \<open>Byte_Source\<close>, \<open>Boxed\<close>: the reading side of a stream as an interface (locale \<open>byte_source\<close>), and
    the trait objects of \<^verbatim>\<open>strategies/mod.rs\<close>, each a value with the table of its methods; here is the
    stream with its overflow buffer. The locale \<open>stream_source\<close> says what a stream needs of the value
    it boxes, and a sublocale derives \<open>byte_source\<close> from it; it is interpreted for the QUIC stream
    and for the mock of the unit tests.
  \<^item> \<open>Strategies\<close>, \<open>Streams\<close>: \<^verbatim>\<open>strategies/quic.rs\<close>, the wrappers around picoquic, and \<^verbatim>\<open>stream.rs\<close>. The
    stream of the other theories (\<open>strat_stream\<close>, \<open>ss_read\<close> and the like) is the box of \<open>Boxed\<close> at the
    QUIC wrapper; connections, strategies and handles are represented by the wrapper itself, as
    their boxes only forward. \<open>byte_source\<close> is interpreted for it and for the user's stream.
  \<^item> \<open>Registry\<close>, \<open>Authenticator\<close>, \<open>Connection\<close>: \<^verbatim>\<open>registry.rs\<close> (locale \<open>peer_registry\<close>: what a
    component that registers and unregisters may rely on), \<^verbatim>\<open>authenticator.rs\<close> (locale
    \<open>key_table\<close>), \<^verbatim>\<open>connection.rs\<close>. The relation \<open>connections\<close> is the set of reachable states of
    registry, authenticator and live connections under handshakes, new connections and polls,
    together with the log of the handshakes; \<open>authenticated\<close> ties a connection to a handshake in
    the log, of the same connection identifier, and to the certificate that was presented there.
  \<^item> \<open>Shared\<close>: the handles \<^verbatim>\<open>Registry\<close> and \<^verbatim>\<open>Authenticator\<close>, \<^verbatim>\<open>Arc<Mutex<_>>\<close> cloned into every task: a
    store of mutexes with poisoning, a handle as an address in it. The locale \<open>locked_calls\<close>, for
    both of them, reduces any interleaving of calls to a sequence on one's own value.
  \<^item> \<open>Connect\<close>, \<open>Build\<close>, \<open>Remote\<close>, \<open>Handler\<close>, \<open>Incoming\<close>: \<^verbatim>\<open>connect.rs\<close>,
    \<^verbatim>\<open>build_connection_to_peer.rs\<close>, the two halves of \<^verbatim>\<open>registries/remote.rs\<close>, and
    \<^verbatim>\<open>incoming_stream.rs\<close>, whose relay, with its end, is the theory \<open>Relay\<close>.
  \<^item> \<open>Mdns\<close>, \<open>Config\<close>: \<^verbatim>\<open>registries/mdns.rs\<close> (the discovery with its queue, the parsing of
    announcements, the responder, which is a \<open>guarded_machine\<close>); \<^verbatim>\<open>config.rs\<close> with the set-up of
    the transport (\<^verbatim>\<open>StrategyWrapper::new\<close>, \<^verbatim>\<open>init\<close>).
  \<^item> \<open>Context\<close>: \<^verbatim>\<open>context.rs\<close>. Starting a node with its providers and tasks, \<open>create_connection\<close> as
    the future that looks for a peer and then opens a stream or punches a hole, and the inner task.
  \<^item> \<open>System\<close>: a whole node. \<open>node_run\<close> has one rule per task (the inner task, connections, searches,
    the tasks of the registries, attempts to reach a peer) and one for the callback of the
    transport, in any order.
  \<^item> This theory: what one node writes is what another one reads, for the look-up, the hole
    punching exchange, a relayed stream and a direct stream.

  \<^bold>\<open>State and effects.\<close> A Rust structure is a record or a datatype, with a field or constructor
  per field or variant; a method that changes its object returns the changed one. The registry
  and the authenticator are shared behind a mutex: they are arguments and results (record
  \<open>node\<close>), and one poll of a task sees the state it is given; \<open>registry_handles_linear\<close> shows that
  calls through the shared handles are such calls. Spawned tasks, streams
  passed to the context and answers sent over one-shot channels are returned as lists, in the
  order of the calls. Errors are values; a panic is \<open>None\<close> or the constructor \<open>Panicked\<close>.

  \<^bold>\<open>Parameters.\<close> Code outside the repository is an argument. A third-party future or stream is the
  tape of its answers to the polls to come; an exhausted tape is not ready. Picoquic is
  the record \<open>picoquic\<close> and the tapes and sinks inside its objects; the framing of messages is a
  \<open>codec\<close>; OpenSSL and the file system are the record \<open>tls\<close>; time is a \<open>clock\<close>; the DNS resolvers
  are a record \<open>resolving\<close>; the host's interfaces are a list; picoquic's configuration and the
  URL parser are the records \<open>quic_ops\<close> and \<open>url_ops\<close>; the cache of announcements is a record
  \<open>lru\<close>; the hex coder, \<^verbatim>\<open>select_ok\<close> and the mDNS discovery are functions. The hypotheses about
  them are \<open>timer_documented\<close> (a delay is ready exactly from its deadline on), \<open>hex_documented\<close>
  (decoding undoes encoding, digits are no dots), \<open>quic_documented\<close> (a setter sets what it is named
  after), that \<^verbatim>\<open>select_ok\<close> panics on an empty list, that the cache returns an entry it took and
  still keeps, \<open>two_ends\<close> (the certificates presented at one end of a connection are those of the
  peer at the other end), and \<open>prompt_sink\<close> (the framed sink takes and
  flushes what it is given); the theorems about lost messages show what happens when the last
  one fails.

  \<^bold>\<open>Loops and bounds.\<close> A loop over the answers of a tape is a terminating function, because every
  round consumes an answer. The state machines of \<open>Connect\<close> and \<open>Build\<close> are run with a bound from
  their rank; \<open>build_poll_terminates\<close> shows that six handler calls are always enough. The loop for
  the next address need not end: it is a partial function into \<open>option\<close>, and the handler
  runs with fuel; \<open>handler_poll_terminates\<close> shows that fuel beyond \<open>handler_rank\<close> is enough, and
  \<open>get_next_addr_hot_loop\<close> that the pause it asks for is needed. The responder needs at most four
  handler calls (\<open>responder_poll_ends\<close>), and at most ten requests wait for an announcement
  (\<open>mdns_queue_bounded\<close>). The loop that accepts connections ends because every round takes an
  arrival. The registration token is a 64 bit word and wraps, as in a build without overflow
  checks; with them, the addition panics at the same point.

  \<^bold>\<open>Time.\<close> Instants are natural numbers of nanoseconds up to the \<open>last_instant\<close> of the clock. The
  additions of configured durations where the remote registry starts, resolves anew and connects
  are checked and panic beyond it (\<open>get_next_addr_new\<close>, \<open>get_next_addr_poll\<close>, \<open>outgoing_stream_panics\<close>,
  which has the panic of an interval of zero as well). The other additions are taken to be
  representable: constants of at most ten seconds, the time-out a caller passes to reach a peer,
  and the later resets of timers whose first deadline was.

  \<^bold>\<open>What the theorems show.\<close>
  \<^item> Identity: what the registry hands out is a live connection, named after the certificate of its
    own handshake (\<open>registered_is_connected\<close>), in every state of a whole node
    (\<open>node_registry_sound\<close>); the key of a handshake waits for its own connection
    (\<open>handshake_key_reserved\<close>); a stream marked as direct carries the authenticated name
    (\<open>incoming_direct_authentic\<close>, \<open>build_stream_origin\<close>); a relay vouches only for names it has
    authenticated itself (\<open>incoming_proxy\<close>, \<open>proxied_stream_labels\<close>).
  \<^item> The exchange: \<open>hole_punch_exchange\<close> and the theorems of \<open>Build\<close> on its end.
  \<^item> The look-up: \<open>remote_lookup\<close>, nobody forgotten or answered twice
    (\<open>outgoing_exactly_once\<close>), the search over several registries (\<open>find_peer_asks_all\<close>); over
    mDNS, a peer is read back under the name it announced (\<open>mdns_name_roundtrip\<close>), an announcement
    reaches the one who waits (\<open>mdns_request_served\<close>), nobody who waits is forgotten or pushed aside
    (\<open>mdns_request_waits\<close>), and who asks later is served from the cache (\<open>mdns_cache_serves\<close>).
  \<^item> The interface: a context starts in a state the other theorems speak about
    or panics for the one reason stated (\<open>context_new_sound\<close>), its inner task stays within such states and accepts every authenticated
    arrival (\<open>context_inner_keeps_node\<close>, \<open>context_accepts_arrivals\<close>), and asking for a peer
    gives a direct stream when it is connected and otherwise what the registries decide
    (\<open>create_connected_opens\<close>, \<open>create_search_outcome\<close>); such a stream arrives at the other user
    (\<open>direct_stream_end_to_end\<close>).
  \<^item> Bytes: nothing is lost or reordered by reading, whatever a stream boxes, by switching protocols
    or while relaying (\<open>stream_delivers_bytes\<close>, \<open>boxed_stream_delivers\<close>,
    \<open>protocol_switch_keeps_bytes\<close>, \<open>relay_conserves\<close>); a relay that ends has delivered one
    direction and cuts off the other (\<open>relay_end_delivers\<close>).
  \<^item> Limits of the code, each with a concrete run: tokens used again, hello messages and requests
    lost when a sink is not ready, a stream thrown away when a strategy is tried after another,
    panics a remote peer or a host of the local network can trigger, a panic that poisons the
    registry of the node, the half-closed relay, the fallback after the first failed attempt.

  \<^bold>\<open>Not modelled.\<close> \<^verbatim>\<open>lib.rs\<close> and \<^verbatim>\<open>registries/mod.rs\<close> (re-exports), logging, the tests except the
  mock stream and the two unit tests of \<^verbatim>\<open>strategies/mod.rs\<close>. How \<^verbatim>\<open>select_ok\<close> polls the attempts it
  is given, the merging of resolver streams, the scheduling of tasks by tokio and the reaction of
  picoquic to a dropped stream are third-party. The step relations allow any interleaving of
  polls; that two tasks hold a mutex at the same time is excluded by the mutex.
\<close>

section \<open>What one side writes and the other side reads\<close>

text \<open>The messages of a protocol among the frames written to a stream.\<close>

definition registry_messages :: "frame list \<Rightarrow> registry_protocol list" where
  "registry_messages fs = concat (map (\<lambda>f. case f of RegistryFrame m \<Rightarrow> [m] | _ \<Rightarrow> []) fs)"

definition build_messages :: "frame list \<Rightarrow> build_protocol list" where
  "build_messages fs = concat (map (\<lambda>f. case f of BuildFrame m \<Rightarrow> [m] | _ \<Rightarrow> []) fs)"

definition hello_messages :: "frame list \<Rightarrow> stream_hello list" where
  "hello_messages fs = concat (map (\<lambda>f. case f of HelloFrame m \<Rightarrow> [m] | _ \<Rightarrow> []) fs)"

definition receive :: "'p list \<Rightarrow> 'p pstream \<Rightarrow> 'p pstream" where
  "receive ms p = p\<lparr>ps_msgs := items_tape ms\<rparr>"

lemma messages_simps [simp]:
  "registry_messages [] = []" "registry_messages (RegistryFrame m # fs) = m # registry_messages fs"
  "build_messages [] = []" "build_messages (BuildFrame b # fs) = b # build_messages fs"
  "hello_messages [] = []" "hello_messages (HelloFrame h # fs) = h # hello_messages fs"
  by (simp_all add: registry_messages_def build_messages_def hello_messages_def)

lemma receive_simps [simp]:
  "ps_msgs (receive ms p) = items_tape ms" "ps_codec (receive ms p) = ps_codec p"
  "ps_io (receive ms p) = ps_io p" "ps_write_buf (receive ms p) = ps_write_buf p" "ps_calls (receive ms p) = ps_calls p"
  by (simp_all add: receive_def)

section \<open>A look-up at a remote peer\<close>

lemma find_requests_none:
  "os_find_peer_request s = [] \<Longrightarrow> poll_find_peer_request s = (Ok NotReady, s, [])"
  by (subst poll_find_peer_request.simps) (simp add: Let_def)

lemma find_requests_one:
  assumes "os_find_peer_request s = items_tape [(p, x)]" "\<not> rs_canceled x" "p \<noteq> os_peer_identifier s"
    and "os_requests s p = None" "prompt_sink (ps_codec (os_stream s))"
  shows "poll_find_peer_request s = (Ok NotReady, s\<lparr>os_find_peer_request := [],
      os_requests := (os_requests s)(p \<mapsto> [x]), os_stream := snd (ps_send RegistryFrame (Find p) (os_stream s))\<rparr>, [])"
proof -
  let ?ps = "snd (ps_send RegistryFrame (Find p) (os_stream s))"
  have "ps_send RegistryFrame (Find p) (os_stream s) = (Ok (), ?ps)" using assms(5) by (simp add: ps_send_prompt)
  from find_request_step(4) [of s p x "[]", OF _ assms(2-4) this] assms(1) show ?thesis
    by (simp add: find_requests_none)
qed

text \<open>One round of pings on a stream whose deadline is not reached.\<close>

lemma ping_pong_in_time:
  assumes "timer_documented clk" "now clk < os_pong_timeout s" "prompt_sink (ps_codec (os_stream s))"
  shows "\<exists>s' fs. poll_ping_and_pong clk s = (Ok (), s') \<and> os_requests s' = os_requests s \<and>
    os_new_stream_handle s' = os_new_stream_handle s \<and> os_find_peer_request s' = os_find_peer_request s \<and>
    os_pong_timeout s' = os_pong_timeout s \<and> os_pong_timeout_duration s' = os_pong_timeout_duration s \<and>
    os_peer_identifier s' = os_peer_identifier s \<and>
    ps_msgs (os_stream s') = ps_msgs (os_stream s) \<and> ps_codec (os_stream s') = ps_codec (os_stream s) \<and>
    (ps_write_buf (os_stream s) = [] \<longrightarrow> ps_write_buf (os_stream s') = []) \<and>
    ps_written (os_stream s') = ps_written (os_stream s) @ fs \<and> (fs = [] \<or> fs = [RegistryFrame Ping])"
  using assms
  by (cases "iv_next (os_ping_interval s) \<le> now clk")
    (simp_all add: poll_ping_and_pong_def interval_poll_def timer_documentedD Let_def ps_send_prompt ps_written_def)

lemma outgoing_idle:
  "ps_msgs (os_stream s) = [] \<Longrightarrow> outgoing_messages clk s = (Ok NotReady, s\<lparr>os_stream := ps_advance (os_stream s)\<rparr>, [])"
  by (simp add: outgoing_messages.simps [of clk s] Let_def)

lemma outgoing_pong:
  assumes "timer_documented clk" "0 < os_pong_timeout_duration s" "ps_msgs (os_stream s) = items_tape [Pong]"
  shows "\<exists>s'. outgoing_messages clk s = (Ok NotReady, s', [])"
  using assms outgoing_messages_step(5) [of s Pong "[]" clk]
  by (simp add: timer_documentedD Let_def outgoing_idle)

lemma lookup_answered:
  assumes "timer_documented clk" "0 < os_pong_timeout_duration s" "os_requests s p = Some [x]"
    and "ps_msgs (os_stream s) = items_tape (m # ms)" "ms = [] \<or> ms = [Pong]"
    and "m = Found p \<and> res = FoundRemote (os_new_stream_handle s) \<or> m = NotFound p \<and> res = RNotFound"
  shows "\<exists>s'. outgoing_messages clk s = (Ok NotReady, s', [(rs_id x, res)])"
proof -
  let ?s = "s\<lparr>os_stream := (ps_advance (os_stream s))\<lparr>ps_msgs := items_tape ms\<rparr>\<rparr>"
  let ?s2 = "?s\<lparr>os_requests := (os_requests s)(p := None)\<rparr>"
  have "\<exists>s'. outgoing_messages clk ?s2 = (Ok NotReady, s', [])"
    using assms(5) outgoing_idle [of ?s2 clk] outgoing_pong [OF assms(1), of ?s2] assms(2) by auto
  moreover have "answer_requests p res ?s = (?s2, [(rs_id x, res)])"
    using assms(3) by (simp add: answer_requests_def)
  ultimately show ?thesis
    using assms(4,6) outgoing_messages_step(1,2) [of s m "items_tape ms" p clk] by auto
qed

lemma outgoing_new_simps [simp]:
  "os_find_peer_request (outgoing_stream_new cdr clk io nsh t ping peer) = t"
  "os_peer_identifier (outgoing_stream_new cdr clk io nsh t ping peer) = peer"
  "os_requests (outgoing_stream_new cdr clk io nsh t ping peer) = Map.empty"
  "os_new_stream_handle (outgoing_stream_new cdr clk io nsh t ping peer) = nsh"
  "os_pong_timeout (outgoing_stream_new cdr clk io nsh t ping peer) = now clk + 3 * ping"
  "os_pong_timeout_duration (outgoing_stream_new cdr clk io nsh t ping peer) = 3 * ping"
  "os_stream (outgoing_stream_new cdr clk io nsh t ping peer) = pstream_new cdr io"
  by (simp_all add: outgoing_stream_new_def Let_def mult.commute)

text \<open>The first poll puts the question.\<close>

lemma client_asks:
  assumes "timer_documented clk" "now clk < now clk0 + 3 * ping" "prompt_sink cdr" "cd_msgs cdr io = []"
    and "io_out io = []" "p \<noteq> peer" "\<not> rs_canceled x"
  obtains s fs where
    "outgoing_poll clk (outgoing_stream_new cdr clk0 io nsh (items_tape [(p, x)]) ping peer) = (Ok NotReady, s, [])"
    "os_requests s = [p \<mapsto> [x]]" "os_new_stream_handle s = nsh" "os_find_peer_request s = []"
    "os_pong_timeout s = now clk0 + 3 * ping" "os_pong_timeout_duration s = 3 * ping"
    "ps_codec (os_stream s) = cdr" "io_out (ps_io (os_stream s)) = RegistryFrame (Find p) # fs"
    "fs = [] \<or> fs = [RegistryFrame Ping]"
proof -
  let ?s = "outgoing_stream_new cdr clk0 io nsh (items_tape [(p, x)]) ping peer"
  let ?ps = "snd (ps_send RegistryFrame (Find p) (pstream_new cdr io))"
  let ?s1 = "?s\<lparr>os_find_peer_request := [], os_requests := [p \<mapsto> [x]], os_stream := ?ps\<rparr>"
  have ps: "ps_msgs ?ps = []" "ps_codec ?ps = cdr" "ps_write_buf ?ps = []" "ps_written ?ps = [RegistryFrame (Find p)]"
    using assms(3-5) by (simp_all add: ps_send_prompt ps_written_def)
  have find: "poll_find_peer_request ?s = (Ok NotReady, ?s1, [])"
    using find_requests_one [of ?s p x] assms(3,6,7) by simp
  obtain s fs where ping: "poll_ping_and_pong clk ?s1 = (Ok (), s)" "os_requests s = [p \<mapsto> [x]]"
    "os_new_stream_handle s = nsh" "os_find_peer_request s = []" "os_pong_timeout s = now clk0 + 3 * ping"
    "os_pong_timeout_duration s = 3 * ping" "ps_msgs (os_stream s) = []" "ps_codec (os_stream s) = cdr"
    "ps_write_buf (os_stream s) = []" "ps_written (os_stream s) = RegistryFrame (Find p) # fs"
    "fs = [] \<or> fs = [RegistryFrame Ping]"
    using ping_pong_in_time [OF assms(1), of ?s1] assms(2,3) ps by auto
  show ?thesis
  proof (rule that [of "s\<lparr>os_stream := ps_advance (os_stream s)\<rparr>" fs])
    show "outgoing_poll clk ?s = (Ok NotReady, s\<lparr>os_stream := ps_advance (os_stream s)\<rparr>, [])"
      using find ping(1,7) by (simp add: outgoing_poll_def outgoing_idle)
  qed (use ping in \<open>simp_all add: ps_written_def\<close>)
qed

text \<open>The second poll hands the answer over.\<close>

lemma client_is_answered:
  assumes "timer_documented clk" "now clk < os_pong_timeout s" "0 < os_pong_timeout_duration s"
    and "prompt_sink (ps_codec (os_stream s))" "os_requests s p = Some [x]" "os_find_peer_request s = []"
    and "ps_msgs (os_stream s) = items_tape (m # ms)" "ms = [] \<or> ms = [Pong]"
    and "m = Found p \<and> res = FoundRemote (os_new_stream_handle s) \<or> m = NotFound p \<and> res = RNotFound"
  shows "\<exists>s'. outgoing_poll clk s = (Ok NotReady, s', [(rs_id x, res)])"
proof -
  obtain s1 where ping: "poll_ping_and_pong clk s = (Ok (), s1)" "os_requests s1 p = Some [x]"
    "os_new_stream_handle s1 = os_new_stream_handle s" "os_pong_timeout_duration s1 = os_pong_timeout_duration s"
    "ps_msgs (os_stream s1) = items_tape (m # ms)"
    using ping_pong_in_time [OF assms(1,2,4)] assms(5,7) by auto
  have "\<exists>s'. outgoing_messages clk s1 = (Ok NotReady, s', [(rs_id x, res)])"
    using assms ping by (intro lookup_answered [OF assms(1) _ _ ping(5)]) auto
  then show ?thesis using ping(1) assms(6) by (auto simp: outgoing_poll_def find_requests_none)
qed

text \<open>
  C2. A look-up at a remote peer, from end to end: the request is put to the remote peer, its
  answer is the state of its table of connected peers, and the one who asked gets the handle of
  the connection to that remote peer if, and only if, the searched peer is connected there.
\<close>

theorem remote_lookup:
  assumes "timer_documented clk" "timer_documented clk'" "now clk \<le> now clk'" "now clk' < now clk0 + 3 * ping"
    and "prompt_sink cdr" "cd_msgs cdr io = []" "io_out io = []" "p \<noteq> peer" "\<not> rs_canceled x" "0 < ping"
    and "prompt_sink (ps_codec sp)" "ps_write_buf sp = []" "io_out (ps_io sp) = []"
  shows "\<exists>s1 sv s2.
    outgoing_poll clk (outgoing_stream_new cdr clk0 io nsh (items_tape [(p, x)]) ping peer) = (Ok NotReady, s1, []) \<and>
    registry_stream_poll reg \<lparr>ris_stream = receive (registry_messages (io_out (ps_io (os_stream s1)))) sp\<rparr> =
      (Ok NotReady, sv) \<and>
    outgoing_poll clk' (s1\<lparr>os_stream := receive (registry_messages (io_out (ps_io (ris_stream sv)))) (os_stream s1)\<rparr>) =
      (Ok NotReady, s2, [(rs_id x, if inner_peer reg p = None then RNotFound else FoundRemote nsh)])"
proof -
  have clk: "now clk < now clk0 + 3 * ping" using assms(3,4) by simp
  obtain s fs where ask:
    "outgoing_poll clk (outgoing_stream_new cdr clk0 io nsh (items_tape [(p, x)]) ping peer) = (Ok NotReady, s, [])"
    "os_requests s = [p \<mapsto> [x]]" "os_new_stream_handle s = nsh" "os_find_peer_request s = []"
    "os_pong_timeout s = now clk0 + 3 * ping" "os_pong_timeout_duration s = 3 * ping"
    "ps_codec (os_stream s) = cdr" "io_out (ps_io (os_stream s)) = RegistryFrame (Find p) # fs"
    "fs = [] \<or> fs = [RegistryFrame Ping]"
    using client_asks [OF assms(1) clk assms(5-9), of nsh] by blast
  let ?ms = "Find p # registry_messages fs"
  let ?a = "if inner_peer reg p = None then NotFound p else Found p"
  obtain sv where sv: "registry_stream_poll reg \<lparr>ris_stream = receive ?ms sp\<rparr> = (Ok NotReady, sv)"
    "io_out (ps_io (ris_stream sv)) = concat (map (registry_answer reg) ?ms)"
    using registry_stream_answers [of "\<lparr>ris_stream = receive ?ms sp\<rparr>" ?ms reg] assms(11-13) by auto
  obtain ms where ms: "registry_messages (io_out (ps_io (ris_stream sv))) = ?a # ms" "ms = [] \<or> ms = [Pong]"
    using ask(9) sv(2) by (auto simp: has_peer_iff)
  have "\<exists>s2. outgoing_poll clk' (s\<lparr>os_stream := receive (?a # ms) (os_stream s)\<rparr>) =
      (Ok NotReady, s2, [(rs_id x, if inner_peer reg p = None then RNotFound else FoundRemote nsh)])"
    by (rule client_is_answered [OF assms(2), of _ p x ?a ms]) (use assms(4,5,10) ask ms(2) in auto)
  with ask(1,8) sv(1) ms(1) show ?thesis by auto
qed

theorem remote_lookup_witness:
  "\<exists>s1 sv s2.
    outgoing_poll (documented_clock 1) (outgoing_stream_new (prompt_codec []) (documented_clock 0) (demo_stream [])
      (demo_handle [3] [1]) (items_tape [([2], \<lparr>rs_id = 0, rs_canceled = False\<rparr>)]) 5 [3]) = (Ok NotReady, s1, []) \<and>
    registry_stream_poll (snd (register_peer [2] (demo_handle [2] [3]) (inner_new :: unit inner)))
      \<lparr>ris_stream = receive (registry_messages (io_out (ps_io (os_stream s1)))) (pstream_new (prompt_codec []) (demo_stream []))\<rparr> =
      (Ok NotReady, sv) \<and>
    outgoing_poll (documented_clock 2)
      (s1\<lparr>os_stream := receive (registry_messages (io_out (ps_io (ris_stream sv)))) (os_stream s1)\<rparr>) =
      (Ok NotReady, s2, [(0, FoundRemote (demo_handle [3] [1]))])"
proof -
  have out: "io_out (demo_stream []) = []"
    by (simp add: demo_defs io_out_def ss_new_def stream_wrapper_new_def)
  have reg: "inner_peer (snd (register_peer [2] (demo_handle [2] [3]) (inner_new :: unit inner))) [2] \<noteq> None"
    by (simp add: inner_peer_def register_entry)
  show ?thesis
    using remote_lookup [of "documented_clock 1" "documented_clock 2" "documented_clock 0" 5 "prompt_codec []"
      "demo_stream []" "[2]" "[3]" "\<lparr>rs_id = 0, rs_canceled = False\<rparr>"
      "pstream_new (prompt_codec []) (demo_stream [])" "demo_handle [3] [1]"
      "snd (register_peer [2] (demo_handle [2] [3]) (inner_new :: unit inner))"] out reg
    by simp
qed

section \<open>The address exchange between three peers\<close>

text \<open>
  C1. The hole punching exchange fits together: the peer in the middle tells both sides their
  address; with what the others write as its input, each side sends the addresses of its
  interfaces and the address it was told; so the initiating peer dials exactly the addresses the
  requested peer is reachable under, and the requested peer pokes exactly those of the
  initiating peer.
\<close>

theorem hole_punch_exchange:
  assumes "prompt_sink c0" "prompt_sink c1" "io_out s0 = []" "io_out s1 = []"
    and "prompt_sink (ps_codec ps0)" "ps_written ps0 = []"
    and "br_stream b = Some ps2" "prompt_sink (ps_codec ps2)" "ps_written ps2 = []"
  shows "\<exists>s0' s1' ps0' b' e ps2'.
    prepare_streams_for_building c0 c1 s0 s1 = Ok (s0', s1') \<and>
    build_poll pq cdh cdb ifs0 clk (n, WaitingForInternetAddressInformation
        (receive (build_messages (io_out s0') @ build_messages (io_out (ps_io ps2'))) ps0) d nch nsh peer local) =
      build_poll pq cdh cdb ifs0 clk (n, WaitingForConnection (timeout_new clk d)
        (map (new_connection pq nch)
           (get_interface_addresses ifs2 (io_local_addr (ps_io ps2)) @ [io_peer_addr s1])) ps0' local peer nsh) \<and>
    build_remote_poll pq2 ifs2 (b\<lparr>br_stream := Some (receive
        (build_messages (io_out s1') @ build_messages (io_out (ps_io ps0'))) ps2)\<rparr>) = (Ok NotReady, b', e) \<and>
    br_stream b' = Some ps2' \<and>
    map fst (be_pokes e) = get_interface_addresses ifs0 (io_local_addr (ps_io ps0)) @ [io_peer_addr s0]"
proof -
  let ?e0 = "ExchangeAddressInformation (get_interface_addresses ifs0 (io_local_addr (ps_io ps0)) @ [io_peer_addr s0])"
  let ?e2 = "ExchangeAddressInformation (get_interface_addresses ifs2 (io_local_addr (ps_io ps2)) @ [io_peer_addr s1])"
  let ?i0 = "InternetAddressInformation (io_peer_addr s0)" and ?i2 = "InternetAddressInformation (io_peer_addr s1)"
  obtain s0' s1' where mid: "prepare_streams_for_building c0 c1 s0 s1 = Ok (s0', s1')"
    "build_messages (io_out s0') = [?i0]" "build_messages (io_out s1') = [?i2]"
    using prepare_streams_addresses [OF assms(1,2), of s0 s1] assms(3,4) by auto
  let ?ps0 = "receive [?i0, ?e2] ps0"
  have written: "ps_written ?ps0 = []" "ps_written (receive [?i2, ?e0] ps2) = []"
    using assms(6,9) by (simp_all add: ps_written_def)
  obtain ps0' where init:
    "build_poll pq cdh cdb ifs0 clk (n, WaitingForInternetAddressInformation ?ps0 d nch nsh peer local) =
       build_poll pq cdh cdb ifs0 clk (n, WaitingForConnection (timeout_new clk d) (map (new_connection pq nch)
         (get_interface_addresses ifs2 (io_local_addr (ps_io ps2)) @ [io_peer_addr s1])) ps0' local peer nsh)"
    "build_messages (io_out (ps_io ps0')) = [?e0]"
    using build_exchange [of ?ps0 "io_peer_addr s0" _ "[]" pq cdh cdb ifs0 clk n d nch nsh peer local] assms(5) written(1)
    by (auto simp: ps_written_def)
  let ?b = "b\<lparr>br_stream := Some (receive [?i2, ?e0] ps2)\<rparr>"
  obtain b' e ps2' where remote: "build_remote_poll pq2 ifs2 ?b = (Ok NotReady, b', e)" "br_stream b' = Some ps2'"
    "map fst (be_pokes e) = get_interface_addresses ifs0 (io_local_addr (ps_io ps0)) @ [io_peer_addr s0]"
    "build_messages (io_out (ps_io ps2')) = [?e2]"
    using build_remote_exchange [of ?b "receive [?i2, ?e0] ps2" "io_peer_addr s1" _ pq2 ifs2] assms(8) written(2)
    by (auto simp: o_def)
  show ?thesis
    using mid init remote
    by (intro exI [of _ s0'] exI [of _ s1'] exI [of _ ps0'] exI [of _ b'] exI [of _ e] exI [of _ ps2'] conjI) simp_all
qed

theorem hole_punch_exchange_witness:
  "\<exists>s0' s1' ps0' b' e ps2'.
    prepare_streams_for_building (prompt_codec []) (prompt_codec []) (demo_stream []) (demo_stream []) = Ok (s0', s1') \<and>
    build_poll demo_picoquic (prompt_codec []) (prompt_codec []) [] (documented_clock 0) (demo_node [9],
        WaitingForInternetAddressInformation (receive (build_messages (io_out s0') @ build_messages (io_out (ps_io ps2')))
          (pstream_new (prompt_codec []) (demo_stream []))) 5 (demo_con_handle [1]) (demo_handle [3] [1]) [2] [1]) =
      build_poll demo_picoquic (prompt_codec []) (prompt_codec []) [] (documented_clock 0) (demo_node [9],
        WaitingForConnection (timeout_new (documented_clock 0) 5) (map (new_connection demo_picoquic (demo_con_handle [1]))
          (get_interface_addresses [] (io_local_addr (ps_io (pstream_new (prompt_codec []) (demo_stream [])
             :: build_protocol pstream))) @ [io_peer_addr (demo_stream [])])) ps0' [1] [2] (demo_handle [3] [1])) \<and>
    build_remote_poll demo_picoquic [] ((build_remote_new (prompt_codec []) (demo_stream []) [1] (demo_handle [3] [2])
        (demo_con_handle [2]))\<lparr>br_stream := Some (receive
        (build_messages (io_out s1') @ build_messages (io_out (ps_io ps0')))
        (pstream_new (prompt_codec []) (demo_stream [])))\<rparr>) = (Ok NotReady, b', e) \<and>
    br_stream b' = Some ps2' \<and>
    map fst (be_pokes e) = get_interface_addresses [] (io_local_addr (ps_io (pstream_new (prompt_codec [])
      (demo_stream []) :: build_protocol pstream))) @ [io_peer_addr (demo_stream [])]"
proof (rule hole_punch_exchange)
  show out: "io_out (demo_stream []) = []" "io_out (demo_stream []) = []"
    by (simp_all add: demo_defs io_out_def ss_new_def stream_wrapper_new_def)
  show "br_stream (build_remote_new (prompt_codec []) (demo_stream []) [1] (demo_handle [3] [2]) (demo_con_handle [2])) =
      Some (pstream_new (prompt_codec []) (demo_stream []))"
    by (simp add: build_remote_new_def)
  show "ps_written (pstream_new (prompt_codec []) (demo_stream []) :: build_protocol pstream) = []"
    "ps_written (pstream_new (prompt_codec []) (demo_stream []) :: build_protocol pstream) = []"
    using out by (simp_all add: ps_written_def)
qed simp_all

section \<open>A stream through a peer in the middle\<close>

text \<open>
  C4. A proxied stream arrives under the right name: a stream opened by peer \<open>p0\<close> for peer
  \<open>p2\<close> over a handle that leads through \<open>p1\<close> is announced to \<open>p1\<close> with the target; \<open>p1\<close>,
  which has authenticated \<open>p0\<close>, opens a stream to \<open>p2\<close> in the name of \<open>p0\<close>; and \<open>p2\<close>, which is
  connected to \<open>p1\<close>, hands its user a stream that is labelled with \<open>p0\<close> and as proxied.
\<close>

theorem proxied_stream_labels:
  assumes "nsh_proxy_stream h0" "nsh_peer_identifier h0 = p2"
      "handle_new_stream pq0 (nsh_new_stream_handle h0) = Ok (Ready v0) # t0" "io_out v0 = []" "prompt_sink cd0"
    and "is_ok (timeout_poll clk1 (is_timeout i1))" "is_peer_identifier i1 = p0" "inner_peer reg1 p2 = Some h1"
      "handle_new_stream pq1 (nsh_new_stream_handle h1) = Ok (Ready v1) # t1" "io_out v1 = []" "prompt_sink cd1"
    and "is_ok (timeout_poll clk2 (is_timeout i2))" "is_peer_identifier i2 = p1" "p0 \<noteq> p1"
  shows "\<exists>st0 f0 e1 t s0 s1 t' e2 st2.
    new_stream_poll cd0 (new_stream pq0 h0) = Some (Ok (Ready st0), f0) \<and>
    st_peer_identifier st0 = p2 \<and> \<not> is_p2p st0 \<and>
    incoming_poll pq1 co clk1 reg1 (i1\<lparr>is_stream := Some (receive (hello_messages (io_out (st_stream st0))) ps1)\<rparr>) =
      (Ok (Ready ()), i1\<lparr>is_stream := None\<rparr>, e1) \<and> ie_spawned e1 = [TaskProxy t] \<and>
    proxy_poll dbg cd1 cdb0 cdb1 t = Some (Ok (Ready (s0, s1)), t') \<and>
    incoming_poll pq2 co2 clk2 reg2 (i2\<lparr>is_stream := Some (receive (hello_messages (io_out s1)) ps2)\<rparr>) =
      (Ok (Ready ()), i2\<lparr>is_stream := None\<rparr>, e2) \<and> ie_passed e2 = [st2] \<and>
    st_peer_identifier st2 = p0 \<and> \<not> is_p2p st2"
proof -
  obtain st0 f0 where open0: "new_stream_poll cd0 (new_stream pq0 h0) = Some (Ok (Ready st0), f0)"
    "st_peer_identifier st0 = p2" "\<not> is_p2p st0" "hello_messages (io_out (st_stream st0)) = [UserProxy p2]"
    using assms(1-5) by (simp add: new_stream_poll_def hello_target_def Let_def ps_send_prompt is_p2p_def)
  let ?i1 = "i1\<lparr>is_stream := Some (receive [UserProxy p2] ps1)\<rparr>"
  obtain e1 t where mid: "incoming_poll pq1 co clk1 reg1 ?i1 = (Ok (Ready ()), i1\<lparr>is_stream := None\<rparr>, e1)"
    "ie_spawned e1 = [TaskProxy t]" "px_new_stream t = new_stream_with_hello pq1 h1 (User p0)" "\<not> px_building t"
    using incoming_poll_hello [of clk1 ?i1 "receive [UserProxy p2] ps1" "UserProxy p2" "[]" pq1 co reg1] assms(6-8)
    by (simp add: handle_proxy_stream_def)
  obtain s0 s1 t' where relay: "proxy_poll dbg cd1 cdb0 cdb1 t = Some (Ok (Ready (s0, s1)), t')"
    "hello_messages (io_out s1) = [User p0]"
    using assms(9-11) mid(3,4)
    by (simp add: proxy_poll_def new_stream_poll_def hello_target_def Let_def ps_send_prompt)
  let ?i2 = "i2\<lparr>is_stream := Some (receive [User p0] ps2)\<rparr>"
  obtain e2 st2 where end2: "incoming_poll pq2 co2 clk2 reg2 ?i2 = (Ok (Ready ()), i2\<lparr>is_stream := None\<rparr>, e2)"
    "ie_passed e2 = [st2]" "st_peer_identifier st2 = p0" "\<not> is_p2p st2"
    using incoming_poll_hello [of clk2 ?i2 "receive [User p0] ps2" "User p0" "[]" pq2 co2 reg2] assms(12-14)
    by (simp add: is_p2p_def)
  show ?thesis
    using open0 mid relay end2
    by (auto intro!: exI [of _ st0] exI [of _ e1] exI [of _ t] exI [of _ s0] exI [of _ s1] exI [of _ e2])
qed

theorem proxied_stream_labels_witness:
  "\<exists>st0 f0 e1 t s0 s1 t' e2 st2.
    new_stream_poll (prompt_codec []) (new_stream demo_picoquic (set_proxy_stream True [2] (demo_handle [1] [0]))) =
      Some (Ok (Ready st0), f0) \<and> st_peer_identifier st0 = [2] \<and> \<not> is_p2p st0 \<and>
    incoming_poll demo_picoquic demo_codecs (documented_clock 1)
      (snd (register_peer [2] (demo_handle [2] [1]) (inner_new :: unit inner)))
      ((demo_incoming [] [0])\<lparr>is_stream := Some (receive (hello_messages (io_out (st_stream st0)))
        (pstream_new (prompt_codec []) (demo_stream [])))\<rparr>) =
      (Ok (Ready ()), (demo_incoming [] [0])\<lparr>is_stream := None\<rparr>, e1) \<and> ie_spawned e1 = [TaskProxy t] \<and>
    proxy_poll (\<lambda>_. []) (prompt_codec []) (prompt_codec []) (prompt_codec []) t = Some (Ok (Ready (s0, s1)), t') \<and>
    incoming_poll demo_picoquic demo_codecs (documented_clock 1) (inner_new :: unit inner)
      ((demo_incoming [] [1])\<lparr>is_stream := Some (receive (hello_messages (io_out s1))
        (pstream_new (prompt_codec []) (demo_stream [])))\<rparr>) =
      (Ok (Ready ()), (demo_incoming [] [1])\<lparr>is_stream := None\<rparr>, e2) \<and> ie_passed e2 = [st2] \<and>
    st_peer_identifier st2 = [0] \<and> \<not> is_p2p st2"
proof (rule proxied_stream_labels [where ?p1.0 = "[1]"])
  show "is_ok (timeout_poll (documented_clock 1) (is_timeout (demo_incoming [] [0])))"
    "is_ok (timeout_poll (documented_clock 1) (is_timeout (demo_incoming [] [1])))"
    by (rule incoming_running; simp add: demo_incoming_defs)+
  show "inner_peer (snd (register_peer [2] (demo_handle [2] [1]) (inner_new :: unit inner))) [2] = Some (demo_handle [2] [1])"
    by (simp add: inner_peer_def register_entry)
  show "handle_new_stream demo_picoquic (nsh_new_stream_handle (set_proxy_stream True [2] (demo_handle [1] [0]))) =
      Ok (Ready (demo_stream [])) # []"
    "handle_new_stream demo_picoquic (nsh_new_stream_handle (demo_handle [2] [1])) = Ok (Ready (demo_stream [])) # []"
    by (simp_all add: handle_new_stream_def demo_defs set_proxy_stream_def new_stream_handle_new_def)
  show "io_out (demo_stream []) = []" "io_out (demo_stream []) = []"
    by (simp_all add: demo_defs io_out_def ss_new_def stream_wrapper_new_def)
qed (simp_all add: set_proxy_stream_def demo_incoming_defs)

section \<open>A direct stream from one user to the other\<close>

text \<open>A connection that is handed one stream by the transport spawns its task and waits on.\<close>

lemma connection_poll_one:
  assumes "pqc_in (cw_con (cn_con c)) = [Ok (Ready (Some v))]"
  shows "\<exists>c'. connection_poll cd clk c reg = ([incoming_stream_new cd clk (con_wrap_stream (cw_con (cn_con c)) v) (from_secs 10)
    (cn_peer_identifier c) (cn_new_stream_handle c) (cn_new_con_handle c)], Ok NotReady, c', reg)"
proof -
  obtain w where w: "con_poll (cn_con c) = (Ok (Ready (Some (con_wrap_stream (cw_con (cn_con c)) v))), w)"
    "pqc_in (cw_con w) = []"
    using assms by (simp add: con_poll_def)
  then have "\<exists>c'. connection_poll cd clk (c\<lparr>cn_con := w\<rparr>) reg = ([], Ok NotReady, c', reg)"
    by (subst connection_poll.simps) (simp add: con_poll_def)
  with w(1) show ?thesis by (subst connection_poll.simps) (auto simp: Let_def split: prod.splits)
qed

text \<open>What is passed to a context arrives at its user.\<close>

lemma passed_stream_arrives:
  assumes "psc_alive chan" "psc_sent chan = []" "\<not> ready_or_err (fst (poll_tape (cx_context_inner_handle cx)))"
  shows "fst (context_poll (cx\<lparr>cx_new_stream_recv := items_tape (psc_sent (pass_stream s chan))\<rparr>)) = Ok (Ready (Some s))"
  using assms by (cases "poll_tape (cx_context_inner_handle cx)") (simp add: context_poll_def pass_stream_def Let_def)

text \<open>
  Two connections of two peers are the ends of one transport connection: every certificate a peer
  was presented in the handshakes of its end is the certificate of the other peer. This is what
  TLS gives the two sides of a connection.
\<close>

definition two_ends ::
  "'cert handshake list \<Rightarrow> connection \<Rightarrow> 'cert \<Rightarrow> 'cert handshake list \<Rightarrow> connection \<Rightarrow> 'cert \<Rightarrow> bool" where
  "two_ends hsA cA certA hsB cB certB \<longleftrightarrow>
     (\<forall>(cid, cert, r) \<in> set hsA. cid = con_connection_id (cn_con cA) \<longrightarrow> cert = certB) \<and>
     (\<forall>(cid, cert, r) \<in> set hsB. cid = con_connection_id (cn_con cB) \<longrightarrow> cert = certA)"

text \<open>Each end is named after the certificate of the other one.\<close>

lemma two_ends_identity:
  assumes "two_ends hsA cA certA hsB cB certB"
  shows "authenticated TA hsA (con_connection_id (cn_con cA)) p \<Longrightarrow> cert_identity TA certB p"
    and "authenticated TB hsB (con_connection_id (cn_con cB)) q \<Longrightarrow> cert_identity TB certA q"
  using assms by (fastforce simp: two_ends_def authenticated_def)+

text \<open>What the task of a connection makes of one arriving stream that greets with the peer's own name.\<close>

lemma arriving_stream_passed:
  assumes "connections T hs reg auth cs" "c \<in># cs" "pqc_in (cw_con (cn_con c)) = [Ok (Ready (Some v))]"
    and "timer_documented clk'" "now clk' < now clk + from_secs 10" "p = cn_peer_identifier c"
  shows "\<exists>i c' ps e s. connection_poll cd clk c reg = ([i], Ok NotReady, c', reg) \<and> is_stream i = Some ps \<and>
    incoming_poll pq co clk' reg (i\<lparr>is_stream := Some (receive [User p] ps)\<rparr>) =
      (Ok (Ready ()), i\<lparr>is_stream := None\<rparr>, e) \<and> ie_passed e = [s] \<and>
    st_peer_identifier s = p \<and> is_p2p s \<and>
    nsw_con_id (nsh_new_stream_handle (st_new_stream_handle s)) = con_connection_id (cn_con c) \<and>
    tape_bytes (pqs_in v) = ps_used ps @ st_pending s"
proof -
  let ?v = "con_wrap_stream (cw_con (cn_con c)) v"
  let ?i = "incoming_stream_new cd clk ?v (from_secs 10) p (cn_new_stream_handle c) (cn_new_con_handle c)"
  let ?ps = "receive [User p] (pstream_new cd ?v)"
  let ?s = "stream_new (strat_from_pstream ((ps_advance ?ps)\<lparr>ps_msgs := []\<rparr>)) p (cn_new_stream_handle c) False"
  obtain c' where con: "connection_poll cd clk c reg = ([?i], Ok NotReady, c', reg)"
    using connection_poll_one [OF assms(3)] assms(6) by blast
  have run: "is_ok (timeout_poll clk' (is_timeout (?i\<lparr>is_stream := Some ?ps\<rparr>)))"
    using assms(4,5) by (intro incoming_running) (simp_all add: incoming_stream_new_def timeout_new_def)
  have poll: "incoming_poll pq co clk' reg (?i\<lparr>is_stream := Some ?ps\<rparr>) =
      (Ok (Ready ()), ?i\<lparr>is_stream := None\<rparr>, no_incoming_effects\<lparr>ie_passed := [?s]\<rparr>)"
    using incoming_poll_hello [OF run, of ?ps "User p" "[]" pq co reg] by (simp add: incoming_stream_new_def)
  have "ps_pending ?ps = ps_used ?ps @ ps_pending ((ps_advance ?ps)\<lparr>ps_msgs := []\<rparr>)"
    by (rule ps_poll_pending [of ?ps "Ok (Ready (Some (User p)))"]) simp
  moreover have "ps_pending ?ps = tape_bytes (pqs_in v)" "ps_used ?ps = ps_used (pstream_new cd ?v)"
    by (simp_all add: ps_pending_def ps_used_def receive_def con_wrap_stream_def ss_new_def stream_wrapper_new_def
        ss_pending_def)
  ultimately have "tape_bytes (pqs_in v) = ps_used (pstream_new cd ?v) @ st_pending ?s"
    by (simp add: st_pending_def stream_new_def)
  moreover have "st_peer_identifier ?s = p" "is_p2p ?s"
    "nsw_con_id (nsh_new_stream_handle (st_new_stream_handle ?s)) = con_connection_id (cn_con c)"
    using connections_handle_ok [OF assms(1,2)]
    by (simp_all add: stream_new_def is_p2p_def set_proxy_stream_def con_handle_ok_def)
  ultimately show ?thesis
    using con poll
    by (intro exI [of _ ?i] exI [of _ c'] exI [of _ "pstream_new cd ?v"]
        exI [of _ "no_incoming_effects\<lparr>ie_passed := [?s]\<rparr>"] exI [of _ ?s] conjI)
      (simp_all add: incoming_stream_new_def)
qed

text \<open>
  C3. From user to user: peer \<open>pA\<close> has a connection registered for \<open>pB\<close>, and \<open>pB\<close> holds the other
  end of it. When \<open>pA\<close> asks its context for \<open>pB\<close>, it gets a stream at the first poll; the task of
  \<open>pB\<close>'s end, given what \<open>pA\<close>'s stream wrote, hands a stream to the context of \<open>pB\<close>, whose user gets
  it at the next poll. Both streams are direct and each runs on its end of that connection, as do
  the streams opened from it later; each side names the other one after the certificate it was
  presented in a handshake of this connection; and of the bytes that arrived, the user of \<open>pB\<close> is
  delivered all but those the framing used to read the greeting.
\<close>

theorem direct_stream_end_to_end:
  assumes "connections TA hsA (nd_registry nA) (nd_auth nA) csA" "cA \<in># csA"
      "inner_peer (nd_registry nA) pB = Some (cn_new_stream_handle cA)"
      "nsh_local_peer_identifier (cn_new_stream_handle cA) = pA"
      "handle_new_stream pqA (nsh_new_stream_handle (cn_new_stream_handle cA)) = Ok (Ready vA) # tA"
      "io_out vA = []" "prompt_sink cdA" "cx_new_connection_handles cxA = nchA # nchsA"
    and "connections TB hsB regB authB csB" "cB \<in># csB"
    and "two_ends hsA cA certA hsB cB certB" "cert_identity TB certA pA"
    and "pqc_in (cw_con (cn_con cB)) = [Ok (Ready (Some vB))]" "timer_documented clkB'" "now clkB' < now clkB + from_secs 10"
      "psc_alive chan" "psc_sent chan = []" "\<not> ready_or_err (fst (poll_tape (cx_context_inner_handle cxB)))"
  shows "\<exists>f sA i c' psB e sB.
    cx_create_connection_to_peer ask (nd_registry nA) cxA pB = Some (f, nd_registry nA) \<and>
    create_connection_poll pqA cdA cdb ifs clkA nA f = (Ok (Ready sA), nA, Created) \<and>
    connection_poll cdB clkB cB regB = ([i], Ok NotReady, c', regB) \<and> is_stream i = Some psB \<and>
    incoming_poll pqB co clkB' regB (i\<lparr>is_stream := Some (receive (hello_messages (io_out (st_stream sA))) psB)\<rparr>) =
      (Ok (Ready ()), i\<lparr>is_stream := None\<rparr>, e) \<and> ie_passed e = [sB] \<and>
    fst (context_poll (cxB\<lparr>cx_new_stream_recv := items_tape (psc_sent (pass_stream sB chan))\<rparr>)) = Ok (Ready (Some sB)) \<and>
    st_peer_identifier sA = pB \<and> is_p2p sA \<and> st_peer_identifier sB = pA \<and> is_p2p sB \<and>
    nsw_con_id (nsh_new_stream_handle (st_new_stream_handle sA)) = con_connection_id (cn_con cA) \<and>
    nsw_con_id (nsh_new_stream_handle (st_new_stream_handle sB)) = con_connection_id (cn_con cB) \<and>
    authenticated TA hsA (con_connection_id (cn_con cA)) pB \<and> cert_identity TA certB pB \<and>
    authenticated TB hsB (con_connection_id (cn_con cB)) pA \<and>
    tape_bytes (pqs_in vB) = ps_used psB @ st_pending sB"
proof -
  obtain f sA c where A: "cx_create_connection_to_peer ask (nd_registry nA) cxA pB = Some (f, nd_registry nA)"
    "create_connection_poll pqA cdA cdb ifs clkA nA f = (Ok (Ready sA), nA, Created)"
    "st_peer_identifier sA = pB" "is_p2p sA" "hello_messages (io_out (st_stream sA)) = [User pA]"
    "authenticated TA hsA (con_connection_id (cn_con c)) pB"
    "nsw_con_id (nsh_new_stream_handle (st_new_stream_handle sA)) = con_connection_id (cn_con c)"
    and c: "c \<in># csA" "cn_new_stream_handle c = cn_new_stream_handle cA"
    using create_connected_opens [OF assms(1,3,5,7,8), of ask cdb ifs clkA] assms(4,6) by force
  have id: "con_connection_id (cn_con c) = con_connection_id (cn_con cA)"
    using connections_handle_ok [OF assms(1)] c assms(2) by (metis con_handle_ok_def)
  note authB = connections_authenticated [OF assms(9), THEN conjunct2, rule_format, OF assms(10)]
  have pA: "pA = cn_peer_identifier cB"
    using two_ends_identity(2) [OF assms(11) authB] assms(12) by (metis cert_identity_unique)
  obtain i c' psB e sB where B: "connection_poll cdB clkB cB regB = ([i], Ok NotReady, c', regB)" "is_stream i = Some psB"
    "incoming_poll pqB co clkB' regB (i\<lparr>is_stream := Some (receive [User pA] psB)\<rparr>) =
      (Ok (Ready ()), i\<lparr>is_stream := None\<rparr>, e)" "ie_passed e = [sB]" "st_peer_identifier sB = pA" "is_p2p sB"
    "nsw_con_id (nsh_new_stream_handle (st_new_stream_handle sB)) = con_connection_id (cn_con cB)"
    "tape_bytes (pqs_in vB) = ps_used psB @ st_pending sB"
    using arriving_stream_passed [OF assms(9,10,13-15) pA, of cdB pqB co] by blast
  show ?thesis
    using A B id two_ends_identity(1) [OF assms(11), of TA pB] authB pA passed_stream_arrives [OF assms(16-18), of sB]
    by (intro exI [of _ f] exI [of _ sA] exI [of _ i] exI [of _ c'] exI [of _ psB] exI [of _ e] exI [of _ sB] conjI) simp_all
qed

text \<open>Peer \<open>[1]\<close> asks for peer \<open>[5]\<close>, to which the transport has just handed the stream.\<close>

definition demo_arrival :: connection_wrapper where
  "demo_arrival = \<lparr>cw_con = (cw_con demo_wrapper)\<lparr>pqc_in := [Ok (Ready (Some (demo_pq_stream [Ok (Ready (Some [4, 5]))])))]\<rparr>\<rparr>"

theorem direct_stream_end_to_end_witness:
  "\<exists>(nA :: (unit, unit) node) (regB :: unit inner) (cA :: connection) cB f sA i c' psB e sB.
    cx_create_connection_to_peer (\<lambda>_ u. u) (nd_registry nA) demo_context [5] = Some (f, nd_registry nA) \<and>
    create_connection_poll demo_picoquic (prompt_codec []) (prompt_codec []) [] (documented_clock 0) nA f =
      (Ok (Ready sA), nA, Created) \<and>
    connection_poll (prompt_codec []) (documented_clock 0) cB regB = ([i], Ok NotReady, c', regB) \<and> is_stream i = Some psB \<and>
    incoming_poll demo_picoquic demo_codecs (documented_clock 1) regB
      (i\<lparr>is_stream := Some (receive (hello_messages (io_out (st_stream sA))) psB)\<rparr>) = (Ok (Ready ()), i\<lparr>is_stream := None\<rparr>, e) \<and>
    ie_passed e = [sB] \<and> st_peer_identifier sB = [1] \<and> is_p2p sB \<and>
    authenticated demo_tls [(7, [5], Ok True)] (con_connection_id (cn_con cA)) [5] \<and>
    authenticated demo_tls [(7, [1], Ok True)] (con_connection_id (cn_con cB)) [1]"
proof -
  have "pqc_id (cw_con demo_arrival) = 7" by (simp add: demo_wrapper_def demo_arrival_def)
  then obtain reg :: "unit inner" and auth cA and regB :: "unit inner" and authB cB where
    A: "connections demo_tls [(7, [5], Ok True)] reg auth {#cA#}" "inner_peer reg [5] = Some (cn_new_stream_handle cA)"
      "cn_new_stream_handle cA = demo_connected_handle" and
    B: "connections demo_tls [(7, [1], Ok True)] regB authB {#cB#}" "cn_con cB = demo_arrival"
    using demo_connected demo_connected_as [of demo_arrival "[1]"] by auto
  let ?n = "\<lparr>nd_registry = reg, nd_auth = auth, nd_spawned = []\<rparr>"
  have "handle_new_stream demo_picoquic (nsh_new_stream_handle (cn_new_stream_handle cA)) = Ok (Ready (demo_stream [])) # []"
    "nsh_local_peer_identifier (cn_new_stream_handle cA) = [1]"
    by (simp_all add: A(3) handle_new_stream_def demo_defs demo_connected_handle_def new_stream_handle_new_def
        con_get_new_stream_handle_def demo_wrapper_def pqc_stream_handle_def)
  moreover have "io_out (demo_stream []) = []" by (simp add: demo_defs io_out_def ss_new_def stream_wrapper_new_def)
  moreover have "cx_new_connection_handles demo_context = demo_con_handle [1] # []" "cx_context_inner_handle demo_context = []"
    by (simp_all add: demo_context_def)
  moreover have "pqc_in (cw_con (cn_con cB)) = [Ok (Ready (Some (demo_pq_stream [Ok (Ready (Some [4, 5]))])))]"
    by (simp add: B(2) demo_arrival_def)
  moreover have "two_ends [(7, [5], Ok True)] cA ([1] :: bytes) [(7, [1], Ok True)] cB [5]" "cert_identity demo_tls [1] [1]"
    by (simp_all add: two_ends_def cert_identity_def demo_tls_def)
  moreover note two = direct_stream_end_to_end [of demo_tls "[(7, [5], Ok True)]" ?n "{#cA#}" cA "[5]" "[1]" demo_picoquic "demo_stream []"
      "[]" "prompt_codec []" demo_context "demo_con_handle [1]" "[]" demo_tls "[(7, [1], Ok True)]" regB authB "{#cB#}" cB
      "[1]" "[5]" "demo_pq_stream [Ok (Ready (Some [4, 5]))]" "documented_clock 1" "documented_clock 0"
      "\<lparr>psc_sent = [], psc_alive = True\<rparr>" demo_context "\<lambda>_ u. u" "prompt_codec []" "[]" "documented_clock 0"
      "prompt_codec []" demo_picoquic demo_codecs]
  moreover have "now (documented_clock 1) < now (documented_clock 0) + from_secs 10" by (simp add: from_secs_def)
  ultimately obtain f sA i c' psB e sB where
    "cx_create_connection_to_peer (\<lambda>_ u. u) (nd_registry ?n) demo_context [5] = Some (f, nd_registry ?n)"
    "create_connection_poll demo_picoquic (prompt_codec []) (prompt_codec []) [] (documented_clock 0) ?n f =
      (Ok (Ready sA), ?n, Created)"
    "connection_poll (prompt_codec []) (documented_clock 0) cB regB = ([i], Ok NotReady, c', regB)" "is_stream i = Some psB"
    "incoming_poll demo_picoquic demo_codecs (documented_clock 1) regB
      (i\<lparr>is_stream := Some (receive (hello_messages (io_out (st_stream sA))) psB)\<rparr>) = (Ok (Ready ()), i\<lparr>is_stream := None\<rparr>, e)"
    "ie_passed e = [sB]" "st_peer_identifier sB = [1]" "is_p2p sB"
    "authenticated demo_tls [(7, [5], Ok True)] (con_connection_id (cn_con cA)) [5]"
    "authenticated demo_tls [(7, [1], Ok True)] (con_connection_id (cn_con cB)) [1]"
    using A(1,2) B(1) by fastforce
  then show ?thesis by blast
qed

end
